(* ===== verification/Prelude.thy ===== *)
theory Prelude
  imports Main "HOL-Library.List_Lexorder" "HOL-Library.Char_ord"
begin

text \<open>
  Shared vocabulary of the development. It holds the collections of rules that the component
  theories extend, the Go values every component uses (byte strings, string maps, the decimal
  rendering of \<^verbatim>\<open>fmt.Sprintf("%d")\<close>, the sort of \<^verbatim>\<open>sort.Strings\<close>), and the generic lemmas on
  them. A Go \<^verbatim>\<open>string\<close> is a byte sequence, so it is a \<^typ>\<open>string\<close> here, and the order of
  \<open>List_Lexorder\<close> over \<open>Char_ord\<close> is Go's bytewise string order.
\<close>

named_theorems emits_rules \<open>which calls a program may issue\<close>
named_theorems names_simps \<open>object names and keys of the built objects\<close>

subsection \<open>String maps\<close>

text \<open>
  \<^verbatim>\<open>map[string]string\<close>. Reading a missing key of a Go map gives the zero value, the empty string;
  a nil map reads as an empty one.
\<close>

type_synonym labels = "string \<rightharpoonup> string"

definition mapGet :: "labels \<Rightarrow> string \<Rightarrow> string" where
  "mapGet m k = (case m k of None \<Rightarrow> '''' | Some v \<Rightarrow> v)"

lemma mapGet_update [simp]: "mapGet (m(k \<mapsto> v)) k' = (if k' = k then v else mapGet m k')"
  by (simp add: mapGet_def)

lemma mapGet_empty [simp]: "mapGet Map.empty k = ''''"
  by (simp add: mapGet_def)

subsection \<open>Decimal numerals\<close>

text \<open>\<^verbatim>\<open>strconv\<close>/\<^verbatim>\<open>fmt\<close> rendering of a non-negative integer, and its reading.\<close>

definition digit :: "nat \<Rightarrow> char" where
  "digit d = char_of (48 + d)"

fun dec :: "nat \<Rightarrow> string" where
  "dec n = (if n < 10 then [digit n] else dec (n div 10) @ [digit (n mod 10)])"

declare dec.simps [simp del]

definition is_digit :: "char \<Rightarrow> bool" where
  "is_digit c = (48 \<le> (of_char c :: nat) \<and> (of_char c :: nat) \<le> 57)"

definition digit_val :: "char \<Rightarrow> nat" where
  "digit_val c = of_char c - 48"

definition undec :: "string \<Rightarrow> nat" where
  "undec s = foldl (\<lambda>a c. a * 10 + digit_val c) 0 s"

lemma of_char_digit [simp]: "d < 10 \<Longrightarrow> (of_char (digit d) :: nat) = 48 + d"
  by (simp add: digit_def)

lemma digit_val_digit [simp]: "d < 10 \<Longrightarrow> digit_val (digit d) = d"
  by (simp add: digit_val_def)

lemma is_digit_digit [simp]: "d < 10 \<Longrightarrow> is_digit (digit d)"
  by (simp add: is_digit_def)

lemma digit_table:
  "digit 0 = CHR ''0''" "digit (Suc 0) = CHR ''1''" "digit 1 = CHR ''1''" "digit 2 = CHR ''2''"
  "digit 3 = CHR ''3''" "digit 4 = CHR ''4''" "digit 5 = CHR ''5''" "digit 6 = CHR ''6''"
  "digit 7 = CHR ''7''" "digit 8 = CHR ''8''" "digit 9 = CHR ''9''"
  by code_simp+

lemma dec_small: "n < 10 \<Longrightarrow> dec n = [digit n]"
  by (simp add: dec.simps)

lemma dec_big: "\<not> n < 10 \<Longrightarrow> dec n = dec (n div 10) @ [digit (n mod 10)]"
  by (subst dec.simps) simp

lemma dec_nonempty [simp]: "dec n \<noteq> []"
  by (subst dec.simps) simp

lemma dec_digits: "c \<in> set (dec n) \<Longrightarrow> is_digit c"
proof (induction n rule: dec.induct)
  case (1 n)
  then show ?case by (cases "n < 10") (auto simp: dec_small dec_big)
qed

lemma undec_snoc: "undec (s @ [c]) = undec s * 10 + digit_val c"
  by (simp add: undec_def)

lemma undec_dec [simp]: "undec (dec n) = n"
proof (induction n rule: dec.induct)
  case (1 n)
  show ?case
  proof (cases "n < 10")
    case True
    then show ?thesis by (simp add: dec_small undec_def)
  next
    case False
    with 1 show ?thesis by (simp add: dec_big undec_snoc)
  qed
qed

lemma dec_inj: "dec m = dec n \<longleftrightarrow> m = n"
  by (metis undec_dec)

lemma dec_no_char: "\<not> is_digit c \<Longrightarrow> c \<notin> set (dec n)"
  using dec_digits by blast

subsection \<open>Collecting keys: a Go map used as a set, then sorted\<close>

text \<open>
  \<^verbatim>\<open>set := map[string]bool{}; set[x] = true; ...; for k := range set { out = append(out, k) };
  sort.Strings(out)\<close>. The map is the list of its distinct keys. The iteration order of a Go map is
  unspecified; \<open>sorted_keys_perm\<close> shows that the sorted result is the same for every order in which
  the distinct keys may be visited, so insertion order may stand for it.
\<close>

definition setInsert :: "string \<Rightarrow> string list \<Rightarrow> string list" where
  "setInsert x ks = (if x \<in> set ks then ks else ks @ [x])"

definition sortedKeys :: "string list \<Rightarrow> string list" where
  "sortedKeys ks = sort ks"

lemma set_setInsert [simp]: "set (setInsert x ks) = insert x (set ks)"
  by (auto simp: setInsert_def)

lemma distinct_setInsert [simp]: "distinct ks \<Longrightarrow> distinct (setInsert x ks)"
  by (simp add: setInsert_def)

lemma sortedKeys_props [simp]:
  "set (sortedKeys ks) = set ks" "sorted (sortedKeys ks)"
  "distinct (sortedKeys ks) = distinct ks"
  by (simp_all add: sortedKeys_def)

lemma sorted_keys_perm:
  assumes "distinct ks" "distinct ks'" "set ks' = set ks"
  shows "sortedKeys ks' = sortedKeys ks"
  using assms by (simp add: sortedKeys_def sorted_distinct_set_unique)

subsection \<open>Strings\<close>

text \<open>\<^verbatim>\<open>strings.Contains(s, c)\<close> for a one-byte \<open>c\<close>.\<close>

definition containsByte :: "string \<Rightarrow> char \<Rightarrow> bool" where
  "containsByte s c = (c \<in> set s)"

lemma append_sep_inj:
  assumes "xs @ c # ys = xs' @ c # ys'" "c \<notin> set xs" "c \<notin> set xs'"
  shows "xs = xs' \<and> ys = ys'"
  using assms by (induction xs arbitrary: xs') (auto simp: Cons_eq_append_conv append_eq_Cons_conv)

lemma append_sep_inj_right:
  assumes "xs @ c # ys = xs' @ c # ys'" "c \<notin> set ys" "c \<notin> set ys'"
  shows "xs = xs' \<and> ys = ys'"
proof -
  have "rev ys @ c # rev xs = rev ys' @ c # rev xs'"
    using assms(1) by (metis append_Cons append_assoc rev.simps(2) rev_append append_Nil)
  then have "rev ys = rev ys' \<and> rev xs = rev xs'"
    using assms(2,3) by (intro append_sep_inj) auto
  then show ?thesis by simp
qed

end
