(* ===== verification/KubeTypes.thy ===== *)
theory KubeTypes
  imports Prelude
begin

text \<open>
  The Kubernetes API objects that the operator reads and writes, as records with the fields the
  source sets or reads (packages \<^verbatim>\<open>k8s.io/api\<close> and \<^verbatim>\<open>k8s.io/apimachinery\<close>). A Go pointer is an
  \<open>option\<close>, a Go map a partial function, a Go slice a list; a field the operator never mentions is
  left out. String enumerations are datatypes with a constructor for the empty (unset) value where
  an object can carry it.
\<close>

subsection \<open>Metadata\<close>

type_synonym Time = int
type_synonym Quantity = string
type_synonym ResourceList = "string \<rightharpoonup> Quantity"
type_synonym NamespacedName = "string \<times> string"

text \<open>\<^verbatim>\<open>metav1.Time.IsZero\<close>: true for a nil pointer and for the zero time.\<close>

definition IsZero :: "Time option \<Rightarrow> bool" where
  "IsZero t = (case t of None \<Rightarrow> True | Some x \<Rightarrow> x = 0)"

lemma IsZero_simps [simp]: "IsZero None" "IsZero (Some x) = (x = 0)"
  by (simp_all add: IsZero_def)

record OwnerReference =
  orKind :: string
  orName :: string
  orUID :: string
  orController :: bool

record ObjectMeta =
  omName :: string
  omNamespace :: string
  omLabels :: labels
  omAnnotations :: labels
  omFinalizers :: "string list"
  omOwnerReferences :: "OwnerReference list"
  omDeletionTimestamp :: "Time option"
  omGeneration :: int
  omUID :: string
  omResourceVersion :: string

definition zeroMeta :: ObjectMeta where
  "zeroMeta = \<lparr>omName = '''', omNamespace = '''', omLabels = Map.empty, omAnnotations = Map.empty,
     omFinalizers = [], omOwnerReferences = [], omDeletionTimestamp = None, omGeneration = 0,
     omUID = '''', omResourceVersion = ''''\<rparr>"

datatype ConditionStatus = ConditionTrue | ConditionFalse | ConditionUnknown

record Condition =
  cType :: string
  cStatus :: ConditionStatus
  cObservedGeneration :: int
  cLastTransitionTime :: Time
  cReason :: string
  cMessage :: string

record LabelSelectorRequirement =
  lsrKey :: string
  lsrOperator :: string
  lsrValues :: "string list"

record LabelSelector =
  lsMatchLabels :: labels
  lsMatchExpressions :: "LabelSelectorRequirement list"

text \<open>\<^verbatim>\<open>labels.Selector\<close>: an interface value, represented by its \<^verbatim>\<open>Matches\<close> method.\<close>

type_synonym Selector = "labels \<Rightarrow> bool"

subsection \<open>Volumes and claims\<close>

datatype AccessMode = ReadWriteOnce | ReadOnlyMany | ReadWriteMany | ReadWriteOncePod
datatype ClaimPhase = ClaimPhaseUnset | ClaimPending | ClaimBound | ClaimLost
datatype VolumePhase =
  VolumePhaseUnset | VolumePending | VolumeAvailable | VolumeBound | VolumeReleased | VolumeFailed
datatype PVReclaimPolicy = PersistentVolumeReclaimRecycle | PersistentVolumeReclaimDelete
  | PersistentVolumeReclaimRetain

record PersistentVolumeClaimSpec =
  pvcAccessModes :: "AccessMode list"
  pvcStorageClassName :: "string option"
  pvcVolumeName :: string
  pvcRequests :: ResourceList

record PersistentVolumeClaim =
  pvcMeta :: ObjectMeta
  pvcSpec :: PersistentVolumeClaimSpec
  pvcPhase :: ClaimPhase

record NFSVolumeSource =
  nfsServer :: string
  nfsPath :: string

record ObjectReference =
  refAPIVersion :: string
  refKind :: string
  refNamespace :: string
  refName :: string
  refUID :: string
  refResourceVersion :: string

record PersistentVolumeSpec =
  pvCapacity :: ResourceList
  pvAccessModes :: "AccessMode list"
  pvReclaimPolicy :: PVReclaimPolicy
  pvStorageClassName :: string
  pvMountOptions :: "string list"
  pvNFS :: "NFSVolumeSource option"
  pvClaimRef :: "ObjectReference option"

record PersistentVolume =
  pvMeta :: ObjectMeta
  pvSpec :: PersistentVolumeSpec
  pvPhase :: VolumePhase

subsection \<open>Pods\<close>

record VolumeMount =
  vmName :: string
  vmSubPath :: string
  vmMountPath :: string
  vmReadOnly :: bool

record ContainerPort =
  cpName :: string
  cpContainerPort :: int

record SecurityContext =
  scAllowPrivilegeEscalation :: "bool option"
  scCapabilitiesAdd :: "string list"

record Probe =
  prTCPSocketPort :: int
  prInitialDelaySeconds :: int
  prPeriodSeconds :: int

record Container =
  ctName :: string
  ctImage :: string
  ctCommand :: "string list"
  ctPorts :: "ContainerPort list"
  ctSecurityContext :: "SecurityContext option"
  ctReadinessProbe :: "Probe option"
  ctVolumeMounts :: "VolumeMount list"

datatype HostPathType = HostPathUnset | HostPathDirectoryOrCreate | HostPathDirectory

record HostPathVolumeSource =
  hpPath :: string
  hpType :: "HostPathType option"

text \<open>\<^verbatim>\<open>corev1.VolumeSource\<close>: the claim name, the ConfigMap name or the host path, each a pointer.\<close>

record Volume =
  volName :: string
  volPersistentVolumeClaim :: "string option"
  volConfigMap :: "string option"
  volHostPath :: "HostPathVolumeSource option"

datatype RestartPolicy = RestartPolicyUnset | RestartPolicyAlways | RestartPolicyOnFailure
  | RestartPolicyNever

record PodAffinityTerm =
  patLabelSelector :: LabelSelector
  patTopologyKey :: string

record PodSpec =
  podRestartPolicy :: RestartPolicy
  podInitContainers :: "Container list"
  podContainers :: "Container list"
  podVolumes :: "Volume list"
  podAffinityRequired :: "PodAffinityTerm list option"

record PodTemplateSpec =
  ptMeta :: ObjectMeta
  ptSpec :: PodSpec

subsection \<open>Workloads, services, policies\<close>

record ConfigMap =
  cmMeta :: ObjectMeta
  cmData :: labels

datatype DeploymentStrategyType = RecreateDeploymentStrategyType | RollingUpdateDeploymentStrategyType

record DeploymentSpec =
  depReplicas :: "int option"
  depStrategy :: DeploymentStrategyType
  depSelector :: LabelSelector
  depTemplate :: PodTemplateSpec

record Deployment =
  depMeta :: ObjectMeta
  depSpec :: DeploymentSpec
  depReadyReplicas :: int

datatype Protocol = ProtocolTCP | ProtocolUDP | ProtocolSCTP

record ServicePort =
  spName :: string
  spPort :: int
  spProtocol :: Protocol

record Service =
  svcMeta :: ObjectMeta
  svcSelector :: labels
  svcPorts :: "ServicePort list"
  svcClusterIP :: string

record JobSpec =
  jobBackoffLimit :: "int option"
  jobActiveDeadlineSeconds :: "int option"
  jobTemplate :: PodTemplateSpec

datatype JobConditionType = JobSuspended | JobComplete | JobFailed | JobFailureTarget
  | JobSuccessCriteriaMet

record JobCondition =
  jcType :: JobConditionType
  jcStatus :: ConditionStatus

record Job =
  jobMeta :: ObjectMeta
  jobSpec :: JobSpec
  jobConditions :: "JobCondition list"

datatype ConcurrencyPolicy = ConcurrencyUnset | AllowConcurrent | ForbidConcurrent | ReplaceConcurrent

record CronJobSpec =
  cjSchedule :: string
  cjSuspend :: "bool option"
  cjConcurrencyPolicy :: ConcurrencyPolicy
  cjStartingDeadlineSeconds :: "int option"
  cjSuccessfulJobsHistoryLimit :: "int option"
  cjFailedJobsHistoryLimit :: "int option"
  cjTemplateMeta :: ObjectMeta
  cjJobSpec :: JobSpec

record CronJob =
  cjMeta :: ObjectMeta
  cjSpec :: CronJobSpec
  cjLastSuccessfulTime :: "Time option"

record NetworkPolicyPort =
  nppProtocol :: "Protocol option"
  nppPort :: "int option"

record NetworkPolicyPeer =
  peerNamespaceSelector :: "LabelSelector option"
  peerIPBlockCIDR :: "string option"

record NetworkPolicyIngressRule =
  nprPorts :: "NetworkPolicyPort list"
  nprFrom :: "NetworkPolicyPeer list"

datatype PolicyType = PolicyTypeIngress | PolicyTypeEgress

record NetworkPolicySpec =
  npPodSelector :: LabelSelector
  npPolicyTypes :: "PolicyType list"
  npIngress :: "NetworkPolicyIngressRule list"

record NetworkPolicy =
  npMeta :: ObjectMeta
  npSpec :: NetworkPolicySpec

subsection \<open>Namespaces and nodes\<close>

record Namespace =
  nsMeta :: ObjectMeta

datatype NodeAddressType = NodeHostName | NodeInternalIP | NodeExternalIP | NodeInternalDNS
  | NodeExternalDNS

record NodeAddress =
  naType :: NodeAddressType
  naAddress :: string

record Node =
  nodeMeta :: ObjectMeta
  nodePodCIDR :: string
  nodePodCIDRs :: "string list"
  nodeAddresses :: "NodeAddress list"

end
