(* ===== verification/SharedVolumeTypes.thy ===== *)
theory SharedVolumeTypes
  imports KubeTypes
begin

text \<open>
  The SharedVolume API of \<^verbatim>\<open>api/v1alpha1/sharedvolume_types.go\<close>: the spec a user writes, the status
  the operator reports, and the string constants of both. Each string enumeration is a datatype with
  the source's constants and one constructor for the empty string, the value of an omitted field;
  the CRD schema admits no other.
\<close>

datatype ReclaimPolicy = ReclaimUnset | ReclaimDelete | ReclaimRetain
datatype NetworkPolicyMode = NetworkPolicyUnset | NetworkPolicyEnabled | NetworkPolicyDisabled
datatype RestorePolicy = RestoreUnset | RestoreAuto | RestoreNever

record HostPathDestination =
  hpdPath :: string

record BackupDestination =
  bdHostPath :: "HostPathDestination option"

record BackupSpec =
  bsSchedule :: string
  bsDestination :: BackupDestination
  bsSuspend :: "bool option"
  bsRestorePolicy :: RestorePolicy

record NamespaceSelection =
  selNames :: "string list"
  selSelector :: "LabelSelector option"

record SharedVolumeSpec =
  specCapacity :: Quantity
  specStorageClassName :: "string option"
  specNamespaces :: NamespaceSelection
  specReclaimPolicy :: ReclaimPolicy
  specNetworkPolicy :: NetworkPolicyMode
  specBackup :: "BackupSpec option"

datatype SharedVolumePhase = PhaseUnset | PhasePending | PhaseProvisioning | PhaseReady
  | PhaseDegraded | PhaseTerminating
datatype BindingPhase = BindingPending | BindingBound | BindingConflict | BindingTerminating

record NamespaceBinding =
  nbNamespace :: string
  nbPVCName :: string
  nbPhase :: BindingPhase

definition ConditionServerReady :: string where "ConditionServerReady = ''ServerReady''"
definition ConditionAllBound :: string where "ConditionAllBound = ''AllBound''"
definition ConditionRestored :: string where "ConditionRestored = ''Restored''"

definition ReasonSeedRunning :: string where "ReasonSeedRunning = ''SeedRunning''"
definition ReasonSeeded :: string where "ReasonSeeded = ''Seeded''"
definition ReasonSeedFailed :: string where "ReasonSeedFailed = ''SeedFailed''"
definition ReasonPreexistingServer :: string where
  "ReasonPreexistingServer = ''PreexistingServer''"

lemmas condition_names = ConditionServerReady_def ConditionAllBound_def ConditionRestored_def
lemmas reason_names = ReasonSeedRunning_def ReasonSeeded_def ReasonSeedFailed_def
  ReasonPreexistingServer_def

record SharedVolumeStatus =
  stPhase :: SharedVolumePhase
  stServerEndpoint :: string
  stBackingPVC :: string
  stBoundSummary :: string
  stBindings :: "NamespaceBinding list"
  stLastBackupTime :: "Time option"
  stObservedGeneration :: int
  stConditions :: "Condition list"

record SharedVolume =
  svMeta :: ObjectMeta
  svSpec :: SharedVolumeSpec
  svStatus :: SharedVolumeStatus

text \<open>The list type carries of its metadata the resource version.\<close>

record SharedVolumeList =
  svlResourceVersion :: string
  svlItems :: "SharedVolume list"

abbreviation svName :: "SharedVolume \<Rightarrow> string" where
  "svName sv \<equiv> omName (svMeta sv)"

abbreviation svGeneration :: "SharedVolume \<Rightarrow> int" where
  "svGeneration sv \<equiv> omGeneration (svMeta sv)"

abbreviation svBackup :: "SharedVolume \<Rightarrow> BackupSpec option" where
  "svBackup sv \<equiv> specBackup (svSpec sv)"

abbreviation svConditions :: "SharedVolume \<Rightarrow> Condition list" where
  "svConditions sv \<equiv> stConditions (svStatus sv)"

text \<open>
  What the CRD's validation rule on \<^verbatim>\<open>BackupDestination\<close> (\<^verbatim>\<open>has(self.hostPath)\<close>) guarantees of an
  admitted object: a configured backup names a host path.
\<close>

definition backup_admitted :: "SharedVolume \<Rightarrow> bool" where
  "backup_admitted sv = (case svBackup sv of None \<Rightarrow> True
     | Some b \<Rightarrow> bdHostPath (bsDestination b) \<noteq> None)"

end
