(* ===== verification/Ganesha.thy ===== *)
theory Ganesha
  imports Prelude
begin

text \<open>
  \<^verbatim>\<open>internal/ganesha/config.go\<close>: the static NFS-Ganesha configuration of a volume's server. The lines
  are the lines of the raw string literal, each ended by a newline.
\<close>

definition unlines :: "string list \<Rightarrow> string" where
  "unlines ls = concat (map (\<lambda>l. l @ ''\<newline>'') ls)"

definition Config :: string where
  "Config = unlines [
     ''NFS_CORE_PARAM {'',
     ''    NFS_Port = 2049;'',
     ''    Protocols = 4;'',
     ''    Enable_NLM = false;'',
     ''    Enable_RQUOTA = false;'',
     ''    mount_path_pseudo = true;'',
     ''}'',
     '''',
     ''NFSV4 {'',
     ''    Minor_Versions = 1, 2;'',
     ''    Grace_Period = 15;'',
     ''    Lease_Lifetime = 15;'',
     ''    RecoveryBackend = fs;'',
     ''}'',
     '''',
     ''EXPORT {'',
     ''    Export_Id = 1;'',
     ''    Path = /export;'',
     ''    Pseudo = /;'',
     ''    Protocols = 4;'',
     ''    Transports = TCP;'',
     ''    Access_Type = RW;'',
     ''    Squash = No_Root_Squash;'',
     ''    SecType = sys;'',
     ''    Disable_ACL = true;'',
     ''    FSAL { Name = VFS; }'',
     ''}'',
     '''',
     ''LOG { Default_Log_Level = EVENT; }'']"

end
