(* ===== verification/Sha256.thy ===== *)
theory Sha256
  imports Prelude "HOL-Library.Word"
begin

unbundle bit_operations_syntax

text \<open>
  What \<^verbatim>\<open>confHash\<close> uses of Go's standard library: \<^verbatim>\<open>crypto/sha256.Sum256\<close> (FIPS 180-4, SHA-256, on
  32-bit words that wrap around) and \<^verbatim>\<open>encoding/hex.EncodeToString\<close>.
\<close>

type_synonym u32 = "32 word"
type_synonym byte = "8 word"

text \<open>
  The standard's constants are the first 32 fractional bits of the cube roots of the first 64 primes (the
  round constants) and of the square roots of the first eight (the initial state).
\<close>

definition primesBelow :: "nat \<Rightarrow> nat list" where
  "primesBelow n = filter (\<lambda>p. list_all (\<lambda>d. p mod d \<noteq> 0) [2..<p]) [2..<n]"

text \<open>The integer \<open>k\<close>-th root, by setting its bits from the highest down; \<open>b\<close> bounds its length.\<close>

definition intRoot :: "nat \<Rightarrow> nat \<Rightarrow> nat \<Rightarrow> nat" where
  "intRoot k b n = foldl (\<lambda>t i. if (t + 2 ^ i) ^ k \<le> n then t + 2 ^ i else t) 0 (rev [0..<b])"

definition rootFraction :: "nat \<Rightarrow> nat \<Rightarrow> u32" where
  "rootFraction k p = word_of_nat (intRoot k 37 (p * 2 ^ (32 * k)))"

definition sha_K :: "u32 list" where
  "sha_K = map (rootFraction 3) (primesBelow 312)"

record sha_state =
  shA :: u32
  shB :: u32
  shC :: u32
  shD :: u32
  shE :: u32
  shF :: u32
  shG :: u32
  shH :: u32

definition sha_init :: sha_state where
  "sha_init = \<lparr>shA = rootFraction 2 2, shB = rootFraction 2 3, shC = rootFraction 2 5, shD = rootFraction 2 7,
     shE = rootFraction 2 11, shF = rootFraction 2 13, shG = rootFraction 2 17, shH = rootFraction 2 19\<rparr>"

definition sha_round :: "sha_state \<Rightarrow> u32 \<times> u32 \<Rightarrow> sha_state" where
  "sha_round s kw =
     (let e = shE s; a = shA s;
          S1 = word_rotr 6 e XOR word_rotr 11 e XOR word_rotr 25 e;
          ch = (e AND shF s) XOR (NOT e AND shG s);
          t1 = shH s + S1 + ch + fst kw + snd kw;
          S0 = word_rotr 2 a XOR word_rotr 13 a XOR word_rotr 22 a;
          maj = (a AND shB s) XOR (a AND shC s) XOR (shB s AND shC s)
      in \<lparr>shA = t1 + (S0 + maj), shB = a, shC = shB s, shD = shC s,
          shE = shD s + t1, shF = e, shG = shF s, shH = shG s\<rparr>)"

text \<open>The message schedule, newest word first: each step adds \<open>w_t\<close> from \<open>w_(t-2)\<close>, \<open>w_(t-7)\<close>,
  \<open>w_(t-15)\<close> and \<open>w_(t-16)\<close>.\<close>

fun sha_extend :: "nat \<Rightarrow> u32 list \<Rightarrow> u32 list" where
  "sha_extend 0 ws = ws"
| "sha_extend (Suc n) ws =
     (let w2 = ws ! 1; w15 = ws ! 14;
          s0 = word_rotr 7 w15 XOR word_rotr 18 w15 XOR drop_bit 3 w15;
          s1 = word_rotr 17 w2 XOR word_rotr 19 w2 XOR drop_bit 10 w2
      in sha_extend n ((ws ! 15 + s0 + ws ! 6 + s1) # ws))"

definition sha_add :: "sha_state \<Rightarrow> sha_state \<Rightarrow> sha_state" where
  "sha_add s t = \<lparr>shA = shA s + shA t, shB = shB s + shB t, shC = shC s + shC t, shD = shD s + shD t,
     shE = shE s + shE t, shF = shF s + shF t, shG = shG s + shG t, shH = shH s + shH t\<rparr>"

text \<open>One 512-bit block, given as its sixteen words.\<close>

definition sha_block :: "sha_state \<Rightarrow> u32 list \<Rightarrow> sha_state" where
  "sha_block s ws = sha_add s (foldl sha_round s (zip sha_K (rev (sha_extend 48 (rev ws)))))"

definition be_word :: "byte list \<Rightarrow> u32" where
  "be_word bs = foldl (\<lambda>a b. push_bit 8 a OR ucast b) 0 bs"

definition word_be :: "u32 \<Rightarrow> byte list" where
  "word_be w = [ucast (drop_bit 24 w), ucast (drop_bit 16 w), ucast (drop_bit 8 w), ucast w]"

fun chunks :: "nat \<Rightarrow> nat \<Rightarrow> 'a list \<Rightarrow> 'a list list" where
  "chunks 0 n xs = []"
| "chunks (Suc k) n xs = take n xs # chunks k n (drop n xs)"

definition be64 :: "nat \<Rightarrow> byte list" where
  "be64 n = map (\<lambda>i. word_of_nat (n div 256 ^ (7 - i))) [0..<8]"

definition sha_pad :: "byte list \<Rightarrow> byte list" where
  "sha_pad m = m @ [0x80] @ replicate ((119 - length m mod 64) mod 64) 0 @ be64 (8 * length m)"

definition Sum256 :: "byte list \<Rightarrow> byte list" where
  "Sum256 m =
     (let p = sha_pad m;
          blocks = map (\<lambda>c. map be_word (chunks 16 4 c)) (chunks (length p div 64) 64 p);
          s = foldl sha_block sha_init blocks
      in concat (map word_be [shA s, shB s, shC s, shD s, shE s, shF s, shG s, shH s]))"

definition bytes_of :: "string \<Rightarrow> byte list" where
  "bytes_of s = map of_char s"

definition hex_digit :: "nat \<Rightarrow> char" where
  "hex_digit n = (if n < 10 then digit n else char_of (87 + n))"

definition EncodeToString :: "byte list \<Rightarrow> string" where
  "EncodeToString bs = concat (map (\<lambda>b. [hex_digit (unat b div 16), hex_digit (unat b mod 16)]) bs)"

subsection \<open>Shape of a digest\<close>

lemma length_sha_pad: "64 dvd length (sha_pad m)"
proof -
  let ?n = "length m"
  have split: "n + 9 + (119 - r) = 64 * (q + 2)" if "n = 64 * q + r" "r < 64" for n q r :: nat
    using that by simp
  have "?n + 9 + (119 - ?n mod 64) = 64 * (?n div 64 + 2)"
    by (rule split) simp_all
  then have "(?n + 9 + (119 - ?n mod 64) mod 64) mod 64 = 0"
    by (metis mod_add_right_eq mod_mult_self1_is_0)
  moreover have "length (sha_pad m) = ?n + 9 + (119 - ?n mod 64) mod 64"
    by (simp add: sha_pad_def be64_def)
  ultimately show ?thesis by (metis mod_0_imp_dvd)
qed

lemma length_Sum256 [simp]: "length (Sum256 m) = 32"
  by (simp add: Sum256_def Let_def word_be_def)

lemma length_EncodeToString [simp]: "length (EncodeToString bs) = 2 * length bs"
  by (induction bs) (simp_all add: EncodeToString_def)

lemma of_char_hex_digit:
  "n < 16 \<Longrightarrow> (of_char (hex_digit n) :: nat) = (if n < 10 then 48 + n else 87 + n)"
  by (simp add: hex_digit_def)

lemma hex_digit_inj:
  assumes "m < 16" "n < 16"
  shows "hex_digit m = hex_digit n \<longleftrightarrow> m = n"
proof
  assume "hex_digit m = hex_digit n"
  then have "(of_char (hex_digit m) :: nat) = of_char (hex_digit n)" by simp
  with assms show "m = n" unfolding of_char_hex_digit [OF assms(1)] of_char_hex_digit [OF assms(2)]
    by arith
qed simp

end
