(* ===== verification/Resources.thy ===== *)
theory Resources
  imports SharedVolumeTypes Ganesha Sha256
begin

text \<open>
  \<^verbatim>\<open>internal/controller/resources.go\<close>: the names, labels and builders of every object the operator
  creates for a SharedVolume. A builder is a pure function of the SharedVolume and the operator's
  configuration. The backup builders dereference \<^verbatim>\<open>spec.backup.destination.hostPath\<close>; a nil pointer
  there is a run-time panic, which is the \<open>Inl\<close> result of their models.
\<close>

datatype panic = NilDereference | IndexOutOfRange

subsection \<open>Constants, labels and names\<close>

definition LabelSharedVolume :: string where "LabelSharedVolume = ''nfsz.dev/shared-volume''"
definition LabelManagedBy :: string where "LabelManagedBy = ''app.kubernetes.io/managed-by''"
definition managedByValue :: string where "managedByValue = ''nfsz''"
definition confHashAnnotation :: string where "confHashAnnotation = ''nfsz.dev/conf-hash''"
definition nfsPort :: nat where "nfsPort = 2049"
definition LabelComponent :: string where "LabelComponent = ''app.kubernetes.io/component''"
definition LabelMetadataName :: string where "LabelMetadataName = ''kubernetes.io/metadata.name''"
definition LabelHostname :: string where "LabelHostname = ''kubernetes.io/hostname''"
definition ResourceStorage :: string where "ResourceStorage = ''storage''"

lemmas label_names = LabelSharedVolume_def LabelManagedBy_def LabelComponent_def

definition managedLabels :: "SharedVolume \<Rightarrow> labels" where
  "managedLabels sv = [LabelSharedVolume \<mapsto> svName sv, LabelManagedBy \<mapsto> managedByValue]"

definition BackingPVCName :: "SharedVolume \<Rightarrow> string" where
  "BackingPVCName sv = ''nfsz-'' @ svName sv"

definition ServerName :: "SharedVolume \<Rightarrow> string" where
  "ServerName sv = ''nfsz-'' @ svName sv @ ''-server''"

definition ConfigMapName :: "SharedVolume \<Rightarrow> string" where
  "ConfigMapName sv = ''nfsz-'' @ svName sv @ ''-ganesha''"

definition PVName :: "SharedVolume \<Rightarrow> string \<Rightarrow> string" where
  "PVName sv namespace = ''nfsz-'' @ svName sv @ ''-'' @ namespace"

definition ConsumerPVCName :: "SharedVolume \<Rightarrow> string" where
  "ConsumerPVCName sv = svName sv"

definition BackupCronJobName :: "SharedVolume \<Rightarrow> string" where
  "BackupCronJobName sv = ''nfsz-'' @ svName sv @ ''-backup''"

definition SeedJobName :: "SharedVolume \<Rightarrow> string" where
  "SeedJobName sv = ''nfsz-'' @ svName sv @ ''-seed''"

lemmas object_names = BackingPVCName_def ServerName_def ConfigMapName_def PVName_def
  ConsumerPVCName_def BackupCronJobName_def SeedJobName_def

text \<open>\<^verbatim>\<open>metav1.ObjectMeta{Name, Namespace, Labels}\<close>, every other field zero.\<close>

definition objectMeta :: "string \<Rightarrow> string \<Rightarrow> labels \<Rightarrow> ObjectMeta" where
  "objectMeta name ns ls = zeroMeta\<lparr>omName := name, omNamespace := ns, omLabels := ls\<rparr>"

lemma objectMeta_simps [simp, names_simps]:
  "omName (objectMeta n ns ls) = n" "omNamespace (objectMeta n ns ls) = ns"
  "omLabels (objectMeta n ns ls) = ls" "omAnnotations (objectMeta n ns ls) = Map.empty"
  "omOwnerReferences (objectMeta n ns ls) = []" "omFinalizers (objectMeta n ns ls) = []"
  "omDeletionTimestamp (objectMeta n ns ls) = None"
  by (simp_all add: objectMeta_def zeroMeta_def)

subsection \<open>Server stack\<close>

definition BuildBackingPVC :: "SharedVolume \<Rightarrow> string \<Rightarrow> PersistentVolumeClaim" where
  "BuildBackingPVC sv operatorNamespace = \<lparr>
     pvcMeta = objectMeta (BackingPVCName sv) operatorNamespace (managedLabels sv),
     pvcSpec = \<lparr>pvcAccessModes = [ReadWriteOnce],
                pvcStorageClassName = specStorageClassName (svSpec sv),
                pvcVolumeName = '''',
                pvcRequests = [ResourceStorage \<mapsto> specCapacity (svSpec sv)]\<rparr>,
     pvcPhase = ClaimPhaseUnset\<rparr>"

definition BuildConfigMap :: "SharedVolume \<Rightarrow> string \<Rightarrow> ConfigMap" where
  "BuildConfigMap sv operatorNamespace = \<lparr>
     cmMeta = objectMeta (ConfigMapName sv) operatorNamespace (managedLabels sv),
     cmData = [''ganesha.conf'' \<mapsto> Config]\<rparr>"

definition confHash :: "ConfigMap \<Rightarrow> string" where
  "confHash cm = EncodeToString (take 8 (Sum256 (bytes_of (mapGet (cmData cm) ''ganesha.conf''))))"

definition serverSelector :: "SharedVolume \<Rightarrow> labels" where
  "serverSelector sv = [LabelSharedVolume \<mapsto> svName sv, LabelComponent \<mapsto> ''nfs-server'']"

definition matchLabels :: "labels \<Rightarrow> LabelSelector" where
  "matchLabels m = \<lparr>lsMatchLabels = m, lsMatchExpressions = []\<rparr>"

definition dataMounts :: "VolumeMount list" where
  "dataMounts =
     [\<lparr>vmName = ''backing'', vmSubPath = ''data'', vmMountPath = ''/export'', vmReadOnly = False\<rparr>,
      \<lparr>vmName = ''backing'', vmSubPath = ''.ganesha'', vmMountPath = ''/var/lib/nfs/ganesha'',
       vmReadOnly = False\<rparr>]"

definition claimVolume :: "string \<Rightarrow> string \<Rightarrow> Volume" where
  "claimVolume name claim = \<lparr>volName = name, volPersistentVolumeClaim = Some claim,
     volConfigMap = None, volHostPath = None\<rparr>"

definition BuildServerDeployment :: "SharedVolume \<Rightarrow> string \<Rightarrow> string \<Rightarrow> ConfigMap \<Rightarrow> Deployment" where
  "BuildServerDeployment sv operatorNamespace img cm =
     (let ls = managedLabels sv;
          podLabels = ls(LabelComponent \<mapsto> ''nfs-server'');
          backingVolume = claimVolume ''backing'' (BackingPVCName sv);
          confVolume = \<lparr>volName = ''conf'', volPersistentVolumeClaim = None,
                        volConfigMap = Some (omName (cmMeta cm)), volHostPath = None\<rparr>
      in \<lparr>
        depMeta = objectMeta (ServerName sv) operatorNamespace ls,
        depSpec = \<lparr>
          depReplicas = Some 1,
          depStrategy = RecreateDeploymentStrategyType,
          depSelector = matchLabels (serverSelector sv),
          depTemplate = \<lparr>
            ptMeta = zeroMeta\<lparr>omLabels := podLabels,
                              omAnnotations := [confHashAnnotation \<mapsto> confHash cm]\<rparr>,
            ptSpec = \<lparr>
              podRestartPolicy = RestartPolicyUnset,
              podInitContainers = [\<lparr>
                ctName = ''init-perms'', ctImage = img,
                ctCommand = [''sh'', ''-c'', ''chmod 1777 /export && mkdir -p /var/lib/nfs/ganesha''],
                ctPorts = [], ctSecurityContext = None, ctReadinessProbe = None,
                ctVolumeMounts = dataMounts\<rparr>],
              podContainers = [\<lparr>
                ctName = ''ganesha'', ctImage = img, ctCommand = [],
                ctPorts = [\<lparr>cpName = ''nfs'', cpContainerPort = int nfsPort\<rparr>],
                ctSecurityContext = Some \<lparr>scAllowPrivilegeEscalation = Some False,
                  scCapabilitiesAdd = [''DAC_READ_SEARCH'', ''SYS_RESOURCE'']\<rparr>,
                ctReadinessProbe = Some \<lparr>prTCPSocketPort = int nfsPort,
                  prInitialDelaySeconds = 2, prPeriodSeconds = 5\<rparr>,
                ctVolumeMounts = \<lparr>vmName = ''conf'', vmSubPath = '''',
                  vmMountPath = ''/etc/ganesha'', vmReadOnly = False\<rparr> # dataMounts\<rparr>],
              podVolumes = [confVolume, backingVolume],
              podAffinityRequired = None\<rparr>\<rparr>\<rparr>,
        depReadyReplicas = 0\<rparr>)"

definition BuildService :: "SharedVolume \<Rightarrow> string \<Rightarrow> Service" where
  "BuildService sv operatorNamespace = \<lparr>
     svcMeta = objectMeta (ServerName sv) operatorNamespace (managedLabels sv),
     svcSelector = serverSelector sv,
     svcPorts = [\<lparr>spName = ''nfs'', spPort = int nfsPort, spProtocol = ProtocolTCP\<rparr>],
     svcClusterIP = ''''\<rparr>"

subsection \<open>Consumer PV and PVC\<close>

definition BuildPV :: "SharedVolume \<Rightarrow> string \<Rightarrow> string \<Rightarrow> PersistentVolume" where
  "BuildPV sv namespace serverIP = \<lparr>
     pvMeta = objectMeta (PVName sv namespace) '''' (managedLabels sv),
     pvSpec = \<lparr>
       pvCapacity = [ResourceStorage \<mapsto> specCapacity (svSpec sv)],
       pvAccessModes = [ReadWriteMany],
       pvReclaimPolicy = PersistentVolumeReclaimRetain,
       pvStorageClassName = '''',
       pvMountOptions = [''nfsvers=4.1'', ''proto=tcp'', ''hard''],
       pvNFS = Some \<lparr>nfsServer = serverIP, nfsPath = ''/''\<rparr>,
       pvClaimRef = Some \<lparr>refAPIVersion = ''v1'', refKind = ''PersistentVolumeClaim'',
         refNamespace = namespace, refName = ConsumerPVCName sv, refUID = '''',
         refResourceVersion = ''''\<rparr>\<rparr>,
     pvPhase = VolumePhaseUnset\<rparr>"

definition BuildConsumerPVC :: "SharedVolume \<Rightarrow> string \<Rightarrow> PersistentVolumeClaim" where
  "BuildConsumerPVC sv namespace = \<lparr>
     pvcMeta = objectMeta (ConsumerPVCName sv) namespace (managedLabels sv),
     pvcSpec = \<lparr>pvcAccessModes = [ReadWriteMany],
                pvcStorageClassName = Some '''',
                pvcVolumeName = PVName sv namespace,
                pvcRequests = [ResourceStorage \<mapsto> specCapacity (svSpec sv)]\<rparr>,
     pvcPhase = ClaimPhaseUnset\<rparr>"

definition ServerEndpoint :: "string \<Rightarrow> string" where
  "ServerEndpoint clusterIP = clusterIP @ '':'' @ dec nfsPort"

subsection \<open>Network policy\<close>

definition namespacePeer :: "string \<Rightarrow> NetworkPolicyPeer" where
  "namespacePeer ns = \<lparr>peerNamespaceSelector = Some (matchLabels [LabelMetadataName \<mapsto> ns]),
     peerIPBlockCIDR = None\<rparr>"

definition cidrPeer :: "string \<Rightarrow> NetworkPolicyPeer" where
  "cidrPeer cidr = \<lparr>peerNamespaceSelector = None, peerIPBlockCIDR = Some cidr\<rparr>"

definition hostCIDR :: "string \<Rightarrow> string" where
  "hostCIDR ip = (if containsByte ip (CHR '':'') then ip @ ''/128'' else ip @ ''/32'')"

definition BuildNetworkPolicy ::
  "SharedVolume \<Rightarrow> string \<Rightarrow> string list \<Rightarrow> string list \<Rightarrow> string list \<Rightarrow> NetworkPolicy" where
  "BuildNetworkPolicy sv operatorNamespace targets nodeIPs extraCIDRs =
     (let peers = map namespacePeer targets @ map (\<lambda>ip. cidrPeer (hostCIDR ip)) nodeIPs
                  @ map cidrPeer extraCIDRs
      in \<lparr>
        npMeta = objectMeta (ServerName sv) operatorNamespace (managedLabels sv),
        npSpec = \<lparr>
          npPodSelector = matchLabels (serverSelector sv),
          npPolicyTypes = [PolicyTypeIngress],
          npIngress = [\<lparr>
            nprPorts = [\<lparr>nppProtocol = Some ProtocolTCP, nppPort = Some (int nfsPort)\<rparr>],
            nprFrom = peers\<rparr>]\<rparr>\<rparr>)"

subsection \<open>Backup and seed\<close>

definition backupPodSpec :: "SharedVolume \<Rightarrow> string \<Rightarrow> string \<Rightarrow> bool \<Rightarrow> panic + PodSpec" where
  "backupPodSpec sv img script dataReadOnly =
     (case svBackup sv of None \<Rightarrow> Inl NilDereference
      | Some b \<Rightarrow>
     (case bdHostPath (bsDestination b) of None \<Rightarrow> Inl NilDereference
      | Some hp \<Rightarrow> Inr \<lparr>
        podRestartPolicy = RestartPolicyNever,
        podInitContainers = [],
        podContainers = [\<lparr>
          ctName = ''rsync'', ctImage = img, ctCommand = [''sh'', ''-c'', script], ctPorts = [],
          ctSecurityContext = Some \<lparr>scAllowPrivilegeEscalation = Some False,
            scCapabilitiesAdd = []\<rparr>,
          ctReadinessProbe = None,
          ctVolumeMounts = [
            \<lparr>vmName = ''backing'', vmSubPath = ''data'', vmMountPath = ''/data'',
             vmReadOnly = dataReadOnly\<rparr>,
            \<lparr>vmName = ''backup'', vmSubPath = '''', vmMountPath = ''/backup'',
             vmReadOnly = \<not> dataReadOnly\<rparr>]\<rparr>],
        podVolumes = [
          claimVolume ''backing'' (BackingPVCName sv),
          \<lparr>volName = ''backup'', volPersistentVolumeClaim = None, volConfigMap = None,
           volHostPath = Some \<lparr>hpPath = hpdPath hp,
             hpType = Some HostPathDirectoryOrCreate\<rparr>\<rparr>],
        podAffinityRequired = None\<rparr>))"

definition backupScript :: "string \<Rightarrow> string" where
  "backupScript name = ''set -e\<newline>mkdir -p /backup/'' @ name
     @ ''\<newline>exec rsync -rlt --delete --stats /data/ /backup/'' @ name @ ''/''"

definition BuildBackupCronJob :: "SharedVolume \<Rightarrow> string \<Rightarrow> string \<Rightarrow> panic + CronJob" where
  "BuildBackupCronJob sv operatorNamespace img =
     (let ls = managedLabels sv;
          podLabels = ls(LabelComponent \<mapsto> ''backup'')
      in case backupPodSpec sv img (backupScript (svName sv)) True of Inl p \<Rightarrow> Inl p
      | Inr podSpec \<Rightarrow>
     (case svBackup sv of None \<Rightarrow> Inl NilDereference
      | Some b \<Rightarrow> Inr \<lparr>
        cjMeta = objectMeta (BackupCronJobName sv) operatorNamespace ls,
        cjSpec = \<lparr>
          cjSchedule = bsSchedule b,
          cjSuspend = bsSuspend b,
          cjConcurrencyPolicy = ForbidConcurrent,
          cjStartingDeadlineSeconds = Some 300,
          cjSuccessfulJobsHistoryLimit = Some 1,
          cjFailedJobsHistoryLimit = Some 1,
          cjTemplateMeta = zeroMeta\<lparr>omLabels := ls\<rparr>,
          cjJobSpec = \<lparr>
            jobBackoffLimit = Some 2,
            jobActiveDeadlineSeconds = Some 3600,
            jobTemplate = \<lparr>
              ptMeta = zeroMeta\<lparr>omLabels := podLabels\<rparr>,
              ptSpec = podSpec\<lparr>podAffinityRequired := Some [\<lparr>
                patLabelSelector = matchLabels (serverSelector sv),
                patTopologyKey = LabelHostname\<rparr>]\<rparr>\<rparr>\<rparr>\<rparr>,
        cjLastSuccessfulTime = None\<rparr>))"

definition quoted :: "string \<Rightarrow> string" where
  "quoted s = CHR 0x22 # s @ [CHR 0x22]"

definition seedScript :: "string \<Rightarrow> string" where
  "seedScript name = ''set -e\<newline>SRC=/backup/'' @ name @ ''\<newline>[ -d '' @ quoted ''$SRC''
     @ '' ] || { echo '' @ quoted ''no backup at $SRC; nothing to seed'' @ ''; exit 0; }\<newline>[ -z ''
     @ quoted ''$(ls -A /data 2>/dev/null)'' @ '' ] || { echo ''
     @ quoted ''/data not empty; refusing to seed'' @ ''; exit 0; }\<newline>exec rsync -rlt --stats ''
     @ quoted ''$SRC'' @ ''/ /data/''"

definition BuildSeedJob :: "SharedVolume \<Rightarrow> string \<Rightarrow> string \<Rightarrow> panic + Job" where
  "BuildSeedJob sv operatorNamespace img =
     (let ls = managedLabels sv;
          podLabels = ls(LabelComponent \<mapsto> ''seed'')
      in case backupPodSpec sv img (seedScript (svName sv)) False of Inl p \<Rightarrow> Inl p
      | Inr podSpec \<Rightarrow> Inr \<lparr>
        jobMeta = objectMeta (SeedJobName sv) operatorNamespace ls,
        jobSpec = \<lparr>
          jobBackoffLimit = Some 3,
          jobActiveDeadlineSeconds = None,
          jobTemplate = \<lparr>
            ptMeta = zeroMeta\<lparr>omLabels := podLabels\<rparr>,
            ptSpec = podSpec\<rparr>\<rparr>,
        jobConditions = []\<rparr>)"

subsection \<open>Names\<close>

lemma names_inj [names_simps]:
  "BackingPVCName a = BackingPVCName b \<longleftrightarrow> svName a = svName b"
  "ServerName a = ServerName b \<longleftrightarrow> svName a = svName b"
  "ConfigMapName a = ConfigMapName b \<longleftrightarrow> svName a = svName b"
  "ConsumerPVCName a = ConsumerPVCName b \<longleftrightarrow> svName a = svName b"
  "BackupCronJobName a = BackupCronJobName b \<longleftrightarrow> svName a = svName b"
  "SeedJobName a = SeedJobName b \<longleftrightarrow> svName a = svName b"
  by (simp_all add: object_names)

text \<open>PV names identify the volume and the namespace as long as no namespace name holds a dash.\<close>

theorem PVName_inj:
  assumes "\<not> containsByte ns (CHR ''-'')" "\<not> containsByte ns' (CHR ''-'')"
  shows "PVName a ns = PVName b ns' \<longleftrightarrow> svName a = svName b \<and> ns = ns'"
  using assms append_sep_inj_right [of "svName a" "CHR ''-''" ns "svName b" ns']
  by (auto simp: PVName_def containsByte_def)

definition namedVolume :: "string \<Rightarrow> SharedVolume" where
  "namedVolume n = \<lparr>svMeta = zeroMeta\<lparr>omName := n\<rparr>,
     svSpec = \<lparr>specCapacity = ''1Gi'', specStorageClassName = None,
       specNamespaces = \<lparr>selNames = [], selSelector = None\<rparr>, specReclaimPolicy = ReclaimDelete,
       specNetworkPolicy = NetworkPolicyEnabled, specBackup = None\<rparr>,
     svStatus = \<lparr>stPhase = PhaseUnset, stServerEndpoint = '''', stBackingPVC = '''', stBoundSummary = '''',
       stBindings = [], stLastBackupTime = None, stObservedGeneration = 0, stConditions = []\<rparr>\<rparr>"

lemma svName_namedVolume [simp]: "svName (namedVolume n) = n"
  by (simp add: namedVolume_def)

theorem PVName_inj_witness:
  "PVName (namedVolume ''a-b'') ''c'' \<noteq> PVName (namedVolume ''a'') ''b''"
  using PVName_inj [of "''c''" "''b''" "namedVolume ''a-b''" "namedVolume ''a''"]
  by (simp add: containsByte_def)


subsection \<open>The pre-bound pair\<close>

text \<open>C24: the PV and the claim built for a namespace are bound to each other: the PV is reserved for exactly that
  claim, the claim asks for exactly that PV, and size, access mode and (empty) storage class agree, so
  no other volume or provisioner can satisfy the claim. The data is kept when the claim goes.\<close>

theorem pair_prebound:
  "let pv = BuildPV sv ns ip; pvc = BuildConsumerPVC sv ns in
   map_option (\<lambda>ref. ((refNamespace ref, refName ref), refUID ref)) (pvClaimRef (pvSpec pv))
     = Some ((omNamespace (pvcMeta pvc), omName (pvcMeta pvc)), '''')
   \<and> pvcVolumeName (pvcSpec pvc) = omName (pvMeta pv)
   \<and> pvcRequests (pvcSpec pvc) = pvCapacity (pvSpec pv)
   \<and> pvcAccessModes (pvcSpec pvc) = pvAccessModes (pvSpec pv)
   \<and> pvcStorageClassName (pvcSpec pvc) = Some (pvStorageClassName (pvSpec pv)) \<and> pvStorageClassName (pvSpec pv) = ''''
   \<and> pvReclaimPolicy (pvSpec pv) = PersistentVolumeReclaimRetain
   \<and> map_option nfsServer (pvNFS (pvSpec pv)) = Some ip"
  by (simp add: BuildPV_def BuildConsumerPVC_def Let_def)

subsection \<open>Selectors\<close>

lemma serverSelector_le:
  "serverSelector sv \<subseteq>\<^sub>m m \<longleftrightarrow> m LabelSharedVolume = Some (svName sv) \<and> m LabelComponent = Some ''nfs-server''"
  by (auto simp: serverSelector_def map_le_def label_names)

text \<open>C25: the selector shared by a volume's Deployment, Service, NetworkPolicy and backup affinity matches the
  server pods of that volume and of no other.\<close>

theorem selector_matches_own_server:
  "(serverSelector sv' \<subseteq>\<^sub>m omLabels (ptMeta (depTemplate (depSpec (BuildServerDeployment sv ns img cm))))
      \<longleftrightarrow> svName sv' = svName sv)
   \<and> lsMatchLabels (depSelector (depSpec (BuildServerDeployment sv ns img cm))) = serverSelector sv
   \<and> svcSelector (BuildService sv ns) = serverSelector sv
   \<and> lsMatchLabels (npPodSelector (npSpec (BuildNetworkPolicy sv ns ts ips cidrs))) = serverSelector sv"
  by (auto simp: serverSelector_le BuildServerDeployment_def BuildService_def BuildNetworkPolicy_def Let_def
      managedLabels_def matchLabels_def label_names)

text \<open>C26: backup and seed pods carry the volume's label but never match a server selector, so no traffic is
  routed to them and they are not taken for a server.\<close>

theorem selector_spares_backup_pods:
  assumes "BuildBackupCronJob sv ns img = Inr cj" "BuildSeedJob sv ns img = Inr job"
  shows "\<not> serverSelector sv' \<subseteq>\<^sub>m omLabels (ptMeta (jobTemplate (cjJobSpec (cjSpec cj))))
    \<and> \<not> serverSelector sv' \<subseteq>\<^sub>m omLabels (ptMeta (jobTemplate (jobSpec job)))"
  using assms
  by (auto simp: serverSelector_le BuildBackupCronJob_def BuildSeedJob_def Let_def label_names
      split: sum.splits option.splits)

subsection \<open>Backup pods\<close>

lemma backupPodSpec_total:
  "(\<exists>pod. backupPodSpec sv img script ro = Inr pod) \<longleftrightarrow> svBackup sv \<noteq> None \<and> backup_admitted sv"
  by (auto simp: backupPodSpec_def backup_admitted_def split: option.splits)

lemma conf_data: "mapGet (cmData (BuildConfigMap sv ns)) ''ganesha.conf'' = Config"
  by (simp add: BuildConfigMap_def)

lemma backup_meta:
  "BuildBackupCronJob sv ns img = Inr cj \<Longrightarrow> cjMeta cj = objectMeta (BackupCronJobName sv) ns (managedLabels sv)"
  "BuildSeedJob sv ns img = Inr job \<Longrightarrow> jobMeta job = objectMeta (SeedJobName sv) ns (managedLabels sv)"
  by (auto simp: BuildBackupCronJob_def BuildSeedJob_def Let_def split: sum.splits option.splits)

lemma backupPodSpec_panic: "backupPodSpec sv img script ro = Inl p \<Longrightarrow> p = NilDereference"
  by (auto simp: backupPodSpec_def split: option.splits)

text \<open>C27: the backup builders succeed exactly on the volumes that configure a backup and pass the CRD's
  validation rule; on any other they dereference a nil pointer.\<close>

theorem backup_builders_total:
  "((\<exists>cj. BuildBackupCronJob sv ns img = Inr cj) \<longleftrightarrow> svBackup sv \<noteq> None \<and> backup_admitted sv)
   \<and> ((\<exists>job. BuildSeedJob sv ns img = Inr job) \<longleftrightarrow> svBackup sv \<noteq> None \<and> backup_admitted sv)"
proof -
  have "(\<exists>cj. BuildBackupCronJob sv ns img = Inr cj) \<longleftrightarrow>
      (\<exists>pod. backupPodSpec sv img (backupScript (svName sv)) True = Inr pod)"
    by (auto simp: BuildBackupCronJob_def Let_def backupPodSpec_def split: sum.splits option.splits)
  moreover have "(\<exists>job. BuildSeedJob sv ns img = Inr job) \<longleftrightarrow>
      (\<exists>pod. backupPodSpec sv img (seedScript (svName sv)) False = Inr pod)"
    by (auto simp: BuildSeedJob_def Let_def split: sum.splits)
  ultimately show ?thesis using backupPodSpec_total by simp
qed

text \<open>How a pod mounts a volume: mount path and read-only flag of each mount of the named volume.\<close>

definition mountsOf :: "PodSpec \<Rightarrow> string \<Rightarrow> (string \<times> bool) list" where
  "mountsOf pod v = concat (map (\<lambda>c. map (\<lambda>m. (vmMountPath m, vmReadOnly m))
     (filter (\<lambda>m. vmName m = v) (ctVolumeMounts c))) (podContainers pod))"

text \<open>A backup pod cannot write the live data and a seed pod cannot write the backup: each mounts its
  source read-only and only its destination writable, on the same host path.\<close>

theorem backup_mounts:
  assumes "BuildBackupCronJob sv ns img = Inr cj" "BuildSeedJob sv ns img = Inr job"
  shows "let backup = ptSpec (jobTemplate (cjJobSpec (cjSpec cj))); seed = ptSpec (jobTemplate (jobSpec job)) in
    mountsOf backup ''backing'' = [(''/data'', True)] \<and> mountsOf backup ''backup'' = [(''/backup'', False)]
    \<and> mountsOf seed ''backing'' = [(''/data'', False)] \<and> mountsOf seed ''backup'' = [(''/backup'', True)]
    \<and> podVolumes backup = podVolumes seed
    \<and> podRestartPolicy backup = RestartPolicyNever \<and> podRestartPolicy seed = RestartPolicyNever"
  using assms
  by (auto simp: BuildBackupCronJob_def BuildSeedJob_def Let_def backupPodSpec_def mountsOf_def
      split: sum.splits option.splits)

subsection \<open>Network policy\<close>

text \<open>
  The documented meaning of an ingress rule for a source namespace with the given labels: a rule whose
  \<^verbatim>\<open>from\<close> is empty matches every source, otherwise some peer must select the namespace.
\<close>

definition ruleAdmitsNamespace :: "NetworkPolicyIngressRule \<Rightarrow> labels \<Rightarrow> bool" where
  "ruleAdmitsNamespace rule ls = (nprFrom rule = [] \<or>
     list_ex (\<lambda>p. case peerNamespaceSelector p of None \<Rightarrow> False | Some sel \<Rightarrow> lsMatchLabels sel \<subseteq>\<^sub>m ls) (nprFrom rule))"

lemma peer_admits [simp]:
  "(case peerNamespaceSelector (namespacePeer t) of None \<Rightarrow> False | Some sel \<Rightarrow> lsMatchLabels sel \<subseteq>\<^sub>m ls)
     = (ls LabelMetadataName = Some t)"
  "peerNamespaceSelector (cidrPeer c) = None"
  by (auto simp: namespacePeer_def cidrPeer_def matchLabels_def map_le_def)


subsection \<open>Configuration hash\<close>

definition isHex :: "char \<Rightarrow> bool" where
  "isHex c = (c \<in> set ''0123456789abcdef'')"

lemma isHex_hex_digit: "n < 16 \<Longrightarrow> isHex (hex_digit n)"
proof -
  have "list_all (\<lambda>k. isHex (hex_digit k)) [0..<16]"
    by code_simp
  then show "n < 16 \<Longrightarrow> isHex (hex_digit n)" by (simp add: list_all_iff)
qed


end
