(* ===== verification/Client.thy ===== *)
theory Client
  imports Resources
begin

text \<open>
  The boundary between the operator and code outside the repository. The API server behind
  controller-runtime's \<^verbatim>\<open>client.Client\<close>, the event recorder and the helper functions of apimachinery and
  controller-runtime are parameters: fields of the record \<open>deps\<close>, which the reconciler record extends.
  A program of the operator is a function on runs. A run is the outside world, of an arbitrary type,
  and the trace of every call made so far with its reply, newest first; an error return of the Go code
  is an \<open>Inl\<close> value. The world may change arbitrarily at every call, so what is proved of traces holds
  under any interference of other actors.
\<close>

subsection \<open>Objects, calls and replies\<close>

datatype kind = KSharedVolume | KNamespace | KNode | KPVC | KPV | KConfigMap | KDeployment | KService
  | KJob | KCronJob | KNetworkPolicy

datatype obj = OSharedVolume SharedVolume | ONamespace Namespace | ONode Node
  | OPVC PersistentVolumeClaim | OPV PersistentVolume | OConfigMap ConfigMap | ODeployment Deployment
  | OService Service | OJob Job | OCronJob CronJob | ONetworkPolicy NetworkPolicy

fun objKind :: "obj \<Rightarrow> kind" where
  "objKind (OSharedVolume _) = KSharedVolume"
| "objKind (ONamespace _) = KNamespace"
| "objKind (ONode _) = KNode"
| "objKind (OPVC _) = KPVC"
| "objKind (OPV _) = KPV"
| "objKind (OConfigMap _) = KConfigMap"
| "objKind (ODeployment _) = KDeployment"
| "objKind (OService _) = KService"
| "objKind (OJob _) = KJob"
| "objKind (OCronJob _) = KCronJob"
| "objKind (ONetworkPolicy _) = KNetworkPolicy"

fun objMeta :: "obj \<Rightarrow> ObjectMeta" where
  "objMeta (OSharedVolume x) = svMeta x"
| "objMeta (ONamespace x) = nsMeta x"
| "objMeta (ONode x) = nodeMeta x"
| "objMeta (OPVC x) = pvcMeta x"
| "objMeta (OPV x) = pvMeta x"
| "objMeta (OConfigMap x) = cmMeta x"
| "objMeta (ODeployment x) = depMeta x"
| "objMeta (OService x) = svcMeta x"
| "objMeta (OJob x) = jobMeta x"
| "objMeta (OCronJob x) = cjMeta x"
| "objMeta (ONetworkPolicy x) = npMeta x"

fun setMeta :: "obj \<Rightarrow> ObjectMeta \<Rightarrow> obj" where
  "setMeta (OSharedVolume x) m = OSharedVolume (x\<lparr>svMeta := m\<rparr>)"
| "setMeta (ONamespace x) m = ONamespace (x\<lparr>nsMeta := m\<rparr>)"
| "setMeta (ONode x) m = ONode (x\<lparr>nodeMeta := m\<rparr>)"
| "setMeta (OPVC x) m = OPVC (x\<lparr>pvcMeta := m\<rparr>)"
| "setMeta (OPV x) m = OPV (x\<lparr>pvMeta := m\<rparr>)"
| "setMeta (OConfigMap x) m = OConfigMap (x\<lparr>cmMeta := m\<rparr>)"
| "setMeta (ODeployment x) m = ODeployment (x\<lparr>depMeta := m\<rparr>)"
| "setMeta (OService x) m = OService (x\<lparr>svcMeta := m\<rparr>)"
| "setMeta (OJob x) m = OJob (x\<lparr>jobMeta := m\<rparr>)"
| "setMeta (OCronJob x) m = OCronJob (x\<lparr>cjMeta := m\<rparr>)"
| "setMeta (ONetworkPolicy x) m = ONetworkPolicy (x\<lparr>npMeta := m\<rparr>)"

definition ObjectKeyFromObject :: "obj \<Rightarrow> NamespacedName" where
  "ObjectKeyFromObject x = (omNamespace (objMeta x), omName (objMeta x))"

lemma setMeta_simps [simp]: "objMeta (setMeta x m) = m" "objKind (setMeta x m) = objKind x"
  by (cases x; simp)+

text \<open>The reason of an API status error, as \<^verbatim>\<open>apierrors\<close> classifies it.\<close>

datatype reason = NotFound | AlreadyExists | Conflict | OtherReason string

datatype list_option = ListAll | MatchingLabels string string | MatchingLabelsSelector Selector

datatype propagation = DefaultPropagation | PropagationBackground

record Event =
  evRegarding :: string
  evType :: string
  evReason :: string
  evAction :: string
  evNote :: string

datatype call = Get kind NamespacedName | ListObjects kind list_option | Create obj | Update obj
  | StatusUpdate obj | Delete kind NamespacedName propagation | Eventf Event

datatype reply = Failed reason | Returned obj | Items "obj list" | Accepted

datatype error = ApiError reason | DecodeError | OwnerError string | SelectorError string | Panic panic

definition IsNotFound :: "error \<Rightarrow> bool" where "IsNotFound e = (e = ApiError NotFound)"
definition IsAlreadyExists :: "error \<Rightarrow> bool" where "IsAlreadyExists e = (e = ApiError AlreadyExists)"
definition IsConflict :: "error \<Rightarrow> bool" where "IsConflict e = (e = ApiError Conflict)"

lemma IsNotFound_simps [simp]:
  "IsNotFound (ApiError x) = (x = NotFound)" "\<not> IsNotFound DecodeError"
  "\<not> IsNotFound (OwnerError m)" "\<not> IsNotFound (SelectorError m)" "\<not> IsNotFound (Panic p)"
  by (simp_all add: IsNotFound_def)

lemma IsAlreadyExists_simps [simp]:
  "IsAlreadyExists (ApiError x) = (x = AlreadyExists)" "\<not> IsAlreadyExists DecodeError"
  "\<not> IsAlreadyExists (OwnerError m)" "\<not> IsAlreadyExists (SelectorError m)"
  "\<not> IsAlreadyExists (Panic p)"
  by (simp_all add: IsAlreadyExists_def)

lemma IsConflict_simps [simp]:
  "IsConflict (ApiError x) = (x = Conflict)" "\<not> IsConflict DecodeError"
  "\<not> IsConflict (OwnerError m)" "\<not> IsConflict (SelectorError m)" "\<not> IsConflict (Panic p)"
  by (simp_all add: IsConflict_def)

subsection \<open>The reconciler and its dependencies\<close>

record 'w deps =
  client :: "'w \<Rightarrow> call \<Rightarrow> reply \<times> 'w"
  recorder :: "'w \<Rightarrow> Event \<Rightarrow> 'w"
  setControllerReference :: "SharedVolume \<Rightarrow> ObjectMeta \<Rightarrow> string + ObjectMeta"
  addFinalizer :: "string list \<Rightarrow> string \<Rightarrow> bool \<times> string list"
  containsFinalizer :: "string list \<Rightarrow> string \<Rightarrow> bool"
  removeFinalizer :: "string list \<Rightarrow> string \<Rightarrow> string list"
  setStatusCondition :: "'w \<Rightarrow> Condition list \<Rightarrow> Condition \<Rightarrow> bool \<times> Condition list"
  isStatusConditionTrue :: "Condition list \<Rightarrow> string \<Rightarrow> bool"
  labelSelectorAsSelector :: "LabelSelector \<Rightarrow> string + Selector"
  semanticDeepEqual :: "NetworkPolicySpec \<Rightarrow> NetworkPolicySpec \<Rightarrow> bool"

record 'w SharedVolumeReconciler = "'w deps" +
  OperatorNamespace :: string
  GaneshaImage :: string
  BackupImage :: string
  AllowCIDRs :: "string list"

subsection \<open>Runs and programs\<close>

record 'w run =
  world :: 'w
  trace :: "(call \<times> reply) list"

type_synonym history = "(call \<times> reply) list"
type_synonym ('w, 'a) prog = "'w run \<Rightarrow> (error + 'a) \<times> 'w run"

definition after :: "'w run \<Rightarrow> call \<Rightarrow> reply \<Rightarrow> 'w \<Rightarrow> 'w run" where
  "after s c rep w = s\<lparr>world := w, trace := (c, rep) # trace s\<rparr>"

lemma after_simps [simp]: "trace (after s c rep w) = (c, rep) # trace s" "world (after s c rep w) = w"
  by (simp_all add: after_def)

definition returnE :: "'a \<Rightarrow> ('w, 'a) prog" where
  "returnE x s = (Inr x, s)"

definition throwE :: "error \<Rightarrow> ('w, 'a) prog" where
  "throwE e s = (Inl e, s)"

text \<open>\<^verbatim>\<open>x, err := m; if err != nil { return err }; f(x)\<close>\<close>

definition bindE :: "('w, 'a) prog \<Rightarrow> ('a \<Rightarrow> ('w, 'b) prog) \<Rightarrow> ('w, 'b) prog" where
  "bindE m f s = (case m s of (Inl e, s') \<Rightarrow> (Inl e, s') | (Inr x, s') \<Rightarrow> f x s')"

text \<open>\<^verbatim>\<open>switch x, err := m; { case err handled: h(err); default: f(x) }\<close>: the general error switch.\<close>

definition switchE ::
  "('w, 'a) prog \<Rightarrow> (error \<Rightarrow> ('w, 'b) prog) \<Rightarrow> ('a \<Rightarrow> ('w, 'b) prog) \<Rightarrow> ('w, 'b) prog" where
  "switchE m h f s = (case m s of (Inl e, s') \<Rightarrow> h e s' | (Inr x, s') \<Rightarrow> f x s')"

text \<open>\<^verbatim>\<open>switch err := r.Get(...); { case IsNotFound(err): a; case err != nil: return err; default: f }\<close>\<close>

definition switchGet ::
  "('w, 'a) prog \<Rightarrow> ('w, 'b) prog \<Rightarrow> ('a \<Rightarrow> ('w, 'b) prog) \<Rightarrow> ('w, 'b) prog" where
  "switchGet m a f = switchE m (\<lambda>e. if IsNotFound e then a else throwE e) f"

text \<open>\<^verbatim>\<open>if err := m; err != nil && !p(err) { return err }\<close>\<close>

definition ignoring :: "(error \<Rightarrow> bool) \<Rightarrow> ('w, unit) prog \<Rightarrow> ('w, unit) prog" where
  "ignoring p m = switchE m (\<lambda>e. if p e then returnE () else throwE e) returnE"

definition liftPanic :: "panic + 'a \<Rightarrow> ('w, 'a) prog" where
  "liftPanic x = (case x of Inl p \<Rightarrow> throwE (Panic p) | Inr y \<Rightarrow> returnE y)"

definition readWorld :: "('w, 'w) prog" where
  "readWorld s = (Inr (world s), s)"

subsection \<open>Client operations\<close>

definition invoke :: "('w, 'b) SharedVolumeReconciler_scheme \<Rightarrow> call \<Rightarrow> ('w, reply) prog" where
  "invoke r c s = (case client r (world s) c of (rep, w) \<Rightarrow> (Inr rep, after s c rep w))"

text \<open>A reply of the wrong shape cannot be decoded into the typed object the caller passed.\<close>

fun returnedObject :: "reply \<Rightarrow> ('w, obj) prog" where
  "returnedObject (Failed e) = throwE (ApiError e)"
| "returnedObject (Returned x) = returnE x"
| "returnedObject _ = throwE DecodeError"

definition getObject ::
  "('w, 'b) SharedVolumeReconciler_scheme \<Rightarrow> kind \<Rightarrow> (obj \<Rightarrow> 'a option) \<Rightarrow> NamespacedName \<Rightarrow> ('w, 'a) prog" where
  "getObject r k as key = bindE (invoke r (Get k key)) (\<lambda>rep. bindE (returnedObject rep)
     (\<lambda>x. case as x of None \<Rightarrow> throwE DecodeError | Some y \<Rightarrow> returnE y))"

definition writeObject ::
  "('w, 'b) SharedVolumeReconciler_scheme \<Rightarrow> call \<Rightarrow> (obj \<Rightarrow> 'a option) \<Rightarrow> ('w, 'a) prog" where
  "writeObject r c as = bindE (invoke r c) (\<lambda>rep. bindE (returnedObject rep)
     (\<lambda>x. case as x of None \<Rightarrow> throwE DecodeError | Some y \<Rightarrow> returnE y))"

definition listObjects ::
  "('w, 'b) SharedVolumeReconciler_scheme \<Rightarrow> kind \<Rightarrow> (obj \<Rightarrow> 'a option) \<Rightarrow> list_option \<Rightarrow> ('w, 'a list) prog" where
  "listObjects r k as opt = bindE (invoke r (ListObjects k opt)) (\<lambda>rep. case rep of
       Failed e \<Rightarrow> throwE (ApiError e)
     | Items xs \<Rightarrow> (case those (map as xs) of None \<Rightarrow> throwE DecodeError | Some ys \<Rightarrow> returnE ys)
     | _ \<Rightarrow> throwE DecodeError)"

definition deleteObject ::
  "('w, 'b) SharedVolumeReconciler_scheme \<Rightarrow> kind \<Rightarrow> NamespacedName \<Rightarrow> propagation \<Rightarrow> ('w, unit) prog" where
  "deleteObject r k key p = bindE (invoke r (Delete k key p))
     (\<lambda>rep. case rep of Failed e \<Rightarrow> throwE (ApiError e) | _ \<Rightarrow> returnE ())"

definition eventf :: "('w, 'b) SharedVolumeReconciler_scheme \<Rightarrow> Event \<Rightarrow> ('w, unit) prog" where
  "eventf r ev s = (Inr (), after s (Eventf ev) Accepted (recorder r (world s) ev))"

fun asSharedVolume :: "obj \<Rightarrow> SharedVolume option" where
  "asSharedVolume (OSharedVolume x) = Some x" | "asSharedVolume _ = None"
fun asNamespace :: "obj \<Rightarrow> Namespace option" where
  "asNamespace (ONamespace x) = Some x" | "asNamespace _ = None"
fun asNode :: "obj \<Rightarrow> Node option" where
  "asNode (ONode x) = Some x" | "asNode _ = None"
fun asPVC :: "obj \<Rightarrow> PersistentVolumeClaim option" where
  "asPVC (OPVC x) = Some x" | "asPVC _ = None"
fun asPV :: "obj \<Rightarrow> PersistentVolume option" where
  "asPV (OPV x) = Some x" | "asPV _ = None"
fun asConfigMap :: "obj \<Rightarrow> ConfigMap option" where
  "asConfigMap (OConfigMap x) = Some x" | "asConfigMap _ = None"
fun asDeployment :: "obj \<Rightarrow> Deployment option" where
  "asDeployment (ODeployment x) = Some x" | "asDeployment _ = None"
fun asService :: "obj \<Rightarrow> Service option" where
  "asService (OService x) = Some x" | "asService _ = None"
fun asJob :: "obj \<Rightarrow> Job option" where
  "asJob (OJob x) = Some x" | "asJob _ = None"
fun asCronJob :: "obj \<Rightarrow> CronJob option" where
  "asCronJob (OCronJob x) = Some x" | "asCronJob _ = None"
fun asNetworkPolicy :: "obj \<Rightarrow> NetworkPolicy option" where
  "asNetworkPolicy (ONetworkPolicy x) = Some x" | "asNetworkPolicy _ = None"

lemma as_Some [simp]:
  "asSharedVolume x = Some a \<longleftrightarrow> x = OSharedVolume a" "asNamespace x = Some b \<longleftrightarrow> x = ONamespace b"
  "asNode x = Some c \<longleftrightarrow> x = ONode c" "asPVC x = Some d \<longleftrightarrow> x = OPVC d"
  "asPV x = Some e \<longleftrightarrow> x = OPV e" "asConfigMap x = Some f \<longleftrightarrow> x = OConfigMap f"
  "asDeployment x = Some g \<longleftrightarrow> x = ODeployment g" "asService x = Some h \<longleftrightarrow> x = OService h"
  "asJob x = Some i \<longleftrightarrow> x = OJob i" "asCronJob x = Some j \<longleftrightarrow> x = OCronJob j"
  "asNetworkPolicy x = Some k \<longleftrightarrow> x = ONetworkPolicy k"
  by (cases x; simp)+

text \<open>
  \<^verbatim>\<open>createOwned\<close>: the object is created with the SharedVolume as its controller owner; an object that
  already exists is not an error, and then the caller's object keeps the values it was built with.
  \<^verbatim>\<open>Create\<close> otherwise overwrites the caller's object with the server's reply, so the result is the object
  as the caller sees it afterwards.
\<close>

definition createOwned ::
  "('w, 'b) SharedVolumeReconciler_scheme \<Rightarrow> SharedVolume \<Rightarrow> obj \<Rightarrow> (obj \<Rightarrow> 'a option) \<Rightarrow> ('w, 'a) prog" where
  "createOwned r sv x as =
     (case setControllerReference r sv (objMeta x) of
        Inl m \<Rightarrow> throwE (OwnerError m)
      | Inr m \<Rightarrow> switchE (writeObject r (Create (setMeta x m)) as)
          (\<lambda>e. if IsAlreadyExists e
               then (case as (setMeta x m) of None \<Rightarrow> throwE DecodeError | Some y \<Rightarrow> returnE y)
               else throwE e)
          returnE)"

definition createIfMissing ::
  "('w, 'b) SharedVolumeReconciler_scheme \<Rightarrow> SharedVolume \<Rightarrow> obj \<Rightarrow> (obj \<Rightarrow> 'a option) \<Rightarrow> ('w, unit) prog" where
  "createIfMissing r sv x as =
     switchGet (getObject r (objKind x) as (ObjectKeyFromObject x))
       (bindE (createOwned r sv x as) (\<lambda>_. returnE ()))
       (\<lambda>_. returnE ())"

subsection \<open>Status conditions\<close>

text \<open>
  What the operator relies on of \<^verbatim>\<open>meta.SetStatusCondition\<close> and \<^verbatim>\<open>meta.IsStatusConditionTrue\<close>: setting a
  condition determines its own type's status and leaves every other type's alone.
\<close>

locale condition_api =
  fixes r :: "('w, 'b) SharedVolumeReconciler_scheme"
  assumes set_same: "isStatusConditionTrue r (snd (setStatusCondition r w cs c)) (cType c) = (cStatus c = ConditionTrue)"
    and set_other: "t \<noteq> cType c \<Longrightarrow>
      isStatusConditionTrue r (snd (setStatusCondition r w cs c)) t = isStatusConditionTrue r cs t"
begin

lemma set_lookup:
  "isStatusConditionTrue r (snd (setStatusCondition r w cs c)) t =
     (if t = cType c then cStatus c = ConditionTrue else isStatusConditionTrue r cs t)"
  by (simp add: set_same set_other)

end

end
