(* ===== verification/Traces.thy ===== *)
theory Traces
  imports Client
begin

text \<open>
  Reasoning about programs of the operator. \<open>wp m Q E s\<close> says that \<open>m\<close>, run from \<open>s\<close>, ends with a value
  and a run satisfying \<open>Q\<close>, or with an error and a run satisfying \<open>E\<close>. The equations in \<open>wp_simps\<close> take
  a program apart; the rules \<open>wp_calls\<close> cover every reply the outside world may give to a call.
  \<open>obeys pol h\<close> says that every call of a history satisfied the policy \<open>pol\<close> when it was issued: the
  policy sees the history before the call.
\<close>

named_theorems wp_simps \<open>taking programs apart\<close>
named_theorems wp_calls \<open>every reply to a call\<close>

definition wp :: "('w, 'a) prog \<Rightarrow> ('a \<Rightarrow> 'w run \<Rightarrow> bool) \<Rightarrow> (error \<Rightarrow> 'w run \<Rightarrow> bool) \<Rightarrow> 'w run \<Rightarrow> bool" where
  "wp m Q E s = (case m s of (Inr x, s') \<Rightarrow> Q x s' | (Inl e, s') \<Rightarrow> E e s')"

lemma wp_return [wp_simps]: "wp (returnE x) Q E s = Q x s"
  by (simp add: wp_def returnE_def)

lemma wp_throw [wp_simps]: "wp (throwE e) Q E s = E e s"
  by (simp add: wp_def throwE_def)

lemma wp_bind [wp_simps]: "wp (bindE m f) Q E s = wp m (\<lambda>x. wp (f x) Q E) E s"
  by (simp add: wp_def bindE_def split: prod.splits sum.splits)

lemma wp_switchE [wp_simps]: "wp (switchE m h f) Q E s = wp m (\<lambda>x. wp (f x) Q E) (\<lambda>e. wp (h e) Q E) s"
  by (simp add: wp_def switchE_def split: prod.splits sum.splits)

lemma wp_if [wp_simps]: "wp (if b then m else n) Q E s = (if b then wp m Q E s else wp n Q E s)"
  by simp

lemma wp_case_option [wp_simps]:
  "wp (case x of None \<Rightarrow> m | Some y \<Rightarrow> f y) Q E s = (case x of None \<Rightarrow> wp m Q E s | Some y \<Rightarrow> wp (f y) Q E s)"
  by (simp split: option.splits)

lemma wp_case_sum [wp_simps]:
  "wp (case x of Inl a \<Rightarrow> f a | Inr b \<Rightarrow> g b) Q E s = (case x of Inl a \<Rightarrow> wp (f a) Q E s | Inr b \<Rightarrow> wp (g b) Q E s)"
  by (simp split: sum.splits)

lemma wp_case_prod [wp_simps]:
  "wp (case x of (a, b) \<Rightarrow> f a b) Q E s = (case x of (a, b) \<Rightarrow> wp (f a b) Q E s)"
  by (simp split: prod.splits)

lemma wp_Let [wp_simps]: "wp (Let x f) Q E s = (let y = x in wp (f y) Q E s)"
  by (simp add: Let_def)

lemma wp_switchGet [wp_simps]:
  "wp (switchGet m a f) Q E s =
     wp m (\<lambda>x. wp (f x) Q E) (\<lambda>e s'. if IsNotFound e then wp a Q E s' else E e s') s"
  by (simp add: switchGet_def wp_def switchE_def throwE_def split: prod.splits sum.splits)

lemma wp_ignoring [wp_simps]:
  "wp (ignoring p m) Q E s = wp m Q (\<lambda>e s'. if p e then Q () s' else E e s') s"
  by (simp add: ignoring_def wp_def switchE_def throwE_def returnE_def split: prod.splits sum.splits)

lemma wp_liftPanic [wp_simps]:
  "wp (liftPanic x) Q E s = (case x of Inl p \<Rightarrow> E (Panic p) s | Inr y \<Rightarrow> Q y s)"
  by (simp add: liftPanic_def wp_simps split: sum.splits)

lemma wp_readWorld [wp_simps]: "wp readWorld Q E s = Q (world s) s"
  by (simp add: wp_def readWorld_def)

lemma wp_eventf [wp_simps]:
  "wp (eventf r ev) Q E s = Q () (after s (Eventf ev) Accepted (recorder r (world s) ev))"
  by (simp add: wp_def eventf_def)

lemma wp_mono:
  assumes "wp m Q E s" "\<And>x s'. Q x s' \<Longrightarrow> Q' x s'" "\<And>e s'. E e s' \<Longrightarrow> E' e s'"
  shows "wp m Q' E' s"
  using assms by (auto simp: wp_def split: prod.splits sum.splits)

lemma wp_result: "wp m Q E s \<Longrightarrow> m s = (Inr x, s') \<Longrightarrow> Q x s'"
  by (simp add: wp_def)

lemma wp_invariant: "wp m (\<lambda>_. I) (\<lambda>_. I) s \<Longrightarrow> I (snd (m s))"
  by (simp add: wp_def split: prod.splits sum.splits)

lemma wp_seq:
  assumes "wp m P E s" "\<And>x s'. P x s' \<Longrightarrow> wp (f x) Q E s'"
  shows "wp (bindE m f) Q E s"
  unfolding wp_bind using assms by (rule wp_mono)

subsection \<open>Calls\<close>

lemma wp_invoke:
  "wp (invoke r c) Q E s = (case client r (world s) c of (rep, w) \<Rightarrow> Q rep (after s c rep w))"
  by (simp add: wp_def invoke_def split: prod.splits)

lemma wp_returnedObject:
  "wp (returnedObject rep) Q E s =
     (case rep of Failed e \<Rightarrow> E (ApiError e) s | Returned x \<Rightarrow> Q x s | _ \<Rightarrow> E DecodeError s)"
  by (cases rep) (simp_all add: wp_simps)

lemma wp_writeObject [wp_calls]:
  assumes "\<And>x y w. as x = Some y \<Longrightarrow> client r (world s) c = (Returned x, w) \<Longrightarrow>
      Q y (after s c (Returned x) w)"
    and "\<And>e w. client r (world s) c = (Failed e, w) \<Longrightarrow> E (ApiError e) (after s c (Failed e) w)"
    and "\<And>rep w. client r (world s) c = (rep, w) \<Longrightarrow> E DecodeError (after s c rep w)"
  shows "wp (writeObject r c as) Q E s"
  using assms
  by (auto simp: writeObject_def wp_simps wp_invoke wp_returnedObject split: prod.splits reply.splits option.splits)

lemma wp_getObject [wp_calls]:
  assumes "\<And>x y w. as x = Some y \<Longrightarrow> client r (world s) (Get k key) = (Returned x, w) \<Longrightarrow>
      Q y (after s (Get k key) (Returned x) w)"
    and "\<And>e w. client r (world s) (Get k key) = (Failed e, w) \<Longrightarrow>
      E (ApiError e) (after s (Get k key) (Failed e) w)"
    and "\<And>rep w. client r (world s) (Get k key) = (rep, w) \<Longrightarrow> E DecodeError (after s (Get k key) rep w)"
  shows "wp (getObject r k as key) Q E s"
proof -
  have "getObject r k as key = writeObject r (Get k key) as"
    by (simp add: getObject_def writeObject_def)
  then show ?thesis using assms by (simp add: wp_writeObject)
qed

lemma wp_listObjects [wp_calls]:
  assumes "\<And>xs ys w. those (map as xs) = Some ys \<Longrightarrow>
      client r (world s) (ListObjects k opt) = (Items xs, w) \<Longrightarrow>
      Q ys (after s (ListObjects k opt) (Items xs) w)"
    and "\<And>e w. client r (world s) (ListObjects k opt) = (Failed e, w) \<Longrightarrow>
      E (ApiError e) (after s (ListObjects k opt) (Failed e) w)"
    and "\<And>rep w. client r (world s) (ListObjects k opt) = (rep, w) \<Longrightarrow>
      E DecodeError (after s (ListObjects k opt) rep w)"
  shows "wp (listObjects r k as opt) Q E s"
  using assms
  by (auto simp: listObjects_def wp_simps wp_invoke split: prod.splits reply.splits option.splits)

lemma wp_deleteObject [wp_calls]:
  assumes "\<And>rep w. client r (world s) (Delete k key p) = (rep, w) \<Longrightarrow> (\<And>e. rep \<noteq> Failed e) \<Longrightarrow>
      Q () (after s (Delete k key p) rep w)"
    and "\<And>e w. client r (world s) (Delete k key p) = (Failed e, w) \<Longrightarrow>
      E (ApiError e) (after s (Delete k key p) (Failed e) w)"
  shows "wp (deleteObject r k key p) Q E s"
  using assms
  by (auto simp: deleteObject_def wp_simps wp_invoke split: prod.splits reply.splits)

subsection \<open>Policies on histories\<close>

fun obeys :: "(history \<Rightarrow> call \<Rightarrow> bool) \<Rightarrow> history \<Rightarrow> bool" where
  "obeys pol [] = True"
| "obeys pol ((c, rep) # h) = (pol h c \<and> obeys pol h)"

lemma obeys_mono:
  assumes "\<And>h c. pol h c \<Longrightarrow> pol' h c" "obeys pol h"
  shows "obeys pol' h"
  using assms(2) by (induction h) (auto intro: assms(1))

text \<open>An invariant of a run that a program keeps on every exit.\<close>

definition keeps :: "('w run \<Rightarrow> bool) \<Rightarrow> ('w, 'a) prog \<Rightarrow> bool" where
  "keeps I m = (\<forall>s. I s \<longrightarrow> wp m (\<lambda>_. I) (\<lambda>_. I) s)"

lemma keepsI: "(\<And>s. I s \<Longrightarrow> wp m (\<lambda>_. I) (\<lambda>_. I) s) \<Longrightarrow> keeps I m"
  by (simp add: keeps_def)

lemma keeps_run: "keeps I m \<Longrightarrow> I s \<Longrightarrow> I (snd (m s))"
  by (cases "m s") (auto simp: keeps_def wp_def split: prod.splits sum.splits)

lemma wp_keeps:
  assumes "keeps I m" "I s" "\<And>x s'. I s' \<Longrightarrow> Q x s'" "\<And>e s'. I s' \<Longrightarrow> E e s'"
  shows "wp m Q E s"
  using assms wp_mono [of m "\<lambda>_. I" "\<lambda>_. I" s Q E] by (simp add: keeps_def)

subsection \<open>Which calls a program may issue\<close>

text \<open>The program only extends the trace, and every call it adds satisfies \<open>P\<close>.\<close>

definition emits :: "(call \<Rightarrow> bool) \<Rightarrow> ('w, 'a) prog \<Rightarrow> bool" where
  "emits P m = (\<forall>s. \<exists>h. trace (snd (m s)) = h @ trace s \<and> (\<forall>(c, rep) \<in> set h. P c))"

lemma emitsI: "(\<And>s. \<exists>h. trace (snd (m s)) = h @ trace s \<and> (\<forall>(c, rep) \<in> set h. P c)) \<Longrightarrow> emits P m"
  by (simp add: emits_def)

lemma emits_calls: "emits P m \<Longrightarrow> trace s = [] \<Longrightarrow> (c, rep) \<in> set (trace (snd (m s))) \<Longrightarrow> P c"
  unfolding emits_def by (metis append_Nil2 case_prodD)

lemma emits_still [emits_rules]: "emits P (returnE x)" "emits P (throwE e)" "emits P (liftPanic y)"
    "emits P readWorld"
  by (auto simp: emits_def returnE_def throwE_def liftPanic_def readWorld_def split: sum.splits)

lemma emits_switchE [emits_rules]:
  assumes "emits P m" "\<And>e. emits P (h e)" "\<And>x. emits P (f x)"
  shows "emits P (switchE m h f)"
proof (rule emitsI)
  fix s
  obtain h1 where h1: "trace (snd (m s)) = h1 @ trace s" "\<forall>(c, rep) \<in> set h1. P c"
    using assms(1) by (auto simp: emits_def)
  let ?k = "\<lambda>v. case v of Inl e \<Rightarrow> h e | Inr x \<Rightarrow> f x"
  have "switchE m h f s = ?k (fst (m s)) (snd (m s))"
    by (simp add: switchE_def split: prod.splits sum.splits)
  moreover have "emits P (?k v)" for v using assms(2,3) by (simp split: sum.splits)
  then obtain h2 where "trace (snd (?k (fst (m s)) (snd (m s)))) = h2 @ trace (snd (m s))"
      "\<forall>(c, rep) \<in> set h2. P c"
    unfolding emits_def by blast
  ultimately show "\<exists>h'. trace (snd (switchE m h f s)) = h' @ trace s \<and> (\<forall>(c, rep) \<in> set h'. P c)"
    using h1 by (intro exI [of _ "h2 @ h1"]) auto
qed

lemma bindE_switchE: "bindE m f = switchE m throwE f"
  by (intro ext) (simp add: bindE_def switchE_def throwE_def split: prod.splits sum.splits)

lemma emits_bindE [emits_rules]: "emits P m \<Longrightarrow> (\<And>x. emits P (f x)) \<Longrightarrow> emits P (bindE m f)"
  by (simp add: bindE_switchE emits_switchE emits_still)

lemma emits_switchGet [emits_rules]:
  "emits P m \<Longrightarrow> emits P a \<Longrightarrow> (\<And>x. emits P (f x)) \<Longrightarrow> emits P (switchGet m a f)"
  by (simp add: switchGet_def emits_switchE emits_still)

lemma emits_ignoring [emits_rules]: "emits P m \<Longrightarrow> emits P (ignoring p m)"
  by (auto simp: ignoring_def intro!: emits_switchE emits_still)

lemma emits_invoke: "P c \<Longrightarrow> emits P (invoke r c)"
  by (auto simp: emits_def invoke_def split: prod.splits)

lemma emits_returnedObject: "emits P (returnedObject rep)"
  by (cases rep) (simp_all add: emits_still)

lemma emits_api [emits_rules]:
  "P (Get k key) \<Longrightarrow> emits P (getObject r k as key)"
  "P c \<Longrightarrow> emits P (writeObject r c as)"
  "P (ListObjects k opt) \<Longrightarrow> emits P (listObjects r k as opt)"
  "P (Delete k key p) \<Longrightarrow> emits P (deleteObject r k key p)"
  unfolding getObject_def writeObject_def listObjects_def deleteObject_def
  by (auto intro!: emits_bindE emits_invoke emits_returnedObject emits_still split: option.splits reply.splits)

lemma emits_eventf [emits_rules]: "P (Eventf ev) \<Longrightarrow> emits P (eventf r ev)"
  by (auto simp: emits_def eventf_def)

lemma emits_if [emits_rules]:
  "(b \<Longrightarrow> emits P m) \<Longrightarrow> (\<not> b \<Longrightarrow> emits P n) \<Longrightarrow> emits P (if b then m else n)"
  by simp

lemma emits_case_option [emits_rules]:
  "(x = None \<Longrightarrow> emits P m) \<Longrightarrow> (\<And>y. x = Some y \<Longrightarrow> emits P (f y)) \<Longrightarrow>
   emits P (case x of None \<Rightarrow> m | Some y \<Rightarrow> f y)"
  by (simp split: option.splits)

lemma emits_case_sum [emits_rules]:
  "(\<And>a. x = Inl a \<Longrightarrow> emits P (f a)) \<Longrightarrow> (\<And>b. x = Inr b \<Longrightarrow> emits P (g b)) \<Longrightarrow>
   emits P (case x of Inl a \<Rightarrow> f a | Inr b \<Rightarrow> g b)"
  by (simp split: sum.splits)

lemma emits_case_prod [emits_rules]:
  "(\<And>a b. x = (a, b) \<Longrightarrow> emits P (f a b)) \<Longrightarrow> emits P (case x of (a, b) \<Rightarrow> f a b)"
  by (simp split: prod.splits)

lemma emits_Let [emits_rules]: "emits P (f x) \<Longrightarrow> emits P (let y = x in f y)"
  by simp

lemma emits_createOwned [emits_rules]:
  assumes "\<And>m. setControllerReference r sv (objMeta x) = Inr m \<Longrightarrow> P (Create (setMeta x m))"
  shows "emits P (createOwned r sv x as)"
  unfolding createOwned_def using assms by (intro emits_rules) auto

lemma emits_createIfMissing [emits_rules]:
  assumes "\<And>m. P (Create (setMeta x m))" "P (Get (objKind x) (ObjectKeyFromObject x))"
  shows "emits P (createIfMissing r sv x as)"
  unfolding createIfMissing_def using assms by (intro emits_rules) auto

end
