(* ===== verification/Server.thy ===== *)
theory Server
  imports Traces
begin

text \<open>
  \<^verbatim>\<open>reconcileServer\<close> and \<^verbatim>\<open>reconcileSeed\<close> of \<^verbatim>\<open>internal/controller/sharedvolume_controller.go\<close>: the
  backing PVC, the ganesha ConfigMap, the seed-from-backup gate, the server Deployment and the Service.
  The Go code mutates the SharedVolume it was passed (its conditions); the model returns it.
\<close>

definition setRestoredCondition ::
  "('w, 'b) SharedVolumeReconciler_scheme \<Rightarrow> 'w \<Rightarrow> SharedVolume \<Rightarrow> ConditionStatus \<Rightarrow> string \<Rightarrow> string
   \<Rightarrow> bool \<times> SharedVolume" where
  "setRestoredCondition r w sv status rsn msg =
     (case setStatusCondition r w (svConditions sv)
        \<lparr>cType = ConditionRestored, cStatus = status, cObservedGeneration = svGeneration sv,
         cLastTransitionTime = 0, cReason = rsn, cMessage = msg\<rparr> of
        (changed, cs) \<Rightarrow> (changed, sv\<lparr>svStatus := (svStatus sv)\<lparr>stConditions := cs\<rparr>\<rparr>))"

fun jobHasCondition :: "JobCondition list \<Rightarrow> JobConditionType \<Rightarrow> bool" where
  "jobHasCondition [] t = False"
| "jobHasCondition (c # cs) t = (if jcType c = t \<and> jcStatus c = ConditionTrue then True
     else jobHasCondition cs t)"

definition seedFailedEvent :: "SharedVolume \<Rightarrow> Job \<Rightarrow> Event" where
  "seedFailedEvent sv job = \<lparr>evRegarding = svName sv, evType = ''Warning'', evReason = ''SeedFailed'',
     evAction = ''Reconcile'',
     evNote = ''seed job '' @ omNamespace (jobMeta job) @ ''/'' @ omName (jobMeta job)
       @ '' failed; the server will not start until the job is deleted and succeeds''\<rparr>"

definition reconcileSeed ::
  "('w, 'b) SharedVolumeReconciler_scheme \<Rightarrow> SharedVolume \<Rightarrow> ('w, bool \<times> SharedVolume) prog" where
  "reconcileSeed r sv =
     (if (case svBackup sv of None \<Rightarrow> True | Some b \<Rightarrow> bsRestorePolicy b = RestoreNever)
      then returnE (True, sv)
      else if isStatusConditionTrue r (svConditions sv) ConditionRestored then returnE (True, sv)
      else switchE (getObject r KDeployment asDeployment (OperatorNamespace r, ServerName sv))
        (\<lambda>e. if \<not> IsNotFound e then throwE e
             else bindE (liftPanic (BuildSeedJob sv (OperatorNamespace r) (BackupImage r))) (\<lambda>job.
               switchGet (getObject r KJob asJob (ObjectKeyFromObject (OJob job)))
                 (bindE (createOwned r sv (OJob job) asJob) (\<lambda>_.
                  bindE readWorld (\<lambda>w.
                  returnE (False, snd (setRestoredCondition r w sv ConditionFalse ReasonSeedRunning
                    ''seed job started'')))))
                 (\<lambda>existing.
                  bindE readWorld (\<lambda>w.
                  if jobHasCondition (jobConditions existing) JobComplete then
                    returnE (True, snd (setRestoredCondition r w sv ConditionTrue ReasonSeeded
                      ''volume seeded from backup destination''))
                  else if jobHasCondition (jobConditions existing) JobFailed then
                    (case setRestoredCondition r w sv ConditionFalse ReasonSeedFailed
                       ''seed job failed; delete the job to retry'' of (changed, sv') \<Rightarrow>
                     if changed then bindE (eventf r (seedFailedEvent sv' existing))
                       (\<lambda>_. returnE (False, sv'))
                     else returnE (False, sv'))
                  else
                    returnE (False, snd (setRestoredCondition r w sv ConditionFalse ReasonSeedRunning
                      ''seed job running''))))))
        (\<lambda>_. bindE readWorld (\<lambda>w.
          returnE (True, snd (setRestoredCondition r w sv ConditionTrue ReasonPreexistingServer
            ''server already exists; seed skipped'')))))"

text \<open>
  The ConfigMap part of \<^verbatim>\<open>reconcileServer\<close> (lines 156 to 172). The result is \<^verbatim>\<open>cm\<close> as the caller sees it
  afterwards: a successful \<^verbatim>\<open>Create\<close> overwrites it with the server's reply.
\<close>

definition ensureConfigMap ::
  "('w, 'b) SharedVolumeReconciler_scheme \<Rightarrow> SharedVolume \<Rightarrow> ConfigMap \<Rightarrow> ('w, ConfigMap) prog" where
  "ensureConfigMap r sv cm =
     switchGet (getObject r KConfigMap asConfigMap (ObjectKeyFromObject (OConfigMap cm)))
       (createOwned r sv (OConfigMap cm) asConfigMap)
       (\<lambda>existingCM.
         if mapGet (cmData existingCM) ''ganesha.conf'' \<noteq> mapGet (cmData cm) ''ganesha.conf''
         then bindE (writeObject r (Update (OConfigMap (existingCM\<lparr>cmData := cmData cm\<rparr>))) asConfigMap)
           (\<lambda>_. returnE cm)
         else returnE cm)"

text \<open>
  \<^verbatim>\<open>Containers[0]\<close> of the existing and the wanted template (line 197): an empty list is an index panic.
  The annotation of the existing template is read only when the images agree.
\<close>

definition deploymentDrifted :: "PodTemplateSpec \<Rightarrow> PodTemplateSpec \<Rightarrow> panic + bool" where
  "deploymentDrifted cur want =
     (case (podContainers (ptSpec cur), podContainers (ptSpec want)) of
        (c # _, d # _) \<Rightarrow> Inr (ctImage c \<noteq> ctImage d \<or>
           mapGet (omAnnotations (ptMeta cur)) confHashAnnotation
           \<noteq> mapGet (omAnnotations (ptMeta want)) confHashAnnotation)
      | _ \<Rightarrow> Inl IndexOutOfRange)"

text \<open>The Deployment part of \<^verbatim>\<open>reconcileServer\<close> (lines 184 to 206).\<close>

definition ensureDeployment ::
  "('w, 'b) SharedVolumeReconciler_scheme \<Rightarrow> SharedVolume \<Rightarrow> ConfigMap \<Rightarrow> ('w, bool) prog" where
  "ensureDeployment r sv cm =
     (let deploy = BuildServerDeployment sv (OperatorNamespace r) (GaneshaImage r) cm in
      bindE
        (switchGet (getObject r KDeployment asDeployment (ObjectKeyFromObject (ODeployment deploy)))
          (createOwned r sv (ODeployment deploy) asDeployment)
          (\<lambda>existingDeploy.
            bindE (liftPanic (deploymentDrifted (depTemplate (depSpec existingDeploy))
              (depTemplate (depSpec deploy)))) (\<lambda>drifted.
            if drifted then
              writeObject r (Update (ODeployment (existingDeploy\<lparr>depSpec :=
                (depSpec existingDeploy)\<lparr>depTemplate := depTemplate (depSpec deploy)\<rparr>\<rparr>))) asDeployment
            else returnE existingDeploy)))
        (\<lambda>d. returnE (0 < depReadyReplicas d)))"

text \<open>The Service part of \<^verbatim>\<open>reconcileServer\<close> (lines 209 to 224): the ClusterIP is only ever read.\<close>

definition ensureService ::
  "('w, 'b) SharedVolumeReconciler_scheme \<Rightarrow> SharedVolume \<Rightarrow> ('w, string) prog" where
  "ensureService r sv =
     (let svc = BuildService sv (OperatorNamespace r) in
      bindE
        (switchGet (getObject r KService asService (ObjectKeyFromObject (OService svc)))
          (bindE (createOwned r sv (OService svc) asService) (\<lambda>created.
           getObject r KService asService (ObjectKeyFromObject (OService created))))
          returnE)
        (\<lambda>existingSvc. returnE (svcClusterIP existingSvc)))"

definition reconcileServer ::
  "('w, 'b) SharedVolumeReconciler_scheme \<Rightarrow> SharedVolume \<Rightarrow> ('w, string \<times> bool \<times> SharedVolume) prog" where
  "reconcileServer r sv =
     bindE (createIfMissing r sv (OPVC (BuildBackingPVC sv (OperatorNamespace r))) asPVC) (\<lambda>_.
     bindE (ensureConfigMap r sv (BuildConfigMap sv (OperatorNamespace r))) (\<lambda>cm.
     bindE (reconcileSeed r sv) (\<lambda>(seeded, sv').
     bindE (if seeded then ensureDeployment r sv' cm else returnE False) (\<lambda>serverReady.
     bindE (ensureService r sv') (\<lambda>clusterIP.
     returnE (clusterIP, serverReady, sv'))))))"

subsection \<open>The seed gate\<close>

lemma setRestoredCondition_frame [simp]:
  "svMeta (snd (setRestoredCondition r w sv st rsn msg)) = svMeta sv"
  "svSpec (snd (setRestoredCondition r w sv st rsn msg)) = svSpec sv"
  by (simp_all add: setRestoredCondition_def split: prod.splits)

lemma setRestoredCondition_conditions:
  "svConditions (snd (setRestoredCondition r w sv st rsn msg)) = snd (setStatusCondition r w (svConditions sv)
     \<lparr>cType = ConditionRestored, cStatus = st, cObservedGeneration = svGeneration sv,
      cLastTransitionTime = 0, cReason = rsn, cMessage = msg\<rparr>)"
  by (simp add: setRestoredCondition_def split: prod.splits)

lemma jobHasCondition_iff:
  "jobHasCondition cs t = list_ex (\<lambda>c. jcType c = t \<and> jcStatus c = ConditionTrue) cs"
  by (induction cs) auto

text \<open>Seeding is out of play: no backup, restore policy Never, or recorded as done.\<close>

definition seedSettled :: "('w, 'b) SharedVolumeReconciler_scheme \<Rightarrow> SharedVolume \<Rightarrow> bool" where
  "seedSettled r sv =
     ((case svBackup sv of None \<Rightarrow> True | Some b \<Rightarrow> bsRestorePolicy b = RestoreNever)
      \<or> isStatusConditionTrue r (svConditions sv) ConditionRestored)"

lemma reconcileSeed_settled: "seedSettled r sv \<Longrightarrow> reconcileSeed r sv s = (Inr (True, sv), s)"
  by (auto simp: reconcileSeed_def seedSettled_def returnE_def)

lemma seedSettled_restored:
  assumes "condition_api r"
  shows "seedSettled r (snd (setRestoredCondition r w sv ConditionTrue rsn msg))"
  using condition_api.set_lookup [OF assms] by (simp add: seedSettled_def setRestoredCondition_conditions)

lemma wp_reconcileSeed_settles:
  assumes "condition_api r"
  shows "wp (reconcileSeed r sv) (\<lambda>(seeded, sv') s'. seeded \<longrightarrow> seedSettled r sv') (\<lambda>_ _. True) s"
proof -
  note settled = seedSettled_restored [OF assms]
  have created: "wp (createOwned r sv x as) Q (\<lambda>_ _. True) t" if "\<And>y t'. Q y t'" for x as Q and t :: "'a run"
    using that by (simp add: wp_def split: prod.splits sum.splits)
  have "wp (reconcileSeed r sv) (\<lambda>(seeded, sv') s'. seeded \<longrightarrow> seedSettled r sv') (\<lambda>_ _. True) s"
    if "\<not> seedSettled r sv"
    using that settled unfolding reconcileSeed_def
    by (auto simp: wp_simps seedSettled_def [of r sv] intro!: wp_getObject created split: sum.splits prod.splits option.splits)
  then show ?thesis by (cases "seedSettled r sv") (auto simp: wp_def reconcileSeed_settled)
qed

text \<open>
  When the Deployment may be created: seeding is out of play, a server already exists, or the seed job
  was seen complete.
\<close>

definition gateOpen :: "('w, 'b) SharedVolumeReconciler_scheme \<Rightarrow> SharedVolume \<Rightarrow> history \<Rightarrow> bool" where
  "gateOpen r sv h =
     (seedSettled r sv
      \<or> (\<exists>d. (Get KDeployment (OperatorNamespace r, ServerName sv), Returned (ODeployment d)) \<in> set h)
      \<or> (\<exists>job. (Get KJob (OperatorNamespace r, SeedJobName sv), Returned (OJob job)) \<in> set h
           \<and> jobHasCondition (jobConditions job) JobComplete))"

abbreviation seedGate :: "('w, 'b) SharedVolumeReconciler_scheme \<Rightarrow> SharedVolume \<Rightarrow> history \<Rightarrow> call \<Rightarrow> bool" where
  "seedGate r sv h c \<equiv> ((\<exists>d. c = Create (ODeployment d)) \<longrightarrow> gateOpen r sv h)"

lemma gateOpen_Cons [simp]: "gateOpen r sv h \<Longrightarrow> gateOpen r sv (x # h)"
  by (auto simp: gateOpen_def)

lemma objKind_setMeta_Deployment [simp]: "setMeta x m = ODeployment d \<Longrightarrow> objKind x = KDeployment"
  by (cases x) auto

lemma wp_createOwned_gate:
  assumes "obeys (seedGate r sv) (trace s)" "objKind x = KDeployment \<Longrightarrow> gateOpen r sv (trace s)"
    and "\<And>y c rep w. obeys (seedGate r sv) ((c, rep) # trace s) \<Longrightarrow> Q y (after s c rep w)"
    and "\<And>e s'. obeys (seedGate r sv) (trace s') \<Longrightarrow> E e s'"
  shows "wp (createOwned r sv' x as) Q E s"
  using assms(1,2) unfolding createOwned_def
  by (auto simp: wp_simps intro!: wp_writeObject assms(3,4) split: sum.splits option.splits)

lemma wp_reconcileSeed_gate:
  assumes "obeys (seedGate r sv) (trace s)"
  shows "wp (reconcileSeed r sv)
    (\<lambda>(seeded, sv') s'. obeys (seedGate r sv) (trace s') \<and> (seeded \<longrightarrow> gateOpen r sv (trace s')))
    (\<lambda>_ s'. obeys (seedGate r sv) (trace s')) s"
proof -
  have server: "gateOpen r sv ((Get KDeployment (OperatorNamespace r, ServerName sv), Returned (ODeployment d)) # h)"
    for d h by (auto simp: gateOpen_def)
  have job: "gateOpen r sv ((Get KJob (ObjectKeyFromObject (OJob job)), Returned (OJob j)) # h)"
    if "BuildSeedJob sv (OperatorNamespace r) (BackupImage r) = Inr job"
      "jobHasCondition (jobConditions j) JobComplete" for job j h
    using that by (auto simp: gateOpen_def BuildSeedJob_def Let_def ObjectKeyFromObject_def split: sum.splits)
  show ?thesis
  proof (cases "seedSettled r sv")
    case True
    then show ?thesis using assms by (simp add: wp_def reconcileSeed_settled gateOpen_def)
  next
    case False
    then show ?thesis using assms unfolding reconcileSeed_def
      by (auto simp: wp_simps seedSettled_def intro!: wp_getObject wp_createOwned_gate server job
          split: sum.splits prod.splits option.splits)
  qed
qed

lemma wp_ensureConfigMap_gate:
  assumes "obeys (seedGate r sv) (trace s)"
  shows "wp (ensureConfigMap r sv cm) (\<lambda>_ s'. obeys (seedGate r sv) (trace s'))
    (\<lambda>_ s'. obeys (seedGate r sv) (trace s')) s"
  using assms unfolding ensureConfigMap_def
  by (auto simp: wp_simps intro!: wp_getObject wp_writeObject wp_createOwned_gate)

lemma wp_ensureDeployment_gate:
  assumes "obeys (seedGate r sv) (trace s)" "gateOpen r sv (trace s)"
  shows "wp (ensureDeployment r sv' cm) (\<lambda>_ s'. obeys (seedGate r sv) (trace s'))
    (\<lambda>_ s'. obeys (seedGate r sv) (trace s')) s"
  using assms unfolding ensureDeployment_def Let_def
  by (auto simp: wp_simps intro!: wp_getObject wp_writeObject wp_createOwned_gate split: sum.splits)

lemma wp_ensureService_gate:
  assumes "obeys (seedGate r sv) (trace s)"
  shows "wp (ensureService r sv') (\<lambda>_ s'. obeys (seedGate r sv) (trace s'))
    (\<lambda>_ s'. obeys (seedGate r sv) (trace s')) s"
  using assms unfolding ensureService_def Let_def
  by (auto simp: wp_simps intro!: wp_getObject wp_writeObject wp_createOwned_gate)

text \<open>C13: whatever the API server replies, the Deployment is created only through an open seed gate: there is
  nothing to seed, a server already exists, or the seed job was seen complete in this pass.\<close>

theorem reconcileServer_gated:
  assumes "trace s = []"
  shows "obeys (seedGate r sv) (trace (snd (reconcileServer r sv s)))"
proof -
  let ?I = "\<lambda>s. obeys (seedGate r sv) (trace s)"
  have pvc: "wp (createIfMissing r sv (OPVC p) as) (\<lambda>_. ?I) (\<lambda>_. ?I) s'" if "?I s'" for p as s'
    using that unfolding createIfMissing_def by (auto simp: wp_simps intro!: wp_getObject wp_createOwned_gate)
  have "wp (reconcileServer r sv) (\<lambda>_. ?I) (\<lambda>_. ?I) s"
    unfolding reconcileServer_def
    by (rule wp_seq [OF pvc], (use assms in simp), rule wp_seq [OF wp_ensureConfigMap_gate], assumption,
        rule wp_seq [OF wp_reconcileSeed_gate], assumption)
      (auto simp: wp_simps intro!: wp_mono [OF wp_ensureDeployment_gate] wp_mono [OF wp_ensureService_gate])
  then show ?thesis by (rule wp_invariant)
qed

subsection \<open>Drift of the server\<close>

text \<open>An existing Deployment is rolled exactly when its image or its configuration hash differs from the
  wanted one, rolling it settles the drift, and the comparison panics only on a Deployment without
  containers.\<close>

theorem deployment_drift_settles:
  "let want = depTemplate (depSpec (BuildServerDeployment sv ns img cm)) in
   deploymentDrifted want want = Inr False
   \<and> (deploymentDrifted cur want = Inl IndexOutOfRange \<longleftrightarrow> podContainers (ptSpec cur) = [])
   \<and> (deploymentDrifted cur want = Inr False \<longleftrightarrow> podContainers (ptSpec cur) \<noteq> []
        \<and> ctImage (hd (podContainers (ptSpec cur))) = img
        \<and> mapGet (omAnnotations (ptMeta cur)) confHashAnnotation = confHash cm)"
  by (cases "podContainers (ptSpec cur)")
    (auto simp: deploymentDrifted_def BuildServerDeployment_def Let_def)

end
