(* ===== verification/Backup.thy ===== *)
theory Backup
  imports Server
begin

text \<open>
  \<^verbatim>\<open>reconcileBackup\<close>, \<^verbatim>\<open>backupCronJobDrifted\<close> and \<^verbatim>\<open>backupHostPath\<close> of
  \<^verbatim>\<open>internal/controller/sharedvolume_controller.go\<close>: the per-volume backup CronJob.
\<close>

fun backupHostPathIn :: "Volume list \<Rightarrow> string" where
  "backupHostPathIn [] = ''''"
| "backupHostPathIn (v # vs) =
     (case volHostPath v of
        Some hp \<Rightarrow> if volName v = ''backup'' then hpPath hp else backupHostPathIn vs
      | None \<Rightarrow> backupHostPathIn vs)"

definition backupHostPath :: "PodSpec \<Rightarrow> string" where
  "backupHostPath pod = backupHostPathIn (podVolumes pod)"

text \<open>\<^verbatim>\<open>ptr.Deref(p, false)\<close>\<close>

definition derefBool :: "bool option \<Rightarrow> bool" where
  "derefBool p = (case p of None \<Rightarrow> False | Some b \<Rightarrow> b)"

definition backupCronJobDrifted :: "CronJob \<Rightarrow> CronJob \<Rightarrow> panic + bool" where
  "backupCronJobDrifted existing desired =
     (if cjSchedule (cjSpec existing) \<noteq> cjSchedule (cjSpec desired)
         \<or> derefBool (cjSuspend (cjSpec existing)) \<noteq> derefBool (cjSuspend (cjSpec desired))
      then Inr True
      else
        let cur = ptSpec (jobTemplate (cjJobSpec (cjSpec existing)));
            want = ptSpec (jobTemplate (cjJobSpec (cjSpec desired))) in
        if length (podContainers cur) \<noteq> 1 then Inr True
        else (case (podContainers cur, podContainers want) of
            (c # _, d # _) \<Rightarrow>
              if ctImage c \<noteq> ctImage d \<or> ctCommand c \<noteq> ctCommand d then Inr True
              else Inr (backupHostPath cur \<noteq> backupHostPath want)
          | _ \<Rightarrow> Inl IndexOutOfRange))"

definition setLastBackupTime :: "SharedVolume \<Rightarrow> Time option \<Rightarrow> SharedVolume" where
  "setLastBackupTime sv t = sv\<lparr>svStatus := (svStatus sv)\<lparr>stLastBackupTime := t\<rparr>\<rparr>"

definition reconcileBackup ::
  "('w, 'b) SharedVolumeReconciler_scheme \<Rightarrow> SharedVolume \<Rightarrow> ('w, SharedVolume) prog" where
  "reconcileBackup r sv =
     (let get = getObject r KCronJob asCronJob (OperatorNamespace r, BackupCronJobName sv) in
      if svBackup sv = None then
        (let sv' = setLastBackupTime sv None in
         switchE get
           (\<lambda>e. if \<not> IsNotFound e then throwE e else returnE sv')
           (\<lambda>existing. bindE (ignoring IsNotFound (deleteObject r KCronJob
               (ObjectKeyFromObject (OCronJob existing)) DefaultPropagation)) (\<lambda>_. returnE sv')))
      else
        switchE get
          (\<lambda>e. bindE (liftPanic (BuildBackupCronJob sv (OperatorNamespace r) (BackupImage r))) (\<lambda>desired.
               if IsNotFound e
               then bindE (createOwned r sv (OCronJob desired) asCronJob) (\<lambda>_. returnE sv)
               else throwE e))
          (\<lambda>existing.
             bindE (liftPanic (BuildBackupCronJob sv (OperatorNamespace r) (BackupImage r))) (\<lambda>desired.
             bindE (liftPanic (backupCronJobDrifted existing desired)) (\<lambda>drifted.
             bindE (if drifted
                    then writeObject r (Update (OCronJob (existing\<lparr>cjSpec := cjSpec desired\<rparr>))) asCronJob
                    else returnE existing) (\<lambda>existing'.
             returnE (setLastBackupTime sv (cjLastSuccessfulTime existing')))))))"

subsection \<open>Drift\<close>

lemma BuildBackupCronJob_pod:
  assumes "BuildBackupCronJob sv ns img = Inr d"
  shows "\<exists>c. podContainers (ptSpec (jobTemplate (cjJobSpec (cjSpec d)))) = [c]"
  using assms
  by (auto simp: BuildBackupCronJob_def Let_def backupPodSpec_def split: sum.splits option.splits)

text \<open>The fields the operator owns of a backup CronJob.\<close>

definition ownedFields :: "CronJob \<Rightarrow> string \<times> bool \<times> (string \<times> string list) list \<times> string" where
  "ownedFields cj =
     (let pod = ptSpec (jobTemplate (cjJobSpec (cjSpec cj)))
      in (cjSchedule (cjSpec cj), derefBool (cjSuspend (cjSpec cj)),
          map (\<lambda>c. (ctImage c, ctCommand c)) (podContainers pod), backupHostPath pod))"

lemma backupCronJobDrifted_owned:
  assumes "BuildBackupCronJob sv ns img = Inr d"
  shows "backupCronJobDrifted existing d = Inr (ownedFields existing \<noteq> ownedFields d)"
proof -
  obtain c where "podContainers (ptSpec (jobTemplate (cjJobSpec (cjSpec d)))) = [c]"
    using BuildBackupCronJob_pod [OF assms] by blast
  then show ?thesis
    by (auto simp: backupCronJobDrifted_def Let_def ownedFields_def split: list.splits)
qed

text \<open>C28: drift is reported exactly when a field the operator owns differs: the schedule, the effective suspend
  flag, the container's image and command, or the destination path. The comparison never panics, and
  fields that the API server defaults never count.\<close>

theorem backup_drift_exact:
  assumes "BuildBackupCronJob sv ns img = Inr d"
  shows "backupCronJobDrifted existing d = Inr (ownedFields existing \<noteq> ownedFields d)"
  by (rule backupCronJobDrifted_owned [OF assms])

end
