(* ===== verification/Netip.thy ===== *)
theory Netip
  imports Prelude "HOL-Library.Word"
begin

unbundle bit_operations_syntax

text \<open>
  What \<^verbatim>\<open>nodeIPs\<close> uses of Go's standard package \<^verbatim>\<open>net/netip\<close>: \<^verbatim>\<open>ParsePrefix\<close>, \<^verbatim>\<open>Prefix.Addr\<close>,
  \<^verbatim>\<open>Addr.Next\<close>, \<^verbatim>\<open>Prefix.Contains\<close> and \<^verbatim>\<open>Addr.String\<close>. The caller tests an error only against nil, so a
  failed parse is \<open>None\<close>. Addresses are 32-bit and 128-bit words and wrap around like the library's.
\<close>

datatype Addr = InvalidAddr | Addr4 "32 word" | Addr6 "128 word"

datatype Prefix = Prefix Addr nat

subsection \<open>Splitting\<close>

fun splitByte :: "char \<Rightarrow> string \<Rightarrow> string list" where
  "splitByte c [] = [[]]"
| "splitByte c (x # xs) =
     (if x = c then [] # splitByte c xs
      else (case splitByte c xs of [] \<Rightarrow> [[x]] | f # fs \<Rightarrow> (x # f) # fs))"

lemma splitByte_nonempty [simp]: "splitByte c s \<noteq> []"
  by (cases s) (auto split: list.splits)

lemma splitByte_no_sep: "c \<notin> set s \<Longrightarrow> splitByte c s = [s]"
  by (induction s) auto

lemma splitByte_append: "c \<notin> set f \<Longrightarrow> splitByte c (f @ c # s) = f # splitByte c s"
  by (induction f) auto

text \<open>The text before and after the last occurrence of a byte.\<close>

definition cutLast :: "char \<Rightarrow> string \<Rightarrow> (string \<times> string) option" where
  "cutLast c s = (if c \<in> set s
     then Some (rev (tl (dropWhile (\<lambda>x. x \<noteq> c) (rev s))), rev (takeWhile (\<lambda>x. x \<noteq> c) (rev s)))
     else None)"

lemma takeWhile_dropWhile_sep:
  assumes "c \<notin> set b"
  shows "takeWhile (\<lambda>x. x \<noteq> c) (b @ c # a) = b" "dropWhile (\<lambda>x. x \<noteq> c) (b @ c # a) = c # a"
  using assms by (induction b) auto

lemma cutLast_append: "c \<notin> set b \<Longrightarrow> cutLast c (a @ c # b) = Some (a, b)"
  using takeWhile_dropWhile_sep [of c "rev b" "rev a"] by (simp add: cutLast_def)

subsection \<open>Parsing\<close>

text \<open>A decimal field: digits, no leading zero unless the field is a single digit.\<close>

definition decimalField :: "string \<Rightarrow> nat option" where
  "decimalField f = (if f \<noteq> [] \<and> list_all is_digit f \<and> (length f = 1 \<or> hd f \<noteq> CHR ''0'')
     then Some (undec f) else None)"

definition octet :: "string \<Rightarrow> nat option" where
  "octet f = (case decimalField f of Some v \<Rightarrow> if v \<le> 255 then Some v else None | None \<Rightarrow> None)"

definition fromOctets :: "nat list \<Rightarrow> nat" where
  "fromOctets vs = foldl (\<lambda>a v. a * 256 + v) 0 vs"

definition parseIPv4Fields :: "string \<Rightarrow> nat option" where
  "parseIPv4Fields s =
     (let fs = splitByte CHR ''.'' s in
      if length fs = 4 then map_option fromOctets (those (map octet fs)) else None)"

definition parseIPv4 :: "string \<Rightarrow> Addr option" where
  "parseIPv4 s = map_option (\<lambda>v. Addr4 (word_of_nat v)) (parseIPv4Fields s)"

definition hexVal :: "char \<Rightarrow> nat option" where
  "hexVal c = (let n = of_char c :: nat in
     if 48 \<le> n \<and> n \<le> 57 then Some (n - 48)
     else if 97 \<le> n \<and> n \<le> 102 then Some (n - 87)
     else if 65 \<le> n \<and> n \<le> 70 then Some (n - 55) else None)"

definition is_hex :: "char \<Rightarrow> bool" where
  "is_hex c = (hexVal c \<noteq> None)"

definition unhex :: "string \<Rightarrow> nat" where
  "unhex s = foldl (\<lambda>a c. a * 16 + (case hexVal c of None \<Rightarrow> 0 | Some d \<Rightarrow> d)) 0 s"

text \<open>
  The loop of \<^verbatim>\<open>parseIPv6\<close>: \<open>gs\<close> are the 16-bit groups read so far and \<open>e\<close> the number of groups before
  the ellipsis, if one was seen. The result is the groups, the ellipsis and the unread rest.
\<close>

function groupLoop :: "string \<Rightarrow> nat list \<Rightarrow> nat option \<Rightarrow> (nat list \<times> nat option \<times> string) option" where
  "groupLoop s gs e =
     (if 8 \<le> length gs then Some (gs, e, s)
      else
        let h = takeWhile is_hex s; rest = dropWhile is_hex s in
        if h = [] \<or> 4 < length h then None
        else if rest \<noteq> [] \<and> hd rest = CHR ''.'' then
          (if (e = None \<and> length gs \<noteq> 6) \<or> 8 < length gs + 2 then None
           else (case parseIPv4Fields s of None \<Rightarrow> None
             | Some v \<Rightarrow> Some (gs @ [v div 65536, v mod 65536], e, [])))
        else
          let gs' = gs @ [unhex h] in
          (case rest of
             [] \<Rightarrow> Some (gs', e, [])
           | c # t \<Rightarrow>
               if c \<noteq> CHR '':'' \<or> t = [] then None
               else if hd t = CHR '':'' then
                 (if e \<noteq> None then None
                  else if tl t = [] then Some (gs', Some (length gs'), [])
                  else groupLoop (tl t) gs' (Some (length gs')))
               else groupLoop t gs' e))"
  by pat_completeness auto
termination
  by (relation "measure (\<lambda>(s, gs, e). 8 - length gs)") auto

declare groupLoop.simps [simp del]

definition fromGroups :: "nat list \<Rightarrow> nat" where
  "fromGroups gs = foldl (\<lambda>a g. a * 65536 + g) 0 gs"

definition expandGroups :: "nat list \<Rightarrow> nat option \<Rightarrow> nat list option" where
  "expandGroups gs e =
     (if length gs < 8 then
        (case e of None \<Rightarrow> None
         | Some k \<Rightarrow> Some (take k gs @ replicate (8 - length gs) 0 @ drop k gs))
      else if e \<noteq> None then None else Some gs)"

text \<open>The address and its zone.\<close>

definition parseIPv6 :: "string \<Rightarrow> (Addr \<times> string) option" where
  "parseIPv6 inp =
     (let s = takeWhile (\<lambda>c. c \<noteq> CHR ''%'') inp;
          hasZone = (CHR ''%'' \<in> set inp);
          zone = tl (dropWhile (\<lambda>c. c \<noteq> CHR ''%'') inp) in
      if hasZone \<and> zone = [] then None
      else
        let zone' = (if hasZone then zone else []);
            lead = (take 2 s = ''::'');
            s' = (if lead then drop 2 s else s) in
        if lead \<and> s' = [] then Some (Addr6 0, zone')
        else (case groupLoop s' [] (if lead then Some 0 else None) of None \<Rightarrow> None
          | Some (gs, e, rest) \<Rightarrow>
              if rest \<noteq> [] then None
              else (case expandGroups gs e of None \<Rightarrow> None
                | Some gs' \<Rightarrow> Some (Addr6 (word_of_nat (fromGroups gs')), zone'))))"

fun scanAddr :: "string \<Rightarrow> string \<Rightarrow> (Addr \<times> string) option" where
  "scanAddr s [] = None"
| "scanAddr s (c # cs) =
     (if c = CHR ''.'' then map_option (\<lambda>a. (a, [])) (parseIPv4 s)
      else if c = CHR '':'' then parseIPv6 s
      else if c = CHR ''%'' then None
      else scanAddr s cs)"

definition ParseAddr :: "string \<Rightarrow> (Addr \<times> string) option" where
  "ParseAddr s = scanAddr s s"

fun BitLen :: "Addr \<Rightarrow> nat" where
  "BitLen InvalidAddr = 0"
| "BitLen (Addr4 _) = 32"
| "BitLen (Addr6 _) = 128"

definition ParsePrefix :: "string \<Rightarrow> Prefix option" where
  "ParsePrefix s =
     (case cutLast CHR ''/'' s of None \<Rightarrow> None
      | Some (addr, bitsStr) \<Rightarrow>
     (case ParseAddr addr of None \<Rightarrow> None
      | Some (ip, zone) \<Rightarrow>
        if zone \<noteq> [] then None
        else (case decimalField bitsStr of None \<Rightarrow> None
          | Some bits \<Rightarrow> if bits \<le> BitLen ip then Some (Prefix ip bits) else None)))"

subsection \<open>Address operations\<close>

fun prefixAddr :: "Prefix \<Rightarrow> Addr" where
  "prefixAddr (Prefix ip _) = ip"

fun Next :: "Addr \<Rightarrow> Addr" where
  "Next InvalidAddr = InvalidAddr"
| "Next (Addr4 w) = (if w + 1 = 0 then InvalidAddr else Addr4 (w + 1))"
| "Next (Addr6 w) = (if w + 1 = 0 then InvalidAddr else Addr6 (w + 1))"

fun Contains :: "Prefix \<Rightarrow> Addr \<Rightarrow> bool" where
  "Contains (Prefix (Addr4 p) bits) (Addr4 w) = (drop_bit (32 - bits) (w XOR p) = 0)"
| "Contains (Prefix (Addr6 p) bits) (Addr6 w) = (drop_bit (128 - bits) (w XOR p) = 0)"
| "Contains _ _ = False"

fun hexNat :: "nat \<Rightarrow> string" where
  "hexNat n = (if n < 16 then [if n < 10 then digit n else char_of (87 + n)]
     else hexNat (n div 16) @ [if n mod 16 < 10 then digit (n mod 16) else char_of (87 + n mod 16)])"

declare hexNat.simps [simp del]

definition toOctets :: "32 word \<Rightarrow> nat list" where
  "toOctets w = (let n = unat w in [n div 16777216, n div 65536 mod 256, n div 256 mod 256, n mod 256])"

fun joinWith :: "string \<Rightarrow> string list \<Rightarrow> string" where
  "joinWith sep [] = []"
| "joinWith sep [f] = f"
| "joinWith sep (f # fs) = f @ sep @ joinWith sep fs"

definition string4 :: "32 word \<Rightarrow> string" where
  "string4 w = joinWith ''.'' (map dec (toOctets w))"

definition toGroups :: "128 word \<Rightarrow> nat list" where
  "toGroups w = map (\<lambda>i. unat w div 65536 ^ (7 - i) mod 65536) [0..<8]"

text \<open>The longest run of at least two zero groups, the first one if several are longest.\<close>

definition zeroRun :: "nat list \<Rightarrow> nat \<times> nat" where
  "zeroRun gs = foldl (\<lambda>(st, l) i.
       let k = length (takeWhile (\<lambda>g. g = 0) (drop i gs)) in if 2 \<le> k \<and> l < k then (i, k) else (st, l))
     (length gs, 0) [0..<length gs]"

definition string6 :: "128 word \<Rightarrow> string" where
  "string6 w =
     (let gs = toGroups w; (st, k) = zeroRun gs; hex = joinWith '':'' \<circ> map hexNat in
      if k = 0 then hex gs else hex (take st gs) @ ''::'' @ hex (drop (st + k) gs))"

fun addrString :: "Addr \<Rightarrow> string" where
  "addrString InvalidAddr = ''invalid IP''"
| "addrString (Addr4 w) = string4 w"
| "addrString (Addr6 w) = (if unat w div 2 ^ 32 = 65535
     then ''::ffff:'' @ string4 (word_of_nat (unat w mod 2 ^ 32)) else string6 w)"

subsection \<open>Parsing and printing\<close>

lemma hd_dec: "0 < n \<Longrightarrow> hd (dec n) \<noteq> CHR ''0''"
proof (induction n rule: dec.induct)
  case (1 n)
  show ?case
  proof (cases "n < 10")
    case True
    have "digit n \<noteq> CHR ''0''"
    proof
      assume "digit n = CHR ''0''"
      then have "(of_char (digit n) :: nat) = of_char (CHR ''0'')" by (rule arg_cong)
      with True 1(2) show False by simp
    qed
    then show ?thesis using True by (simp add: dec_small)
  next
    case False
    then show ?thesis using 1 by (simp add: dec_big)
  qed
qed

lemma dec_field: "length (dec n) = 1 \<or> hd (dec n) \<noteq> CHR ''0''"
  using hd_dec [of n] by (cases "n = 0") (auto simp: dec_small)

lemma decimalField_dec [simp]: "decimalField (dec n) = Some n"
  using dec_field [of n] by (auto simp: decimalField_def list_all_iff dec_digits)

lemma octet_dec [simp]: "n < 256 \<Longrightarrow> octet (dec n) = Some n"
  by (simp add: octet_def)

lemma dec_no_dot: "c \<in> {CHR ''.'', CHR '':'', CHR ''/'', CHR ''%''} \<Longrightarrow> c \<notin> set (dec n)"
  by (rule dec_no_char) (auto simp: is_digit_def)

lemma unat_32: "unat (w :: 32 word) < 4294967296"
  using unsigned_less [where ?'a = nat, of w] by simp

lemma toOctets_bounds: "v \<in> set (toOctets w) \<Longrightarrow> v < 256"
  using unat_32 [of w] by (auto simp: toOctets_def Let_def)

lemma fromOctets_toOctets: "fromOctets (toOctets w) = unat w"
proof -
  have quot: "n div 65536 = n div 256 div 256" "n div 16777216 = n div 256 div 256 div 256" for n :: nat
    by (simp_all flip: div_mult2_eq)
  have horner: "((c * 256 + b mod 256) * 256 + a mod 256) * 256 + n mod 256 = n"
    if "a = n div 256" "b = a div 256" "c = b div 256" for a b c n :: nat
    using that by (metis div_mult_mod_eq)
  show ?thesis
    using horner [OF refl refl refl, of "unat w"] by (simp add: fromOctets_def toOctets_def Let_def quot)
qed

lemma splitByte_string4: "splitByte CHR ''.'' (string4 w) = map dec (toOctets w)"
  by (simp add: string4_def toOctets_def Let_def splitByte_append splitByte_no_sep dec_no_dot)

lemma those_octets: "\<forall>v \<in> set vs. v < 256 \<Longrightarrow> those (map octet (map dec vs)) = Some vs"
  by (induction vs) auto

lemma parseIPv4_string4: "parseIPv4 (string4 w) = Some (Addr4 w)"
proof -
  have "those (map octet (map dec (toOctets w))) = Some (toOctets w)"
    by (rule those_octets) (simp add: toOctets_bounds)
  moreover have "length (toOctets w) = 4" by (simp add: toOctets_def Let_def)
  ultimately show ?thesis
    by (simp add: parseIPv4_def parseIPv4Fields_def splitByte_string4 fromOctets_toOctets Let_def)
qed

lemma scanAddr_skip:
  "set f \<inter> {CHR ''.'', CHR '':'', CHR ''%''} = {} \<Longrightarrow> scanAddr s (f @ t) = scanAddr s t"
  by (induction f) auto

lemma ParseAddr_string4: "ParseAddr (string4 w) = Some (Addr4 w, [])"
proof -
  obtain f t where ft: "string4 w = f @ CHR ''.'' # t" "f = dec (unat w div 16777216)"
    by (simp add: string4_def toOctets_def Let_def)
  have "set f \<inter> {CHR ''.'', CHR '':'', CHR ''%''} = {}"
    unfolding ft(2) using dec_no_dot by auto
  then have "scanAddr (string4 w) (f @ CHR ''.'' # t) = map_option (\<lambda>a. (a, [])) (parseIPv4 (string4 w))"
    by (simp add: scanAddr_skip)
  then show ?thesis using parseIPv4_string4 [of w] unfolding ParseAddr_def ft(1) by simp
qed

lemma ParsePrefix_string4:
  assumes "b \<le> 32"
  shows "ParsePrefix (string4 w @ ''/'' @ dec b) = Some (Prefix (Addr4 w) b)"
proof -
  have "cutLast CHR ''/'' (string4 w @ ''/'' @ dec b) = Some (string4 w, dec b)"
    using cutLast_append [of "CHR ''/''" "dec b" "string4 w"] dec_no_dot by simp
  then show ?thesis using assms by (simp add: ParsePrefix_def ParseAddr_string4)
qed

subsection \<open>Containment is equality of the network parts\<close>

lemma drop_xor_zero: "drop_bit n (w XOR p) = 0 \<longleftrightarrow> unat w div 2 ^ n = unat p div 2 ^ n" for w p :: "'a::len word"
proof -
  have "drop_bit n (w XOR p) = 0 \<longleftrightarrow> drop_bit n w = drop_bit n p"
    by (simp add: bit_eq_iff bit_simps)
  also have "\<dots> \<longleftrightarrow> unat (drop_bit n w) = unat (drop_bit n p)"
    by (simp add: word_unat_eq_iff)
  also have "\<dots> \<longleftrightarrow> unat w div 2 ^ n = unat p div 2 ^ n"
    unfolding unat_drop_bit_eq unfolding drop_bit_eq_div ..
  finally show ?thesis .
qed

lemma Contains_network:
  "Contains (Prefix a bits) b =
     (case (a, b) of
        (Addr4 p, Addr4 w) \<Rightarrow> unat w div 2 ^ (32 - bits) = unat p div 2 ^ (32 - bits)
      | (Addr6 p, Addr6 w) \<Rightarrow> unat w div 2 ^ (128 - bits) = unat p div 2 ^ (128 - bits)
      | _ \<Rightarrow> False)"
  by (cases a; cases b) (simp_all add: drop_xor_zero del: drop_bit_xor)

subsection \<open>Round trip\<close>



end
