(* ===== verification/Policy.thy ===== *)
theory Policy
  imports Traces Netip
begin

text \<open>
  \<^verbatim>\<open>nodeIPs\<close>, \<^verbatim>\<open>podCIDRsOf\<close> and \<^verbatim>\<open>reconcileNetworkPolicy\<close> of
  \<^verbatim>\<open>internal/controller/sharedvolume_controller.go\<close>: which addresses and namespaces a volume's
  NetworkPolicy admits, and how the policy object is kept in sync.
\<close>

definition podCIDRsOf :: "Node \<Rightarrow> string list" where
  "podCIDRsOf node =
     (if nodePodCIDRs node \<noteq> [] then nodePodCIDRs node
      else if nodePodCIDR node \<noteq> '''' then [nodePodCIDR node]
      else [])"

fun collectAddresses :: "NodeAddress list \<Rightarrow> string list \<Rightarrow> string list" where
  "collectAddresses [] keys = keys"
| "collectAddresses (a # as) keys =
     collectAddresses as
       (if naType a = NodeInternalIP \<or> naType a = NodeExternalIP then setInsert (naAddress a) keys
        else keys)"

fun collectCIDRs :: "string list \<Rightarrow> string list \<Rightarrow> string list" where
  "collectCIDRs [] keys = keys"
| "collectCIDRs (cidr # cs) keys =
     collectCIDRs cs
       (case ParsePrefix cidr of None \<Rightarrow> keys
        | Some p \<Rightarrow>
            let base = prefixAddr p;
                keys' = setInsert (addrString base) keys;
                nxt = Next base in
            if Contains p nxt then setInsert (addrString nxt) keys' else keys')"

fun collectNodes :: "Node list \<Rightarrow> string list \<Rightarrow> string list" where
  "collectNodes [] keys = keys"
| "collectNodes (n # ns) keys =
     collectNodes ns (collectCIDRs (podCIDRsOf n) (collectAddresses (nodeAddresses n) keys))"

definition nodeIPs :: "('w, 'b) SharedVolumeReconciler_scheme \<Rightarrow> ('w, string list) prog" where
  "nodeIPs r = bindE (listObjects r KNode asNode ListAll) (\<lambda>nodes.
     returnE (sortedKeys (collectNodes nodes [])))"

definition reconcileNetworkPolicy ::
  "('w, 'b) SharedVolumeReconciler_scheme \<Rightarrow> SharedVolume \<Rightarrow> string list \<Rightarrow> ('w, unit) prog" where
  "reconcileNetworkPolicy r sv targets =
     (let key = (OperatorNamespace r, ServerName sv);
          desiredPolicy = bindE (nodeIPs r) (\<lambda>ips.
            returnE (BuildNetworkPolicy sv (OperatorNamespace r) targets ips (AllowCIDRs r))) in
      switchE (getObject r KNetworkPolicy asNetworkPolicy key)
        (\<lambda>e. if \<not> IsNotFound e then throwE e
             else if specNetworkPolicy (svSpec sv) = NetworkPolicyDisabled then returnE ()
             else bindE desiredPolicy (\<lambda>desired.
               bindE (createOwned r sv (ONetworkPolicy desired) asNetworkPolicy) (\<lambda>_. returnE ())))
        (\<lambda>existing.
             if specNetworkPolicy (svSpec sv) = NetworkPolicyDisabled
             then ignoring IsNotFound (deleteObject r KNetworkPolicy
                    (ObjectKeyFromObject (ONetworkPolicy existing)) DefaultPropagation)
             else bindE desiredPolicy (\<lambda>desired.
               if \<not> semanticDeepEqual r (npSpec existing) (npSpec desired)
               then bindE (writeObject r (Update (ONetworkPolicy (existing\<lparr>npSpec := npSpec desired\<rparr>)))
                      asNetworkPolicy) (\<lambda>_. returnE ())
               else returnE ())))"

subsection \<open>Which addresses are admitted\<close>

text \<open>The sources of a pod CIDR: its base address and the next one, if that is still in the prefix.\<close>

definition cidrSources :: "string \<Rightarrow> string set" where
  "cidrSources cidr = (case ParsePrefix cidr of None \<Rightarrow> {}
     | Some p \<Rightarrow> addrString ` ({prefixAddr p} \<union> {a. a = Next (prefixAddr p) \<and> Contains p a}))"

definition nodeSources :: "Node \<Rightarrow> string set" where
  "nodeSources n =
     naAddress ` {a \<in> set (nodeAddresses n). naType a = NodeInternalIP \<or> naType a = NodeExternalIP}
     \<union> \<Union> (cidrSources ` set (podCIDRsOf n))"

lemma set_collectAddresses:
  "set (collectAddresses as keys) =
     set keys \<union> naAddress ` {a \<in> set as. naType a = NodeInternalIP \<or> naType a = NodeExternalIP}"
  by (induction as arbitrary: keys) auto

lemma set_collectCIDRs: "set (collectCIDRs cs keys) = set keys \<union> \<Union> (cidrSources ` set cs)"
proof (induction cs arbitrary: keys)
  case (Cons c cs)
  show ?case
    by (cases "ParsePrefix c") (auto simp: Cons.IH cidrSources_def Let_def)
qed simp

lemma set_collectNodes: "set (collectNodes ns keys) = set keys \<union> \<Union> (nodeSources ` set ns)"
  by (induction ns arbitrary: keys)
    (auto simp: set_collectAddresses set_collectCIDRs nodeSources_def)

lemma distinct_collects:
  "distinct keys \<Longrightarrow> distinct (collectAddresses as keys)"
  "distinct keys \<Longrightarrow> distinct (collectCIDRs cs keys)"
proof -
  show "distinct keys \<Longrightarrow> distinct (collectAddresses as keys)"
    by (induction as arbitrary: keys) auto
  show "distinct keys \<Longrightarrow> distinct (collectCIDRs cs keys)"
    by (induction cs arbitrary: keys) (auto simp: Let_def split: option.splits)
qed

lemma distinct_collectNodes: "distinct keys \<Longrightarrow> distinct (collectNodes ns keys)"
  by (induction ns arbitrary: keys) (auto simp: distinct_collects)

text \<open>C17: \<^verbatim>\<open>nodeIPs\<close> lists the nodes once and returns, sorted and without duplicates, exactly the internal and
  external addresses of the nodes and the first two addresses of their pod CIDRs, the second only
  where the CIDR holds it.\<close>

theorem nodeIPs_exact:
  assumes "trace s = []" "nodeIPs r s = (Inr ips, s')"
  shows "\<exists>nodes. trace s' = [(ListObjects KNode ListAll, Items (map ONode nodes))]
    \<and> sorted ips \<and> distinct ips \<and> set ips = \<Union> (nodeSources ` set nodes)"
proof -
  have those: "xs = map ONode nodes" if "those (map asNode xs) = Some nodes" for xs nodes
    using that by (induction xs arbitrary: nodes) (auto split: option.splits)
  have "wp (nodeIPs r) (\<lambda>ips s'. \<exists>nodes. trace s' = [(ListObjects KNode ListAll, Items (map ONode nodes))]
      \<and> sorted ips \<and> distinct ips \<and> set ips = \<Union> (nodeSources ` set nodes)) (\<lambda>_ _. True) s"
    unfolding nodeIPs_def using assms(1)
    by (auto simp: wp_simps set_collectNodes distinct_collectNodes intro!: wp_listObjects dest!: those)
  then show ?thesis using assms(2) by (rule wp_result)
qed

text \<open>For an IPv4 pod CIDR of length 31 or less that starts at its network address, the admitted sources are
  the network address and its successor, the tunnel and bridge addresses of the node.\<close>

theorem cidrSources_ipv4:
  assumes "b \<le> 31" "unat w mod 2 ^ (32 - b) = 0"
  shows "cidrSources (string4 w @ ''/'' @ dec b) = {string4 w, string4 (w + 1)}"
proof -
  let ?m = "2 ^ (32 - b) :: nat"
  have pow: "2 ^ 1 \<le> ?m" using assms(1) by (intro power_increasing) auto
  have dvd: "?m dvd 2 ^ 32" by (rule le_imp_power_dvd) simp
  have small: "unat w + 1 < 2 ^ 32"
  proof (rule ccontr)
    assume "\<not> unat w + 1 < 2 ^ 32"
    then have "unat w + 1 = 2 ^ 32" using unat_32 [of w] by simp
    then have "?m dvd unat w + 1" using dvd by simp
    moreover have "?m dvd unat w" using assms(2) by auto
    ultimately have "?m dvd 1" using dvd_add_right_iff by blast
    then show False using pow by simp
  qed
  have succ: "unat (w + 1) = unat w + 1"
    using small by (simp add: unat_word_ariths)
  then have "w + 1 \<noteq> 0" by (metis add_is_0 unsigned_0 zero_neq_one)
  moreover have "(unat w + 1) div ?m = unat w div ?m"
    using assms(2) pow by (auto simp: div_Suc mod_Suc)
  ultimately show ?thesis
    using assms(1) by (auto simp: cidrSources_def ParsePrefix_string4 [simplified] Contains_network succ)
qed

end
