(* ===== verification/Bindings.thy ===== *)
theory Bindings
  imports Traces
begin

text \<open>
  \<^verbatim>\<open>targetNamespaces\<close>, \<^verbatim>\<open>reconcileBindings\<close>, \<^verbatim>\<open>reconcileBinding\<close> and \<^verbatim>\<open>cleanupStaleBindings\<close> of
  \<^verbatim>\<open>internal/controller/sharedvolume_controller.go\<close>: the target namespaces of a volume and the pre-bound
  PV/PVC pair of each.
\<close>

subsection \<open>Target namespaces\<close>

fun collectNamed ::
  "('w, 'b) SharedVolumeReconciler_scheme \<Rightarrow> string list \<Rightarrow> string list \<Rightarrow> ('w, string list) prog" where
  "collectNamed r [] keys = returnE keys"
| "collectNamed r (name # names) keys =
     switchGet (getObject r KNamespace asNamespace ('''', name))
       (collectNamed r names keys)
       (\<lambda>ns. collectNamed r names
          (if IsZero (omDeletionTimestamp (nsMeta ns)) then setInsert name keys else keys))"

fun collectSelected :: "Namespace list \<Rightarrow> string list \<Rightarrow> string list" where
  "collectSelected [] keys = keys"
| "collectSelected (ns # nss) keys =
     collectSelected nss
       (if IsZero (omDeletionTimestamp (nsMeta ns)) then setInsert (omName (nsMeta ns)) keys else keys)"

definition targetNamespaces ::
  "('w, 'b) SharedVolumeReconciler_scheme \<Rightarrow> SharedVolume \<Rightarrow> ('w, string list) prog" where
  "targetNamespaces r sv =
     bindE (collectNamed r (selNames (specNamespaces (svSpec sv))) []) (\<lambda>keys.
     bindE (case selSelector (specNamespaces (svSpec sv)) of
        None \<Rightarrow> returnE keys
      | Some sel \<Rightarrow>
          (case labelSelectorAsSelector r sel of
             Inl m \<Rightarrow> throwE (SelectorError m)
           | Inr selector \<Rightarrow>
               bindE (listObjects r KNamespace asNamespace (MatchingLabelsSelector selector)) (\<lambda>nss.
               returnE (collectSelected nss keys)))) (\<lambda>keys'.
     returnE (sortedKeys keys')))"

subsection \<open>One binding\<close>

definition conflictEvent :: "SharedVolume \<Rightarrow> string \<Rightarrow> string \<Rightarrow> Event" where
  "conflictEvent sv ns pvcName = \<lparr>evRegarding = svName sv, evType = ''Warning'',
     evReason = ''PVCConflict'', evAction = ''Reconcile'',
     evNote = ''namespace '' @ ns @ '' already has a PVC named '' @ pvcName
       @ '' not managed by this SharedVolume''\<rparr>"

text \<open>A released PV whose claimRef still carries the UID of the deleted claim never rebinds (line 532).\<close>

definition needsRepair :: "PersistentVolume \<Rightarrow> bool" where
  "needsRepair pv = (pvPhase pv = VolumeReleased \<and>
     (case pvClaimRef (pvSpec pv) of None \<Rightarrow> False | Some ref \<Rightarrow> refUID ref \<noteq> ''''))"

definition repairPV :: "PersistentVolume \<Rightarrow> PersistentVolume" where
  "repairPV pv = pv\<lparr>pvSpec := (pvSpec pv)\<lparr>pvClaimRef :=
     map_option (\<lambda>ref. ref\<lparr>refUID := '''', refResourceVersion := ''''\<rparr>) (pvClaimRef (pvSpec pv))\<rparr>\<rparr>"

text \<open>The PV part of \<^verbatim>\<open>reconcileBinding\<close> (lines 519 to 539).\<close>

definition ensurePV ::
  "('w, 'b) SharedVolumeReconciler_scheme \<Rightarrow> SharedVolume \<Rightarrow> string \<Rightarrow> string \<Rightarrow> ('w, unit) prog" where
  "ensurePV r sv ns clusterIP =
     (let pv = BuildPV sv ns clusterIP in
      switchGet (getObject r KPV asPV (ObjectKeyFromObject (OPV pv)))
        (bindE (createOwned r sv (OPV pv) asPV) (\<lambda>_. returnE ()))
        (\<lambda>existingPV.
          if needsRepair existingPV
          then bindE (writeObject r (Update (OPV (repairPV existingPV))) asPV) (\<lambda>_. returnE ())
          else returnE ()))"

definition reconcileBinding ::
  "('w, 'b) SharedVolumeReconciler_scheme \<Rightarrow> SharedVolume \<Rightarrow> string \<Rightarrow> string \<Rightarrow> ('w, BindingPhase) prog" where
  "reconcileBinding r sv ns clusterIP =
     bindE (ensurePV r sv ns clusterIP) (\<lambda>_.
     let pvc = BuildConsumerPVC sv ns in
     switchGet (getObject r KPVC asPVC (ObjectKeyFromObject (OPVC pvc)))
       (bindE (createOwned r sv (OPVC pvc) asPVC) (\<lambda>_. returnE BindingPending))
       (\<lambda>existingPVC.
         if mapGet (omLabels (pvcMeta existingPVC)) LabelSharedVolume \<noteq> svName sv
         then bindE (eventf r (conflictEvent sv ns (omName (pvcMeta pvc)))) (\<lambda>_. returnE BindingConflict)
         else if \<not> IsZero (omDeletionTimestamp (pvcMeta existingPVC)) then returnE BindingTerminating
         else if pvcPhase existingPVC = ClaimBound then returnE BindingBound
         else returnE BindingPending))"

fun reconcileBindings ::
  "('w, 'b) SharedVolumeReconciler_scheme \<Rightarrow> SharedVolume \<Rightarrow> string list \<Rightarrow> string
   \<Rightarrow> ('w, NamespaceBinding list) prog" where
  "reconcileBindings r sv [] clusterIP = returnE []"
| "reconcileBindings r sv (ns # targets) clusterIP =
     bindE (reconcileBinding r sv ns clusterIP) (\<lambda>phase.
     bindE (reconcileBindings r sv targets clusterIP) (\<lambda>bindings.
     returnE (\<lparr>nbNamespace = ns, nbPVCName = ConsumerPVCName sv, nbPhase = phase\<rparr> # bindings)))"

subsection \<open>Stale bindings\<close>

fun cleanupPVs ::
  "('w, 'b) SharedVolumeReconciler_scheme \<Rightarrow> SharedVolume \<Rightarrow> string list \<Rightarrow> PersistentVolume list
   \<Rightarrow> ('w, unit) prog" where
  "cleanupPVs r sv targets [] = returnE ()"
| "cleanupPVs r sv targets (pv # pvs) =
     (case pvClaimRef (pvSpec pv) of
        None \<Rightarrow> cleanupPVs r sv targets pvs
      | Some ref \<Rightarrow>
          if refNamespace ref \<in> set targets then cleanupPVs r sv targets pvs
          else
            let dropPV = bindE (ignoring IsNotFound
                  (deleteObject r KPV (ObjectKeyFromObject (OPV pv)) DefaultPropagation))
                  (\<lambda>_. cleanupPVs r sv targets pvs) in
            switchE (getObject r KPVC asPVC (refNamespace ref, refName ref))
              (\<lambda>e. if \<not> IsNotFound e then throwE e else dropPV)
              (\<lambda>pvc.
                 if mapGet (omLabels (pvcMeta pvc)) LabelSharedVolume = svName sv then
                   bindE (if IsZero (omDeletionTimestamp (pvcMeta pvc))
                          then ignoring IsNotFound (deleteObject r KPVC
                                 (ObjectKeyFromObject (OPVC pvc)) DefaultPropagation)
                          else returnE ())
                     (\<lambda>_. cleanupPVs r sv targets pvs)
                 else dropPV))"

definition cleanupStaleBindings ::
  "('w, 'b) SharedVolumeReconciler_scheme \<Rightarrow> SharedVolume \<Rightarrow> string list \<Rightarrow> ('w, unit) prog" where
  "cleanupStaleBindings r sv targets =
     bindE (listObjects r KPV asPV (MatchingLabels LabelSharedVolume (svName sv)))
       (cleanupPVs r sv targets)"

subsection \<open>The targets are the existing, non-terminating selected namespaces\<close>

definition namedTarget :: "history \<Rightarrow> string \<Rightarrow> bool" where
  "namedTarget h n = (\<exists>ns. (Get KNamespace ('''', n), Returned (ONamespace ns)) \<in> set h
     \<and> IsZero (omDeletionTimestamp (nsMeta ns)))"

definition selectedTarget :: "history \<Rightarrow> string \<Rightarrow> bool" where
  "selectedTarget h n = (\<exists>opt xs ns. (ListObjects KNamespace opt, Items xs) \<in> set h \<and> ONamespace ns \<in> set xs
     \<and> IsZero (omDeletionTimestamp (nsMeta ns)) \<and> omName (nsMeta ns) = n)"

lemma namedTarget_simps [simp]:
  "\<not> namedTarget [] n"
  "namedTarget (h @ h') n = (namedTarget h n \<or> namedTarget h' n)"
  "namedTarget [(Get KNamespace ('''', m), rep)] n =
     (n = m \<and> (\<exists>ns. rep = Returned (ONamespace ns) \<and> IsZero (omDeletionTimestamp (nsMeta ns))))"
  "namedTarget ((ListObjects k opt, rep) # h) n = namedTarget h n"
  by (auto simp: namedTarget_def)

lemma wp_collectNamed:
  fixes r :: "('w, 'b) SharedVolumeReconciler_scheme"
  shows "wp (collectNamed r names keys)
     (\<lambda>ks s'. \<exists>h. trace s' = h @ trace s \<and> (\<forall>c \<in> set h. \<exists>key. fst c = Get KNamespace key)
        \<and> (distinct keys \<longrightarrow> distinct ks) \<and> set ks = set keys \<union> {n. namedTarget h n})
     (\<lambda>_ _. True) s"
proof (induction names arbitrary: keys s)
  case Nil
  show ?case by (auto simp: wp_simps)
next
  case (Cons n names)
  define Q where "Q = (\<lambda>ks (s' :: 'w run). \<exists>h. trace s' = h @ trace s \<and> (\<forall>c \<in> set h. \<exists>key. fst c = Get KNamespace key)
      \<and> (distinct keys \<longrightarrow> distinct ks) \<and> set ks = set keys \<union> {n. namedTarget h n})"
  have step: "wp (collectNamed r names keys') Q (\<lambda>_ _. True) (after s (Get KNamespace ('''', n)) rep w)"
    if "set keys' = set keys \<union> {m. namedTarget [(Get KNamespace ('''', n), rep)] m}"
      "distinct keys \<longrightarrow> distinct keys'" for keys' rep w
  proof (rule wp_mono [OF Cons.IH], unfold Q_def)
    fix ks s'
    let ?s = "after s (Get KNamespace ('''', n)) rep w"
    assume "\<exists>h. trace s' = h @ trace ?s \<and> (\<forall>c \<in> set h. \<exists>key. fst c = Get KNamespace key)
      \<and> (distinct keys' \<longrightarrow> distinct ks) \<and> set ks = set keys' \<union> {n. namedTarget h n}"
    then obtain h where h: "trace s' = h @ trace ?s" "\<forall>c \<in> set h. \<exists>key. fst c = Get KNamespace key"
      "distinct keys' \<longrightarrow> distinct ks" "set ks = set keys' \<union> {n. namedTarget h n}" by blast
    then show "\<exists>h. trace s' = h @ trace s \<and> (\<forall>c \<in> set h. \<exists>key. fst c = Get KNamespace key)
      \<and> (distinct keys \<longrightarrow> distinct ks) \<and> set ks = set keys \<union> {n. namedTarget h n}"
      using that by (intro exI [of _ "h @ [(Get KNamespace ('''', n), rep)]"]) auto
  qed simp
  have "wp (collectNamed r (n # names) keys) Q (\<lambda>_ _. True) s"
    by (auto simp: wp_simps intro!: wp_getObject step split: if_splits)
  then show ?case by (simp add: Q_def)
qed

lemma set_collectSelected:
  "set (collectSelected nss keys) =
     set keys \<union> {omName (nsMeta ns) |ns. ns \<in> set nss \<and> IsZero (omDeletionTimestamp (nsMeta ns))}"
  by (induction nss arbitrary: keys) auto

lemma distinct_collectSelected: "distinct keys \<Longrightarrow> distinct (collectSelected nss keys)"
  by (induction nss arbitrary: keys) auto

lemma those_map_asNamespace: "those (map asNamespace xs) = Some nss \<Longrightarrow> ONamespace ns \<in> set xs \<longleftrightarrow> ns \<in> set nss"
proof (induction xs arbitrary: nss)
  case (Cons x xs)
  then show ?case by (auto split: option.splits)
qed simp

lemma selectedTarget_gets: "\<forall>c \<in> set h. \<exists>key. fst c = Get KNamespace key \<Longrightarrow> \<not> selectedTarget h n"
  by (fastforce simp: selectedTarget_def)

lemma selectedTarget_list:
  assumes "\<forall>c \<in> set h. \<exists>key. fst c = Get KNamespace key" "those (map asNamespace xs) = Some nss"
  shows "selectedTarget ((ListObjects KNamespace opt, Items xs) # h) n \<longleftrightarrow>
    (\<exists>ns \<in> set nss. IsZero (omDeletionTimestamp (nsMeta ns)) \<and> omName (nsMeta ns) = n)"
proof -
  have "selectedTarget ((ListObjects KNamespace opt, Items xs) # h) n \<longleftrightarrow>
      (\<exists>ns. ONamespace ns \<in> set xs \<and> IsZero (omDeletionTimestamp (nsMeta ns)) \<and> omName (nsMeta ns) = n)
      \<or> selectedTarget h n"
    unfolding selectedTarget_def by auto
  then show ?thesis
    using selectedTarget_gets [OF assms(1)] those_map_asNamespace [OF assms(2)] by auto
qed

lemma wp_targetNamespaces:
  assumes "trace s = []"
  shows "wp (targetNamespaces r sv) (\<lambda>ts s'. sorted ts \<and> distinct ts
     \<and> (\<forall>t. t \<in> set ts \<longleftrightarrow> namedTarget (trace s') t \<or> selectedTarget (trace s') t)) (\<lambda>_ _. True) s"
  unfolding targetNamespaces_def
  by (rule wp_seq [OF wp_collectNamed])
    (auto simp: assms wp_simps selectedTarget_gets selectedTarget_list set_collectSelected distinct_collectSelected
      intro!: wp_listObjects split: option.splits sum.splits)


subsection \<open>One binding per target\<close>

lemma wp_any: "wp m (\<lambda>_ _. True) (\<lambda>_ _. True) s"
  by (simp add: wp_def split: prod.splits sum.splits)

lemma wp_reconcileBindings_shape:
  "wp (reconcileBindings r sv targets ip)
     (\<lambda>bs _. map nbNamespace bs = targets \<and> list_all (\<lambda>b. nbPVCName b = ConsumerPVCName sv) bs) (\<lambda>_ _. True) s"
proof (induction targets arbitrary: s)
  case Nil
  show ?case by (simp add: wp_simps)
next
  case (Cons ns targets)
  show ?case unfolding reconcileBindings.simps
    by (rule wp_seq [OF wp_any], rule wp_seq [OF Cons.IH]) (simp add: wp_return)
qed

text \<open>The bindings that \<^verbatim>\<open>reconcileBindings\<close> reports are the target namespaces in order, each with the
  volume's claim name.\<close>

theorem reconcileBindings_targets:
  assumes "reconcileBindings r sv targets ip s = (Inr bs, s')"
  shows "map nbNamespace bs = targets \<and> list_all (\<lambda>b. nbPVCName b = ConsumerPVCName sv) bs"
  using wp_result [OF wp_reconcileBindings_shape assms] .

text \<open>The phase the last reading of the consumer claim calls for.\<close>

fun phaseOf :: "SharedVolume \<Rightarrow> reply \<Rightarrow> BindingPhase option" where
  "phaseOf sv (Failed NotFound) = Some BindingPending"
| "phaseOf sv (Returned (OPVC p)) = Some
     (if mapGet (omLabels (pvcMeta p)) LabelSharedVolume \<noteq> svName sv then BindingConflict
      else if \<not> IsZero (omDeletionTimestamp (pvcMeta p)) then BindingTerminating
      else if pvcPhase p = ClaimBound then BindingBound else BindingPending)"
| "phaseOf sv _ = None"

lemma wp_createOwned_trace:
  assumes "\<And>y c rep w. Q y (after s c rep w)" "\<And>e s'. E e s'"
  shows "wp (createOwned r sv x as) Q E s"
  using assms unfolding createOwned_def
  by (auto simp: wp_simps intro!: wp_writeObject split: sum.splits option.splits)

lemma wp_reconcileBinding_phase:
  "wp (reconcileBinding r sv ns ip)
     (\<lambda>ph s'. \<exists>rep. (Get KPVC (ns, ConsumerPVCName sv), rep) \<in> set (trace s') \<and> phaseOf sv rep = Some ph) (\<lambda>_ _. True) s"
  unfolding reconcileBinding_def Let_def
  by (rule wp_seq [OF wp_any], simp add: wp_simps BuildConsumerPVC_def ObjectKeyFromObject_def)
    (fastforce simp: wp_simps intro!: wp_getObject wp_createOwned_trace)

text \<open>C20: the phase reported for a namespace is the one its claim, as read in this pass, calls for: Bound
  only for the volume's own, live and bound claim, Conflict exactly for a claim with another label.\<close>

theorem reconcileBinding_phase:
  assumes "reconcileBinding r sv ns ip s = (Inr ph, s')"
  shows "\<exists>rep. (Get KPVC (ns, ConsumerPVCName sv), rep) \<in> set (trace s') \<and> phaseOf sv rep = Some ph"
  using wp_result [OF wp_reconcileBinding_phase assms] .

subsection \<open>Repair of a released PV\<close>

text \<open>The repair of a released PV clears the stale claim identity for good and changes nothing else: the
  repaired PV needs no further repair, keeps its key, its NFS source and the claim it is reserved for.\<close>

theorem repairPV_correct:
  "\<not> needsRepair (repairPV pv) \<and> repairPV (repairPV pv) = repairPV pv
   \<and> pvMeta (repairPV pv) = pvMeta pv \<and> pvNFS (pvSpec (repairPV pv)) = pvNFS (pvSpec pv)
   \<and> map_option (\<lambda>ref. (refNamespace ref, refName ref)) (pvClaimRef (pvSpec (repairPV pv)))
     = map_option (\<lambda>ref. (refNamespace ref, refName ref)) (pvClaimRef (pvSpec pv))"
  by (cases "pvClaimRef (pvSpec pv)") (simp_all add: needsRepair_def repairPV_def)

end
