(* ===== verification/Teardown.thy ===== *)
theory Teardown
  imports Traces
begin

text \<open>
  \<^verbatim>\<open>reconcileDelete\<close> of \<^verbatim>\<open>internal/controller/sharedvolume_controller.go\<close>: the ordered teardown behind the
  finalizer. Consumer claims go first, then their PVs, then the server stack, then the backing PVC as
  the reclaim policy says, and only then the finalizer.
\<close>

definition finalizerName :: string where "finalizerName = ''nfsz.dev/teardown''"
definition AnnotationRetained :: string where "AnnotationRetained = ''nfsz.dev/retained-from''"

record Result =
  resRequeue :: bool
  resRequeueAfter :: int

definition doneResult :: Result where
  "doneResult = \<lparr>resRequeue = False, resRequeueAfter = 0\<rparr>"

text \<open>\<^verbatim>\<open>5 * time.Second\<close>, in nanoseconds\<close>

definition requeueDelay :: int where "requeueDelay = 5 * 1000000000"

definition setPhase :: "SharedVolume \<Rightarrow> SharedVolumePhase \<Rightarrow> SharedVolume" where
  "setPhase sv p = sv\<lparr>svStatus := (svStatus sv)\<lparr>stPhase := p\<rparr>\<rparr>"

definition setFinalizers :: "SharedVolume \<Rightarrow> string list \<Rightarrow> SharedVolume" where
  "setFinalizers sv fs = sv\<lparr>svMeta := (svMeta sv)\<lparr>omFinalizers := fs\<rparr>\<rparr>"

text \<open>The loop over the volume's PVs (lines 626 to 648); the result counts the claims still present.\<close>

fun drainPVs ::
  "('w, 'b) SharedVolumeReconciler_scheme \<Rightarrow> SharedVolume \<Rightarrow> PersistentVolume list \<Rightarrow> nat
   \<Rightarrow> ('w, nat) prog" where
  "drainPVs r sv [] remaining = returnE remaining"
| "drainPVs r sv (pv # pvs) remaining =
     (let dropPV = bindE (ignoring IsNotFound
            (deleteObject r KPV (ObjectKeyFromObject (OPV pv)) DefaultPropagation))
            (\<lambda>_. drainPVs r sv pvs remaining) in
      case pvClaimRef (pvSpec pv) of
        None \<Rightarrow> dropPV
      | Some ref \<Rightarrow>
          switchE (getObject r KPVC asPVC (refNamespace ref, refName ref))
            (\<lambda>e. if \<not> IsNotFound e then throwE e else dropPV)
            (\<lambda>pvc.
               if mapGet (omLabels (pvcMeta pvc)) LabelSharedVolume = svName sv then
                 bindE (if IsZero (omDeletionTimestamp (pvcMeta pvc))
                        then ignoring IsNotFound (deleteObject r KPVC
                               (ObjectKeyFromObject (OPVC pvc)) DefaultPropagation)
                        else returnE ())
                   (\<lambda>_. drainPVs r sv pvs (Suc remaining))
               else dropPV))"

definition serverStack :: "('w, 'b) SharedVolumeReconciler_scheme \<Rightarrow> SharedVolume \<Rightarrow> (kind \<times> NamespacedName) list" where
  "serverStack r sv = [
     (KNetworkPolicy, (OperatorNamespace r, ServerName sv)),
     (KDeployment, (OperatorNamespace r, ServerName sv)),
     (KService, (OperatorNamespace r, ServerName sv)),
     (KConfigMap, (OperatorNamespace r, ConfigMapName sv)),
     (KCronJob, (OperatorNamespace r, BackupCronJobName sv)),
     (KJob, (OperatorNamespace r, SeedJobName sv))]"

fun deleteStack ::
  "('w, 'b) SharedVolumeReconciler_scheme \<Rightarrow> (kind \<times> NamespacedName) list \<Rightarrow> ('w, unit) prog" where
  "deleteStack r [] = returnE ()"
| "deleteStack r ((k, key) # xs) =
     bindE (ignoring IsNotFound (deleteObject r k key PropagationBackground)) (\<lambda>_. deleteStack r xs)"

definition retainBacking :: "SharedVolume \<Rightarrow> PersistentVolumeClaim \<Rightarrow> PersistentVolumeClaim" where
  "retainBacking sv backing = backing\<lparr>pvcMeta := (pvcMeta backing)\<lparr>
     omAnnotations := (omAnnotations (pvcMeta backing))(AnnotationRetained \<mapsto> svName sv),
     omOwnerReferences := []\<rparr>\<rparr>"

text \<open>The backing PVC (lines 672 to 697).\<close>

definition releaseBacking ::
  "('w, 'b) SharedVolumeReconciler_scheme \<Rightarrow> SharedVolume \<Rightarrow> ('w, unit) prog" where
  "releaseBacking r sv =
     switchE (getObject r KPVC asPVC (OperatorNamespace r, BackingPVCName sv))
       (\<lambda>e. if \<not> IsNotFound e then throwE e else returnE ())
       (\<lambda>backing.
          if specReclaimPolicy (svSpec sv) = ReclaimRetain then
            (if mapGet (omAnnotations (pvcMeta backing)) AnnotationRetained = ''''
             then bindE (writeObject r (Update (OPVC (retainBacking sv backing))) asPVC) (\<lambda>_. returnE ())
             else returnE ())
          else if IsZero (omDeletionTimestamp (pvcMeta backing))
          then ignoring IsNotFound (deleteObject r KPVC (ObjectKeyFromObject (OPVC backing))
                 DefaultPropagation)
          else returnE ())"

definition markTerminating ::
  "('w, 'b) SharedVolumeReconciler_scheme \<Rightarrow> SharedVolume \<Rightarrow> ('w, SharedVolume) prog" where
  "markTerminating r sv =
     (if stPhase (svStatus sv) \<noteq> PhaseTerminating then
        (let sv' = setPhase sv PhaseTerminating in
         switchE (writeObject r (StatusUpdate (OSharedVolume sv')) asSharedVolume)
           (\<lambda>e. if IsConflict e then returnE sv' else throwE e)
           returnE)
      else returnE sv)"

text \<open>Once no claim remains (lines 658 to 700): the server stack, the backing PVC, the finalizer.\<close>

definition finishTeardown ::
  "('w, 'b) SharedVolumeReconciler_scheme \<Rightarrow> SharedVolume \<Rightarrow> ('w, Result) prog" where
  "finishTeardown r sv =
     bindE (deleteStack r (serverStack r sv)) (\<lambda>_.
     bindE (releaseBacking r sv) (\<lambda>_.
     bindE (writeObject r (Update (OSharedVolume
         (setFinalizers sv (removeFinalizer r (omFinalizers (svMeta sv)) finalizerName))))
         asSharedVolume) (\<lambda>_.
     returnE doneResult)))"

text \<open>From the list of PVs on (lines 622 to 700).\<close>

definition teardown ::
  "('w, 'b) SharedVolumeReconciler_scheme \<Rightarrow> SharedVolume \<Rightarrow> ('w, Result) prog" where
  "teardown r sv =
     bindE (listObjects r KPV asPV (MatchingLabels LabelSharedVolume (svName sv))) (\<lambda>pvs.
     bindE (drainPVs r sv pvs 0) (\<lambda>remaining.
     if 0 < remaining then returnE (doneResult\<lparr>resRequeueAfter := requeueDelay\<rparr>)
     else finishTeardown r sv))"

definition reconcileDelete ::
  "('w, 'b) SharedVolumeReconciler_scheme \<Rightarrow> SharedVolume \<Rightarrow> ('w, Result) prog" where
  "reconcileDelete r sv =
     (if \<not> containsFinalizer r (omFinalizers (svMeta sv)) finalizerName then returnE doneResult
      else bindE (markTerminating r sv) (teardown r))"

subsection \<open>The reclaim policy\<close>

text \<open>C22: with reclaim policy Retain the teardown never deletes the backing claim: it only writes it back detached
  from its owner and marked with the volume's name, with its spec untouched. With any other policy it
  never writes it back.\<close>

theorem releaseBacking_reclaim:
  "emits (\<lambda>c. (\<exists>k key. c = Get k key) \<or>
       (if specReclaimPolicy (svSpec sv) = ReclaimRetain
        then \<exists>p. c = Update (OPVC (retainBacking sv p)) \<and> pvcSpec (retainBacking sv p) = pvcSpec p
          \<and> omOwnerReferences (pvcMeta (retainBacking sv p)) = []
          \<and> mapGet (omAnnotations (pvcMeta (retainBacking sv p))) AnnotationRetained = svName sv
        else \<exists>key. c = Delete KPVC key DefaultPropagation)) (releaseBacking r sv)"
  unfolding releaseBacking_def
  by (intro emits_rules) (auto simp: retainBacking_def)

end
