(* ===== verification/Status.thy ===== *)
theory Status
  imports Traces
begin

text \<open>
  \<^verbatim>\<open>updateStatus\<close>, \<^verbatim>\<open>boolToCondition\<close> and \<^verbatim>\<open>ifElse\<close> of
  \<^verbatim>\<open>internal/controller/sharedvolume_controller.go\<close>: the phase, the summary, the endpoint and the
  conditions rolled up from one reconcile. \<open>newStatus\<close> is the part before the status write.
\<close>

definition boolToCondition :: "bool \<Rightarrow> ConditionStatus" where
  "boolToCondition b = (if b then ConditionTrue else ConditionFalse)"

definition ifElse :: "bool \<Rightarrow> string \<Rightarrow> string \<Rightarrow> string" where
  "ifElse cond t f = (if cond then t else f)"

fun tallyBindings :: "NamespaceBinding list \<Rightarrow> nat \<Rightarrow> bool \<Rightarrow> nat \<times> bool" where
  "tallyBindings [] bound conflict = (bound, conflict)"
| "tallyBindings (b # bs) bound conflict =
     (case nbPhase b of
        BindingBound \<Rightarrow> tallyBindings bs (Suc bound) conflict
      | BindingConflict \<Rightarrow> tallyBindings bs bound True
      | _ \<Rightarrow> tallyBindings bs bound conflict)"

definition statusPhase :: "bool \<Rightarrow> string \<Rightarrow> bool \<Rightarrow> nat \<Rightarrow> nat \<Rightarrow> SharedVolumePhase" where
  "statusPhase conflict clusterIP serverReady bound count =
     (if conflict then PhaseDegraded
      else if clusterIP = '''' \<or> \<not> serverReady then PhaseProvisioning
      else if 0 < count \<and> bound = count then PhaseReady
      else PhaseProvisioning)"

definition serverReadyCondition :: "SharedVolume \<Rightarrow> bool \<Rightarrow> Condition" where
  "serverReadyCondition sv serverReady = \<lparr>cType = ConditionServerReady,
     cStatus = boolToCondition serverReady, cObservedGeneration = svGeneration sv,
     cLastTransitionTime = 0,
     cReason = ifElse serverReady ''ServerRunning'' ''ServerStarting'',
     cMessage = ifElse serverReady ''NFS server is serving'' ''NFS server pod is not ready''\<rparr>"

definition allBoundCondition :: "SharedVolume \<Rightarrow> nat \<Rightarrow> nat \<Rightarrow> Condition" where
  "allBoundCondition sv bound count = \<lparr>cType = ConditionAllBound,
     cStatus = boolToCondition (0 < count \<and> bound = count), cObservedGeneration = svGeneration sv,
     cLastTransitionTime = 0,
     cReason = ifElse (bound = count \<and> 0 < count) ''AllBound'' ''NotAllBound'',
     cMessage = dec bound @ '' of '' @ dec count @ '' target namespaces bound''\<rparr>"

definition newStatus ::
  "('w, 'b) SharedVolumeReconciler_scheme \<Rightarrow> 'w \<Rightarrow> SharedVolume \<Rightarrow> string \<Rightarrow> bool
   \<Rightarrow> NamespaceBinding list \<Rightarrow> SharedVolume" where
  "newStatus r w sv clusterIP serverReady bindings =
     (let (bound, conflict) = tallyBindings bindings 0 False;
          count = length bindings;
          st = (svStatus sv)\<lparr>
            stObservedGeneration := svGeneration sv,
            stBindings := bindings,
            stBoundSummary := dec bound @ ''/'' @ dec count,
            stBackingPVC := OperatorNamespace r @ ''/'' @ BackingPVCName sv,
            stServerEndpoint := (if clusterIP \<noteq> '''' then ServerEndpoint clusterIP
                                 else stServerEndpoint (svStatus sv)),
            stPhase := statusPhase conflict clusterIP serverReady bound count\<rparr>;
          cs = snd (setStatusCondition r w (stConditions st) (serverReadyCondition sv serverReady));
          cs' = snd (setStatusCondition r w cs (allBoundCondition sv bound count))
      in sv\<lparr>svStatus := st\<lparr>stConditions := cs'\<rparr>\<rparr>)"

definition updateStatus ::
  "('w, 'b) SharedVolumeReconciler_scheme \<Rightarrow> SharedVolume \<Rightarrow> string \<Rightarrow> bool
   \<Rightarrow> NamespaceBinding list \<Rightarrow> ('w, unit) prog" where
  "updateStatus r sv clusterIP serverReady bindings =
     bindE readWorld (\<lambda>w.
     bindE (writeObject r (StatusUpdate (OSharedVolume (newStatus r w sv clusterIP serverReady bindings)))
       asSharedVolume) (\<lambda>_. returnE ()))"

subsection \<open>What the status says\<close>

definition boundCount :: "NamespaceBinding list \<Rightarrow> nat" where
  "boundCount bs = length (filter (\<lambda>b. nbPhase b = BindingBound) bs)"

definition allBound :: "NamespaceBinding list \<Rightarrow> bool" where
  "allBound bs = (bs \<noteq> [] \<and> list_all (\<lambda>b. nbPhase b = BindingBound) bs)"

lemma tallyBindings_eq:
  "tallyBindings bs n c = (n + boundCount bs, c \<or> list_ex (\<lambda>b. nbPhase b = BindingConflict) bs)"
  by (induction bs arbitrary: n c) (auto simp: boundCount_def split: BindingPhase.splits)

lemma boundCount_full: "boundCount bs = length bs \<longleftrightarrow> list_all (\<lambda>b. nbPhase b = BindingBound) bs"
  unfolding boundCount_def list_all_iff
  by (metis (mono_tags, lifting) filter_True length_filter_less nat_neq_iff)

lemma allBound_count: "0 < length bs \<and> boundCount bs = length bs \<longleftrightarrow> allBound bs"
  by (simp add: boundCount_full allBound_def)

lemma svConditions_newStatus:
  "svConditions (newStatus r w sv ip ready bs) =
     snd (setStatusCondition r w (snd (setStatusCondition r w (svConditions sv) (serverReadyCondition sv ready)))
       (allBoundCondition sv (boundCount bs) (length bs)))"
  by (simp add: newStatus_def tallyBindings_eq Let_def)

text \<open>C18: the reported phase is decided by the bindings alone once a conflict is present, and is \<^verbatim>\<open>Ready\<close> exactly
  when the Service has an address, the server is ready and there is at least one target, all of them bound.\<close>

theorem newStatus_phase:
  "stPhase (svStatus (newStatus r w sv ip ready bs)) =
     (if list_ex (\<lambda>b. nbPhase b = BindingConflict) bs then PhaseDegraded
      else if ip \<noteq> '''' \<and> ready \<and> allBound bs then PhaseReady
      else PhaseProvisioning)"
  using allBound_count [of bs]
  by (auto simp: newStatus_def tallyBindings_eq statusPhase_def Let_def)

end
