(* ===== verification/Reconcile.thy ===== *)
theory Reconcile
  imports Backup Policy Bindings Teardown Status
begin

text \<open>
  \<^verbatim>\<open>SharedVolumeReconciler.Reconcile\<close>: one pass over one SharedVolume, composed from the components the
  way the Go code composes them.
\<close>

text \<open>Adding the finalizer (lines 101 to 105): the update's reply replaces the local object.\<close>

definition ensureFinalizer ::
  "('w, 'b) SharedVolumeReconciler_scheme \<Rightarrow> SharedVolume \<Rightarrow> ('w, SharedVolume) prog" where
  "ensureFinalizer r sv =
     (case addFinalizer r (omFinalizers (svMeta sv)) finalizerName of (changed, fs) \<Rightarrow>
      if changed then writeObject r (Update (OSharedVolume (setFinalizers sv fs))) asSharedVolume
      else returnE (setFinalizers sv fs))"

text \<open>The bindings step (lines 118 to 127): skipped until the Service has a ClusterIP.\<close>

definition bindingsStep ::
  "('w, 'b) SharedVolumeReconciler_scheme \<Rightarrow> SharedVolume \<Rightarrow> string list \<Rightarrow> string
   \<Rightarrow> ('w, NamespaceBinding list) prog" where
  "bindingsStep r sv targets clusterIP =
     (if clusterIP \<noteq> '''' then
        bindE (reconcileBindings r sv targets clusterIP) (\<lambda>bindings.
        bindE (cleanupStaleBindings r sv targets) (\<lambda>_. returnE bindings))
      else returnE [])"

definition reconcileLive ::
  "('w, 'b) SharedVolumeReconciler_scheme \<Rightarrow> SharedVolume \<Rightarrow> ('w, Result) prog" where
  "reconcileLive r sv =
     bindE (ensureFinalizer r sv) (\<lambda>sv.
     bindE (reconcileServer r sv) (\<lambda>(clusterIP, serverReady, sv).
     bindE (targetNamespaces r sv) (\<lambda>targets.
     bindE (bindingsStep r sv targets clusterIP) (\<lambda>bindings.
     bindE (reconcileNetworkPolicy r sv targets) (\<lambda>_.
     bindE (reconcileBackup r sv) (\<lambda>sv.
     switchE (updateStatus r sv clusterIP serverReady bindings)
       (\<lambda>e. if IsConflict e then returnE (doneResult\<lparr>resRequeue := True\<rparr>) else throwE e)
       (\<lambda>_. returnE doneResult)))))))"

definition Reconcile ::
  "('w, 'b) SharedVolumeReconciler_scheme \<Rightarrow> NamespacedName \<Rightarrow> ('w, Result) prog" where
  "Reconcile r req =
     switchE (getObject r KSharedVolume asSharedVolume req)
       (\<lambda>e. if IsNotFound e then returnE doneResult else throwE e)
       (\<lambda>sv. if \<not> IsZero (omDeletionTimestamp (svMeta sv)) then reconcileDelete r sv
             else reconcileLive r sv)"

end
