(* ===== verification/Contract.thy ===== *)
theory Contract
  imports Reconcile
begin

text \<open>
  The abstract specification of the operator's effects. \<open>contract r sv h c\<close> says when the operator may
  issue call \<open>c\<close> for the volume \<open>sv\<close> after the history \<open>h\<close> of the same reconcile: reads are free, and every
  write is justified by a reply already received. The locale \<open>operator_env\<close> states what is assumed of the
  code outside the repository; within it, every component is shown to keep the contract whatever the API
  server replies, and so is \<open>Reconcile\<close>.
\<close>

subsection \<open>Justifying replies\<close>

text \<open>The reply of the latest read of an object, if the operator has written nothing since.\<close>

fun lastGet :: "history \<Rightarrow> kind \<Rightarrow> NamespacedName \<Rightarrow> reply option" where
  "lastGet [] k key = None"
| "lastGet ((Get k' key', rep) # h) k key = (if k' = k \<and> key' = key then Some rep else lastGet h k key)"
| "lastGet ((ListObjects _ _, _) # h) k key = lastGet h k key"
| "lastGet ((Eventf _, _) # h) k key = lastGet h k key"
| "lastGet (_ # h) k key = None"

text \<open>A claim that does not hold this volume: gone, or not labelled with its name.\<close>

definition notOurs :: "SharedVolume \<Rightarrow> reply \<Rightarrow> bool" where
  "notOurs sv rep = (rep = Failed NotFound \<or>
     (\<exists>p. rep = Returned (OPVC p) \<and> mapGet (omLabels (pvcMeta p)) LabelSharedVolume \<noteq> svName sv))"

definition listedPV :: "SharedVolume \<Rightarrow> history \<Rightarrow> PersistentVolume \<Rightarrow> bool" where
  "listedPV sv h pv = (\<exists>xs. (ListObjects KPV (MatchingLabels LabelSharedVolume (svName sv)), Items xs) \<in> set h
     \<and> OPV pv \<in> set xs)"

definition claimGone :: "SharedVolume \<Rightarrow> history \<Rightarrow> PersistentVolume \<Rightarrow> bool" where
  "claimGone sv h pv = (case pvClaimRef (pvSpec pv) of None \<Rightarrow> True
     | Some ref \<Rightarrow> (\<exists>rep. (Get KPVC (refNamespace ref, refName ref), rep) \<in> set h \<and> notOurs sv rep))"

text \<open>The same of the latest read, with no write since.\<close>

definition claimFree :: "SharedVolume \<Rightarrow> history \<Rightarrow> PersistentVolume \<Rightarrow> bool" where
  "claimFree sv h pv = (case pvClaimRef (pvSpec pv) of None \<Rightarrow> True
     | Some ref \<Rightarrow> (\<exists>rep. lastGet h KPVC (refNamespace ref, refName ref) = Some rep \<and> notOurs sv rep))"

text \<open>All of the volume's PVs were listed and none of their claims holds the volume any more.\<close>

definition drained :: "SharedVolume \<Rightarrow> history \<Rightarrow> bool" where
  "drained sv h = (\<exists>xs. (ListObjects KPV (MatchingLabels LabelSharedVolume (svName sv)), Items xs) \<in> set h
     \<and> (\<forall>pv. OPV pv \<in> set xs \<longrightarrow> claimGone sv h pv))"

definition succeeded :: "reply \<Rightarrow> bool" where
  "succeeded rep = (\<forall>e. rep = Failed e \<longrightarrow> e = NotFound)"

definition stackDeleted :: "('w, 'b) SharedVolumeReconciler_scheme \<Rightarrow> SharedVolume \<Rightarrow> history \<Rightarrow> bool" where
  "stackDeleted r sv h = (\<forall>(k, key) \<in> set (serverStack r sv).
     \<exists>rep. (Delete k key PropagationBackground, rep) \<in> set h \<and> succeeded rep)"

definition backingKey :: "('w, 'b) SharedVolumeReconciler_scheme \<Rightarrow> SharedVolume \<Rightarrow> NamespacedName" where
  "backingKey r sv = (OperatorNamespace r, BackingPVCName sv)"

text \<open>The backing PVC is gone, on its way out, or kept on purpose.\<close>

definition backingSettled :: "('w, 'b) SharedVolumeReconciler_scheme \<Rightarrow> SharedVolume \<Rightarrow> history \<Rightarrow> bool" where
  "backingSettled r sv h =
     ((Get KPVC (backingKey r sv), Failed NotFound) \<in> set h \<or>
      (\<exists>p. (Get KPVC (backingKey r sv), Returned (OPVC p)) \<in> set h \<and>
         (mapGet (omAnnotations (pvcMeta p)) AnnotationRetained \<noteq> ''''
          \<or> \<not> IsZero (omDeletionTimestamp (pvcMeta p))
          \<or> (\<exists>p'. (Update (OPVC (retainBacking sv p)), Returned (OPVC p')) \<in> set h)
          \<or> (\<exists>rep. (Delete KPVC (backingKey r sv) DefaultPropagation, rep) \<in> set h \<and> succeeded rep))))"

subsection \<open>The contract\<close>

definition mayCreate :: "SharedVolume \<Rightarrow> history \<Rightarrow> obj \<Rightarrow> bool" where
  "mayCreate sv h x = (lastGet h (objKind x) (ObjectKeyFromObject x) = Some (Failed NotFound)
     \<and> mapGet (omLabels (objMeta x)) LabelSharedVolume = svName sv
     \<and> objKind x \<in> {KPVC, KPV, KConfigMap, KDeployment, KService, KJob, KCronJob, KNetworkPolicy})"

fun mayUpdate :: "('w, 'b) SharedVolumeReconciler_scheme \<Rightarrow> SharedVolume \<Rightarrow> history \<Rightarrow> obj \<Rightarrow> bool" where
  "mayUpdate r sv h (OSharedVolume y) =
     (svName y = svName sv \<and>
      ((\<exists>x. lastGet h KSharedVolume (ObjectKeyFromObject (OSharedVolume y)) = Some (Returned (OSharedVolume x))
          \<and> IsZero (omDeletionTimestamp (svMeta x))
          \<and> y = setFinalizers x (snd (addFinalizer r (omFinalizers (svMeta x)) finalizerName)))
       \<or> (drained sv h \<and> stackDeleted r sv h \<and> backingSettled r sv h)))"
| "mayUpdate r sv h (OConfigMap y) =
     (\<exists>x. lastGet h KConfigMap (OperatorNamespace r, ConfigMapName sv) = Some (Returned (OConfigMap x))
        \<and> mapGet (cmData x) ''ganesha.conf'' \<noteq> Config
        \<and> y = x\<lparr>cmData := cmData (BuildConfigMap sv (OperatorNamespace r))\<rparr>)"
| "mayUpdate r sv h (ODeployment y) =
     (\<exists>x. lastGet h KDeployment (OperatorNamespace r, ServerName sv) = Some (Returned (ODeployment x))
        \<and> deploymentDrifted (depTemplate (depSpec x)) (depTemplate (depSpec y)) = Inr True
        \<and> y = x\<lparr>depSpec := (depSpec x)\<lparr>depTemplate := depTemplate (depSpec y)\<rparr>\<rparr>)"
| "mayUpdate r sv h (OPV y) =
     (\<exists>x. lastGet h KPV (ObjectKeyFromObject (OPV y)) = Some (Returned (OPV x))
        \<and> needsRepair x \<and> y = repairPV x)"
| "mayUpdate r sv h (OPVC y) =
     (\<exists>x. lastGet h KPVC (backingKey r sv) = Some (Returned (OPVC x))
        \<and> mapGet (omAnnotations (pvcMeta x)) AnnotationRetained = ''''
        \<and> y = retainBacking sv x)"
| "mayUpdate r sv h (OCronJob y) =
     (\<exists>x. lastGet h KCronJob (OperatorNamespace r, BackupCronJobName sv) = Some (Returned (OCronJob x))
        \<and> y = x\<lparr>cjSpec := cjSpec y\<rparr>)"
| "mayUpdate r sv h (ONetworkPolicy y) =
     (\<exists>x. lastGet h KNetworkPolicy (OperatorNamespace r, ServerName sv) = Some (Returned (ONetworkPolicy x))
        \<and> \<not> semanticDeepEqual r (npSpec x) (npSpec y) \<and> y = x\<lparr>npSpec := npSpec y\<rparr>)"
| "mayUpdate r sv h _ = False"

fun mayDelete ::
  "('w, 'b) SharedVolumeReconciler_scheme \<Rightarrow> SharedVolume \<Rightarrow> history \<Rightarrow> kind \<Rightarrow> NamespacedName \<Rightarrow> bool" where
  "mayDelete r sv h KPVC key =
     (\<exists>p. lastGet h KPVC key = Some (Returned (OPVC p)) \<and> IsZero (omDeletionTimestamp (pvcMeta p))
        \<and> (mapGet (omLabels (pvcMeta p)) LabelSharedVolume = svName sv \<or> key = backingKey r sv))"
| "mayDelete r sv h KPV key =
     (\<exists>pv. listedPV sv h pv \<and> key = ObjectKeyFromObject (OPV pv) \<and> claimFree sv h pv)"
| "mayDelete r sv h k key =
     ((k, key) \<in> set (serverStack r sv) \<and>
      (drained sv h \<or> (k \<in> {KNetworkPolicy, KCronJob} \<and> (\<exists>x. lastGet h k key = Some (Returned x)))))"

fun contract :: "('w, 'b) SharedVolumeReconciler_scheme \<Rightarrow> SharedVolume \<Rightarrow> history \<Rightarrow> call \<Rightarrow> bool" where
  "contract r sv h (Create x) = mayCreate sv h x"
| "contract r sv h (Update x) = mayUpdate r sv h x"
| "contract r sv h (StatusUpdate x) = (\<exists>y. x = OSharedVolume y \<and> svName y = svName sv)"
| "contract r sv h (Delete k key p) = mayDelete r sv h k key"
| "contract r sv h _ = True"

subsection \<open>Histories only grow\<close>

lemma listedPV_Cons [simp]: "listedPV sv h pv \<Longrightarrow> listedPV sv (x # h) pv"
  unfolding listedPV_def by auto

lemma claimGone_Cons [simp]: "claimGone sv h pv \<Longrightarrow> claimGone sv (x # h) pv"
  unfolding claimGone_def by (auto split: option.splits)

lemma claimGone_mono: "claimGone sv h pv \<Longrightarrow> set h \<subseteq> set h' \<Longrightarrow> claimGone sv h' pv"
  unfolding claimGone_def by (auto split: option.splits)

lemma drained_mono: "drained sv h \<Longrightarrow> set h \<subseteq> set h' \<Longrightarrow> drained sv h'"
  unfolding drained_def by (meson claimGone_mono subsetD)

lemma stackDeleted_mono: "stackDeleted r sv h \<Longrightarrow> set h \<subseteq> set h' \<Longrightarrow> stackDeleted r sv h'"
  unfolding stackDeleted_def by fastforce

lemma drained_Cons [simp]: "drained sv h \<Longrightarrow> drained sv (x # h)"
  by (erule drained_mono) auto

lemma claimFree_read [simp]:
  "pvClaimRef (pvSpec pv) = None \<Longrightarrow> claimFree sv h pv"
  "pvClaimRef (pvSpec pv) = Some ref \<Longrightarrow> notOurs sv rep \<Longrightarrow>
     claimFree sv ((Get KPVC (refNamespace ref, refName ref), rep) # h) pv"
  by (simp_all add: claimFree_def)

lemma claimGone_read [simp]:
  "pvClaimRef (pvSpec pv) = None \<Longrightarrow> claimGone sv h pv"
  "pvClaimRef (pvSpec pv) = Some ref \<Longrightarrow> notOurs sv rep \<Longrightarrow>
     claimGone sv ((Get KPVC (refNamespace ref, refName ref), rep) # h) pv"
  by (auto simp: claimGone_def)

lemma notOurs_simps [simp]:
  "notOurs sv (Failed NotFound)"
  "notOurs sv (Returned (OPVC p)) = (mapGet (omLabels (pvcMeta p)) LabelSharedVolume \<noteq> svName sv)"
  by (simp_all add: notOurs_def)

lemma succeeded_Failed [simp]: "succeeded (Failed e) = (e = NotFound)"
  by (simp add: succeeded_def)

lemma succeeded_other [simp]: "\<forall>e. rep \<noteq> Failed e \<Longrightarrow> succeeded rep"
  by (simp add: succeeded_def)

lemma backingSettled_reads:
  assumes "key = backingKey r sv"
  shows "backingSettled r sv ((Get KPVC key, Failed NotFound) # h)"
    and "mapGet (omAnnotations (pvcMeta p)) AnnotationRetained \<noteq> '''' \<or> \<not> IsZero (omDeletionTimestamp (pvcMeta p))
      \<Longrightarrow> backingSettled r sv ((Get KPVC key, Returned (OPVC p)) # h)"
    and "backingSettled r sv ((Update (OPVC (retainBacking sv p)), Returned (OPVC p'))
      # (Get KPVC key, Returned (OPVC p)) # h)"
    and "succeeded rep \<Longrightarrow> backingSettled r sv ((Delete KPVC key DefaultPropagation, rep)
      # (Get KPVC key, Returned (OPVC p)) # h)"
  using assms unfolding backingSettled_def by auto

lemma mayDelete_PV:
  "listedPV sv h pv \<Longrightarrow> claimFree sv h pv \<Longrightarrow> mayDelete r sv h KPV (ObjectKeyFromObject (OPV pv))"
  by auto

declare mayDelete.simps(2) [simp del]

lemma those_map_asPV: "those (map asPV xs) = Some pvs \<Longrightarrow> OPV pv \<in> set xs \<longleftrightarrow> pv \<in> set pvs"
proof (induction xs arbitrary: pvs)
  case (Cons x xs)
  then show ?case by (auto split: option.splits)
qed simp

text \<open>The contract speaks of the volume only through its name.\<close>

lemma contract_name:
  assumes "svName sv = svName sv'"
  shows "contract r sv = contract r sv'"
proof (intro ext)
  fix h c
  have names: "ServerName sv = ServerName sv'" "ConfigMapName sv = ConfigMapName sv'"
    "BackupCronJobName sv = BackupCronJobName sv'" "SeedJobName sv = SeedJobName sv'"
    "BackingPVCName sv = BackingPVCName sv'" "BuildConfigMap sv ns = BuildConfigMap sv' ns"
    "retainBacking sv x = retainBacking sv' x" for ns x
    using assms by (simp_all add: object_names BuildConfigMap_def managedLabels_def retainBacking_def)
  have ours: "notOurs sv = notOurs sv'" "listedPV sv = listedPV sv'"
    using assms by (simp_all add: fun_eq_iff notOurs_def listedPV_def)
  have gone: "claimGone sv = claimGone sv'" "claimFree sv = claimFree sv'"
    using ours by (auto simp: claimGone_def claimFree_def intro!: ext split: option.splits)
  have preds: "drained sv = drained sv'" "serverStack r sv = serverStack r sv'"
    "backingKey r sv = backingKey r sv'" "mayCreate sv = mayCreate sv'"
    using assms names gone
    by (simp_all add: fun_eq_iff drained_def serverStack_def backingKey_def mayCreate_def)
  have upd: "mayUpdate r sv h x = mayUpdate r sv' h x" for x
    using assms names ours gone preds by (cases x) (simp_all add: stackDeleted_def backingSettled_def)
  have del: "mayDelete r sv h k key = mayDelete r sv' h k key" for k key
    using assms ours gone preds by (cases k) (simp_all add: mayDelete.simps(2))
  show "contract r sv h c = contract r sv' h c"
    using assms preds upd del by (cases c) simp_all
qed

subsection \<open>The objects of a volume\<close>

text \<open>
  The interface between the builders of \<^verbatim>\<open>resources.go\<close> and the reconcile loop. A family of objects is built
  from a volume and a namespace; every one it builds has the family's kind, lives under the family's
  name in that namespace, carries the volume's label, and the name determines the volume. The client
  may create such an object as soon as a read has shown that it does not exist, and the objects of
  different volumes never collide.
\<close>

locale volume_object =
  fixes build :: "SharedVolume \<Rightarrow> string \<Rightarrow> panic + obj"
    and k :: kind
    and name :: "SharedVolume \<Rightarrow> string"
  assumes built: "build sv ns = Inr x \<Longrightarrow> objKind x = k \<and> ObjectKeyFromObject x = (ns, name sv)
      \<and> mapGet (omLabels (objMeta x)) LabelSharedVolume = svName sv"
    and managed_kind: "k \<in> {KPVC, KPV, KConfigMap, KDeployment, KService, KJob, KCronJob, KNetworkPolicy}"
    and name_inj: "name a = name b \<Longrightarrow> svName a = svName b"
begin

lemma key: "build sv ns = Inr x \<Longrightarrow> objKind x = k" "build sv ns = Inr x \<Longrightarrow> ObjectKeyFromObject x = (ns, name sv)"
  using built by auto

lemma create_allowed:
  "build sv ns = Inr x \<Longrightarrow> lastGet h k (ns, name sv) = Some (Failed NotFound) \<Longrightarrow> mayCreate sv h x"
  using built [of sv ns x] managed_kind by (auto simp: mayCreate_def)

lemma no_collision:
  "build a ns = Inr x \<Longrightarrow> build b ns' = Inr y \<Longrightarrow> svName a \<noteq> svName b \<Longrightarrow>
     ObjectKeyFromObject x \<noteq> ObjectKeyFromObject y"
  using key(2) [of a ns x] key(2) [of b ns' y] name_inj [of a b] by auto

end

lemmas built_meta = objectMeta_simps ObjectKeyFromObject_def managedLabels_def label_names names_simps

lemma map_sum_Inr: "map_sum f g x = Inr y \<longleftrightarrow> (\<exists>z. x = Inr z \<and> y = g z)"
  by (cases x) auto

interpretation backing: volume_object "\<lambda>sv ns. Inr (OPVC (BuildBackingPVC sv ns))" KPVC BackingPVCName
  by unfold_locales (auto simp: BuildBackingPVC_def built_meta)

interpretation conf: volume_object "\<lambda>sv ns. Inr (OConfigMap (BuildConfigMap sv ns))" KConfigMap ConfigMapName
  by unfold_locales (auto simp: BuildConfigMap_def built_meta)

interpretation server: volume_object "\<lambda>sv ns. Inr (ODeployment (BuildServerDeployment sv ns img cm))" KDeployment ServerName
  for img cm
  by unfold_locales (auto simp: BuildServerDeployment_def Let_def built_meta)

interpretation service: volume_object "\<lambda>sv ns. Inr (OService (BuildService sv ns))" KService ServerName
  by unfold_locales (auto simp: BuildService_def built_meta)

interpretation claim: volume_object "\<lambda>sv ns. Inr (OPVC (BuildConsumerPVC sv ns))" KPVC ConsumerPVCName
  by unfold_locales (auto simp: BuildConsumerPVC_def built_meta)

interpretation policy: volume_object "\<lambda>sv ns. Inr (ONetworkPolicy (BuildNetworkPolicy sv ns targets ips cidrs))"
    KNetworkPolicy ServerName for targets ips cidrs
  by unfold_locales (auto simp: BuildNetworkPolicy_def Let_def built_meta)

interpretation cron: volume_object "\<lambda>sv ns. map_sum id OCronJob (BuildBackupCronJob sv ns img)" KCronJob BackupCronJobName
  for img
  by unfold_locales (auto simp: map_sum_Inr built_meta dest!: backup_meta)

interpretation seed: volume_object "\<lambda>sv ns. map_sum id OJob (BuildSeedJob sv ns img)" KJob SeedJobName for img
  by unfold_locales (auto simp: map_sum_Inr built_meta dest!: backup_meta)

lemmas built_keys = backing.key(2) [OF refl] conf.key(2) [OF refl] server.key(2) [OF refl]
  service.key(2) [OF refl] claim.key(2) [OF refl] policy.key(2) [OF refl]

lemmas built_creates = backing.create_allowed [OF refl] conf.create_allowed [OF refl]
  server.create_allowed [OF refl] service.create_allowed [OF refl] claim.create_allowed [OF refl]
  policy.create_allowed [OF refl]

lemma cron_create:
  "BuildBackupCronJob sv ns img = Inr cj \<Longrightarrow> lastGet h KCronJob (ns, BackupCronJobName sv) = Some (Failed NotFound)
     \<Longrightarrow> mayCreate sv h (OCronJob cj)"
  by (rule cron.create_allowed) (auto simp: map_sum_Inr)

lemma seed_create:
  "BuildSeedJob sv ns img = Inr job \<Longrightarrow> lastGet h KJob (ObjectKeyFromObject (OJob job)) = Some (Failed NotFound)
     \<Longrightarrow> mayCreate sv h (OJob job)"
  using seed.key(2) [of sv ns img "OJob job"] seed.create_allowed [of sv ns img "OJob job" h]
  by (simp add: map_sum_Inr)

subsection \<open>What is assumed of the environment\<close>

locale operator_env =
  fixes r :: "('w, 'b) SharedVolumeReconciler_scheme"
  assumes owner_frame: "setControllerReference r sv m = Inr m' \<Longrightarrow>
      omName m' = omName m \<and> omNamespace m' = omNamespace m \<and> omLabels m' = omLabels m"
    and get_key: "client r w (Get k key) = (Returned x, w') \<Longrightarrow> ObjectKeyFromObject x = key"
    and update_key: "client r w (Update x) = (Returned y, w') \<Longrightarrow>
      ObjectKeyFromObject y = ObjectKeyFromObject x"
    and status_key: "client r w (StatusUpdate x) = (Returned y, w') \<Longrightarrow>
      ObjectKeyFromObject y = ObjectKeyFromObject x"

end
