(* ===== verification/Compliance.thy ===== *)
theory Compliance
  imports Contract
begin

text \<open>
  Every component keeps the contract of \<open>Contract\<close>, in an arbitrary environment of the locale
  \<open>operator_env\<close>: whatever the client replies, and however the world changes between two calls.
\<close>

context operator_env
begin

abbreviation ok :: "SharedVolume \<Rightarrow> 'w run \<Rightarrow> bool" where
  "ok sv s \<equiv> obeys (contract r sv) (trace s)"

lemma wp_createOwned:
  assumes "ok sv s" "mayCreate sv (trace s) x"
    and "\<And>y s'. ok sv s' \<Longrightarrow> Q y s'" "\<And>e s'. ok sv s' \<Longrightarrow> E e s'"
  shows "wp (createOwned r sv x as) Q E s"
proof (cases "setControllerReference r sv (objMeta x)")
  case (Inl m)
  then show ?thesis using assms by (simp add: createOwned_def wp_simps)
next
  case (Inr m)
  have "mayCreate sv (trace s) (setMeta x m)"
    using assms(2) owner_frame [OF Inr] by (simp add: mayCreate_def ObjectKeyFromObject_def)
  then show ?thesis using assms(1,3,4) Inr
    by (auto simp: createOwned_def wp_simps intro!: wp_calls split: option.splits)
qed

lemma keeps_createBacking:
  "keeps (ok sv) (createIfMissing r sv (OPVC (BuildBackingPVC sv (OperatorNamespace r))) as)"
  by (intro keepsI) (auto simp: createIfMissing_def wp_simps built_keys
      intro!: wp_getObject wp_createOwned built_creates)

lemma keeps_ensureConfigMap:
  "keeps (ok sv) (ensureConfigMap r sv (BuildConfigMap sv (OperatorNamespace r)))"
  by (intro keepsI) (auto simp: ensureConfigMap_def wp_simps built_keys conf_data
      intro!: wp_getObject wp_writeObject wp_createOwned built_creates)

lemma keeps_ensureService: "keeps (ok sv) (ensureService r sv)"
  by (intro keepsI) (auto simp: ensureService_def wp_simps built_keys
      intro!: wp_getObject wp_writeObject wp_createOwned built_creates)

lemma keeps_ensureDeployment: "keeps (ok sv) (ensureDeployment r sv cm)"
  by (intro keepsI) (auto simp: ensureDeployment_def wp_simps Let_def built_keys
      intro!: wp_getObject wp_writeObject wp_createOwned built_creates split: sum.splits)

lemma keeps_reconcileNetworkPolicy: "keeps (ok sv) (reconcileNetworkPolicy r sv targets)"
  by (intro keepsI) (auto simp: reconcileNetworkPolicy_def Let_def wp_simps serverStack_def nodeIPs_def
      intro!: wp_getObject wp_createOwned wp_writeObject wp_deleteObject wp_listObjects built_creates
      dest!: get_key split: sum.splits)

lemma keeps_collectNamed: "keeps (ok sv) (collectNamed r names keys)"
proof (induction names arbitrary: keys)
  case Nil
  show ?case by (simp add: keeps_def wp_simps)
next
  case (Cons n names)
  show ?case
    by (intro keepsI) (auto simp: wp_simps intro!: wp_getObject wp_keeps [OF Cons.IH])
qed

lemma keeps_targetNamespaces: "keeps (ok sv) (targetNamespaces r sv)"
  by (intro keepsI) (auto simp: targetNamespaces_def wp_simps
      intro!: wp_listObjects wp_keeps [OF keeps_collectNamed] split: option.splits sum.splits)

lemma keeps_ensurePV: "keeps (ok sv) (ensurePV r sv ns ip)"
  by (intro keepsI) (auto simp: ensurePV_def Let_def wp_simps BuildPV_def mayCreate_def
      ObjectKeyFromObject_def managedLabels_def label_names repairPV_def
      intro!: wp_getObject wp_createOwned wp_writeObject dest!: get_key)

lemma keeps_reconcileBinding: "keeps (ok sv) (reconcileBinding r sv ns ip)"
  by (intro keepsI) (auto simp: reconcileBinding_def wp_simps Let_def built_keys
     intro!: wp_getObject wp_createOwned wp_keeps [OF keeps_ensurePV] built_creates)

lemma keeps_reconcileBindings: "keeps (ok sv) (reconcileBindings r sv targets ip)"
proof (induction targets)
  case Nil
  show ?case by (simp add: keeps_def wp_simps)
next
  case (Cons n targets)
  show ?case
    by (intro keepsI)
      (auto simp: wp_simps intro!: wp_keeps [OF keeps_reconcileBinding] wp_keeps [OF Cons.IH])
qed

lemma wp_cleanupPVs:
  assumes "ok sv s" "\<forall>pv \<in> set pvs. listedPV sv (trace s) pv"
  shows "wp (cleanupPVs r sv targets pvs) (\<lambda>_. ok sv) (\<lambda>_. ok sv) s"
  using assms
proof (induction pvs arbitrary: s)
  case Nil
  then show ?case by (simp add: wp_simps)
next
  case (Cons pv pvs)
  then show ?case
    by (auto simp: wp_simps Let_def
        intro!: wp_getObject wp_deleteObject mayDelete_PV Cons.IH dest!: get_key split: option.splits)
qed

lemma keeps_cleanupStaleBindings: "keeps (ok sv) (cleanupStaleBindings r sv targets)"
  by (intro keepsI) (auto simp: cleanupStaleBindings_def wp_simps listedPV_def those_map_asPV
      intro!: wp_listObjects wp_cleanupPVs exI)

lemma wp_drainPVs:
  assumes "ok sv s" "\<forall>pv \<in> set pvs. listedPV sv (trace s) pv"
  shows "wp (drainPVs r sv pvs n)
    (\<lambda>m s'. ok sv s' \<and> n \<le> m \<and> set (trace s) \<subseteq> set (trace s')
      \<and> (m = n \<longrightarrow> (\<forall>pv \<in> set pvs. claimGone sv (trace s') pv)))
    (\<lambda>_. ok sv) s"
  using assms
proof (induction pvs arbitrary: s n)
  case Nil
  then show ?case by (simp add: wp_simps)
next
  case (Cons pv pvs)
  define Q where "Q = (\<lambda>m s'. ok sv s' \<and> n \<le> m \<and> set (trace s) \<subseteq> set (trace s')
      \<and> (m = n \<longrightarrow> (\<forall>x \<in> set (pv # pvs). claimGone sv (trace s') x)))"
  have step: "wp (drainPVs r sv pvs m) Q (\<lambda>_. ok sv) s'"
    if "ok sv s'" "set (trace s) \<subseteq> set (trace s')" "\<forall>x \<in> set pvs. listedPV sv (trace s') x"
      "n \<le> m" "m = n \<longrightarrow> claimGone sv (trace s') pv" for s' m
    by (rule wp_mono [OF Cons.IH [OF that(1,3), of m]])
      (use that in \<open>auto simp: Q_def intro: claimGone_mono\<close>)
  have "wp (drainPVs r sv (pv # pvs) n) Q (\<lambda>_. ok sv) s"
    using Cons.prems
    by (auto simp: wp_simps Let_def
        intro!: wp_getObject wp_deleteObject mayDelete_PV step dest!: get_key split: option.splits)
  then show ?case by (simp add: Q_def)
qed

lemma wp_deleteStack:
  assumes "ok sv s" "drained sv (trace s)" "set xs \<subseteq> set (serverStack r sv)"
  shows "wp (deleteStack r xs)
    (\<lambda>_ s'. ok sv s' \<and> drained sv (trace s') \<and> set (trace s) \<subseteq> set (trace s')
       \<and> (\<forall>(k, key) \<in> set xs. \<exists>rep. (Delete k key PropagationBackground, rep) \<in> set (trace s') \<and> succeeded rep))
    (\<lambda>_. ok sv) s"
  using assms
proof (induction xs arbitrary: s)
  case Nil
  then show ?case by (simp add: wp_simps)
next
  case (Cons x xs)
  obtain k key where x: "x = (k, key)" by (cases x)
  have may: "mayDelete r sv (trace s) k key"
    using Cons.prems x by (cases k) (auto simp: serverStack_def)
  define Q where "Q = (\<lambda>(_ :: unit) s'. ok sv s' \<and> drained sv (trace s') \<and> set (trace s) \<subseteq> set (trace s')
     \<and> (\<forall>(k, key) \<in> set (x # xs).
          \<exists>rep. (Delete k key PropagationBackground, rep) \<in> set (trace s') \<and> succeeded rep))"
  have step: "wp (deleteStack r xs) Q (\<lambda>_. ok sv) (after s (Delete k key PropagationBackground) rep w)"
    if "succeeded rep" for rep w
    by (rule wp_mono [OF Cons.IH]) (use Cons.prems x may that in \<open>auto simp: Q_def\<close>)
  have "wp (deleteStack r (x # xs)) Q (\<lambda>_. ok sv) s"
    using Cons.prems x may
    by (auto simp: wp_simps intro!: wp_deleteObject step)
  then show ?case by (simp add: Q_def)
qed

lemma wp_releaseBacking:
  assumes "ok sv s"
  shows "wp (releaseBacking r sv)
    (\<lambda>_ s'. ok sv s' \<and> set (trace s) \<subseteq> set (trace s') \<and> backingSettled r sv (trace s')) (\<lambda>_. ok sv) s"
  using assms
  by (auto simp: releaseBacking_def wp_simps backingKey_def
      intro!: wp_getObject wp_writeObject wp_deleteObject backingSettled_reads dest!: get_key
     )

lemma wp_markTerminating:
  assumes "ok sv s"
  shows "wp (markTerminating r sv) (\<lambda>sv' s'. ok sv s' \<and> svName sv' = svName sv) (\<lambda>_. ok sv) s"
  using assms
  by (auto simp: markTerminating_def Let_def setPhase_def wp_simps ObjectKeyFromObject_def
      intro!: wp_writeObject dest!: status_key)


lemma ok_name: "svName sv' = svName sv \<Longrightarrow> ok sv' s = ok sv s"
  using contract_name [of sv' sv r] by simp

lemma wp_keeps_name:
  assumes "keeps (ok sv') m" "svName sv' = svName sv" "ok sv s"
    and "\<And>x s'. ok sv s' \<Longrightarrow> Q x s'" "\<And>e s'. ok sv s' \<Longrightarrow> E e s'"
  shows "wp m Q E s"
  by (rule wp_keeps [OF assms(1)]) (use assms(3-) in \<open>simp_all add: ok_name [OF assms(2)]\<close>)

lemma wp_reconcileSeed:
  assumes "ok sv s"
  shows "wp (reconcileSeed r sv) (\<lambda>x s'. ok sv s' \<and> svMeta (snd x) = svMeta sv) (\<lambda>_. ok sv) s"
proof -
  have same: "svMeta sv' = svMeta sv" if "setRestoredCondition r w sv st rsn msg = (b, sv')" for w st rsn msg b sv'
    using setRestoredCondition_frame(1) [of r w sv st rsn msg] that by simp
  show ?thesis
    using assms by (auto simp: reconcileSeed_def wp_simps intro!: wp_getObject wp_createOwned seed_create
        dest!: same split: sum.splits option.splits prod.splits)
qed

lemma wp_reconcileServer:
  assumes "ok sv s"
  shows "wp (reconcileServer r sv) (\<lambda>(_, _, sv') s'. ok sv s' \<and> svName sv' = svName sv) (\<lambda>_. ok sv) s"
  using assms unfolding reconcileServer_def
    by (auto simp: wp_simps intro!: wp_keeps [OF keeps_createBacking] wp_keeps [OF keeps_ensureConfigMap]
          wp_mono [OF wp_reconcileSeed] wp_keeps_name [where sv = sv, OF keeps_ensureDeployment]
          wp_keeps_name [where sv = sv, OF keeps_ensureService])

lemma wp_ensureFinalizer:
  assumes "ok sv s" "IsZero (omDeletionTimestamp (svMeta sv))"
    and "lastGet (trace s) KSharedVolume (ObjectKeyFromObject (OSharedVolume sv)) = Some (Returned (OSharedVolume sv))"
  shows "wp (ensureFinalizer r sv) (\<lambda>sv' s'. ok sv s' \<and> svName sv' = svName sv) (\<lambda>_. ok sv) s"
  using assms
  by (auto simp: ensureFinalizer_def wp_simps setFinalizers_def ObjectKeyFromObject_def split: prod.splits
      intro!: wp_writeObject exI [of _ sv] dest!: update_key)

lemma keeps_updateStatus: "keeps (ok sv) (updateStatus r sv ip ready bs)"
  by (intro keepsI) (auto simp: updateStatus_def wp_simps newStatus_def Let_def split: prod.splits
      intro!: wp_writeObject)

lemma wp_reconcileBackup:
  assumes "ok sv s"
  shows "wp (reconcileBackup r sv) (\<lambda>sv' s'. ok sv s' \<and> svName sv' = svName sv) (\<lambda>_. ok sv) s"
  using assms by (auto simp: reconcileBackup_def Let_def wp_simps serverStack_def setLastBackupTime_def
      intro!: wp_getObject wp_createOwned wp_writeObject wp_deleteObject cron_create
      dest!: get_key split: sum.splits)

lemma wp_finishTeardown:
  assumes "ok sv s" "drained sv (trace s)"
  shows "wp (finishTeardown r sv) (\<lambda>_. ok sv) (\<lambda>_. ok sv) s"
  unfolding finishTeardown_def
proof (rule wp_seq [OF wp_deleteStack [OF assms subset_refl]], rule wp_seq [OF wp_releaseBacking])
  fix s1 s2 :: "'w run"
  assume s1: "ok sv s1 \<and> drained sv (trace s1) \<and> set (trace s) \<subseteq> set (trace s1) \<and>
      (\<forall>(k, key)\<in>set (serverStack r sv). \<exists>rep. (Delete k key PropagationBackground, rep) \<in> set (trace s1)
         \<and> succeeded rep)"
  then show "ok sv s1" by simp
  assume s2: "ok sv s2 \<and> set (trace s1) \<subseteq> set (trace s2) \<and> backingSettled r sv (trace s2)"
  from s1 have "stackDeleted r sv (trace s1)" by (simp add: stackDeleted_def)
  with s1 s2 have "drained sv (trace s2)" "stackDeleted r sv (trace s2)"
    by (auto intro: drained_mono stackDeleted_mono)
  with s2 show "wp (bindE (writeObject r (Update (OSharedVolume (setFinalizers sv
      (removeFinalizer r (omFinalizers (svMeta sv)) finalizerName)))) asSharedVolume)
      (\<lambda>_. returnE doneResult)) (\<lambda>_. ok sv) (\<lambda>_. ok sv) s2"
    by (auto simp: wp_simps setFinalizers_def intro!: wp_writeObject)
qed

lemma wp_drained:
  assumes "ok sv s" "those (map asPV xs) = Some pvs"
  shows "wp (drainPVs r sv pvs 0) (\<lambda>m s'. ok sv s' \<and> (m = 0 \<longrightarrow> drained sv (trace s')))
      (\<lambda>_. ok sv) (after s (ListObjects KPV (MatchingLabels LabelSharedVolume (svName sv))) (Items xs) w)"
  by (rule wp_mono [OF wp_drainPVs])
    (use assms in \<open>auto simp: listedPV_def drained_def those_map_asPV [OF assms(2)] intro!: exI [of _ xs]\<close>)

lemma keeps_teardown: "keeps (ok sv) (teardown r sv)"
proof (rule keepsI)
  fix s assume s: "ok sv s"
  show "wp (teardown r sv) (\<lambda>_. ok sv) (\<lambda>_. ok sv) s"
    unfolding teardown_def wp_bind [of "listObjects r KPV asPV opt" for opt]
  proof (rule wp_listObjects)
    fix xs pvs w
    assume "those (map asPV xs) = Some pvs"
    with s show "wp (bindE (drainPVs r sv pvs 0) (\<lambda>remaining.
        if 0 < remaining then returnE (doneResult\<lparr>resRequeueAfter := requeueDelay\<rparr>)
        else finishTeardown r sv)) (\<lambda>_. ok sv) (\<lambda>_. ok sv)
        (after s (ListObjects KPV (MatchingLabels LabelSharedVolume (svName sv))) (Items xs) w)"
      by (rule wp_seq [OF wp_drained]) (auto simp: wp_return intro!: wp_finishTeardown)
  qed (use s in auto)
qed

lemma keeps_reconcileDelete: "keeps (ok sv) (reconcileDelete r sv)"
  by (intro keepsI) (auto simp: reconcileDelete_def wp_return
      intro!: wp_seq [OF wp_markTerminating] wp_keeps_name [where sv = sv, OF keeps_teardown])

lemma keeps_bindingsStep: "keeps (ok sv) (bindingsStep r sv targets ip)"
  by (intro keepsI) (auto simp: bindingsStep_def wp_simps
      intro!: wp_keeps [OF keeps_reconcileBindings] wp_keeps [OF keeps_cleanupStaleBindings])

lemma wp_reconcileLive:
  assumes "ok sv s" "IsZero (omDeletionTimestamp (svMeta sv))"
    and "lastGet (trace s) KSharedVolume (ObjectKeyFromObject (OSharedVolume sv)) = Some (Returned (OSharedVolume sv))"
  shows "wp (reconcileLive r sv) (\<lambda>_. ok sv) (\<lambda>_. ok sv) s"
proof -
  have server: "wp (reconcileServer r sv') (\<lambda>(_, _, x) s''. ok sv s'' \<and> svName x = svName sv) (\<lambda>_. ok sv) s'"
    if "ok sv s'" "svName sv' = svName sv" for sv' s'
    using wp_reconcileServer [of sv' s'] that by (simp add: contract_name [OF that(2)])
  have backup: "wp (reconcileBackup r sv') (\<lambda>x s''. ok sv s'' \<and> svName x = svName sv) (\<lambda>_. ok sv) s'"
    if "ok sv s'" "svName sv' = svName sv" for sv' s'
    using wp_reconcileBackup [of sv' s'] that by (simp add: contract_name [OF that(2)])
  show ?thesis unfolding reconcileLive_def
    by (rule wp_seq [OF wp_ensureFinalizer [OF assms]], rule wp_seq [OF server])
      (auto simp: wp_simps intro!: wp_mono [OF backup] wp_keeps_name [where sv = sv, OF keeps_targetNamespaces]
        wp_keeps_name [where sv = sv, OF keeps_bindingsStep] wp_keeps_name [where sv = sv, OF keeps_reconcileNetworkPolicy]
        wp_keeps_name [where sv = sv, OF keeps_updateStatus])
qed

theorem Reconcile_keeps_contract:
  assumes "trace s = []" "svName sv = snd req"
  shows "ok sv (snd (Reconcile r req s))"
proof -
  have "wp (Reconcile r req) (\<lambda>_. ok sv) (\<lambda>_. ok sv) s"
    unfolding Reconcile_def wp_switchE
  proof (rule wp_getObject)
    fix x y w
    assume "asSharedVolume x = Some y" "client r (world s) (Get KSharedVolume req) = (Returned x, w)"
    then have x: "x = OSharedVolume y" and key: "ObjectKeyFromObject (OSharedVolume y) = req"
      using get_key by auto
    with assms(2) have name: "svName sv = svName y" by (auto simp: ObjectKeyFromObject_def)
    have "ok y (after s (Get KSharedVolume req) (Returned x) w)" using assms(1) by simp
    then show "wp (if \<not> IsZero (omDeletionTimestamp (svMeta y)) then reconcileDelete r y else reconcileLive r y)
        (\<lambda>_. ok sv) (\<lambda>_. ok sv) (after s (Get KSharedVolume req) (Returned x) w)"
      unfolding contract_name [OF name] using x key
      by (auto intro!: wp_keeps [OF keeps_reconcileDelete] wp_reconcileLive)
  qed (use assms(1) in \<open>auto simp: wp_simps\<close>)
  then show ?thesis by (simp add: wp_def split: prod.splits sum.splits)
qed

end

text \<open>Cleaning up never touches the pair of a namespace that is still a target.\<close>

definition sparesTargets :: "SharedVolume \<Rightarrow> string list \<Rightarrow> history \<Rightarrow> call \<Rightarrow> bool" where
  "sparesTargets sv targets h c = (\<forall>k key p. c = Delete k key p \<longrightarrow>
     (k = KPVC \<and> fst key \<notin> set targets)
     \<or> (k = KPV \<and> (\<exists>pv ref. listedPV sv h pv \<and> key = ObjectKeyFromObject (OPV pv)
          \<and> pvClaimRef (pvSpec pv) = Some ref \<and> refNamespace ref \<notin> set targets)))"

lemma sparesTargets_simps [simp]:
  "sparesTargets sv targets h (Get k key)" "sparesTargets sv targets h (ListObjects k opt)"
  "fst key \<notin> set targets \<Longrightarrow> sparesTargets sv targets h (Delete KPVC key p)"
  by (auto simp: sparesTargets_def)

lemma sparesTargets_PV:
  "listedPV sv h pv \<Longrightarrow> \<exists>ref. pvClaimRef (pvSpec pv) = Some ref \<and> refNamespace ref \<notin> set targets \<Longrightarrow>
     sparesTargets sv targets h (Delete KPV (ObjectKeyFromObject (OPV pv)) p)"
  by (auto simp: sparesTargets_def)

context operator_env
begin

lemma wp_cleanupPVs_spares:
  assumes "obeys (sparesTargets sv targets) (trace s)" "\<forall>pv \<in> set pvs. listedPV sv (trace s) pv"
  shows "wp (cleanupPVs r sv targets pvs) (\<lambda>_ s'. obeys (sparesTargets sv targets) (trace s'))
    (\<lambda>_ s'. obeys (sparesTargets sv targets) (trace s')) s"
  using assms
proof (induction pvs arbitrary: s)
  case Nil
  then show ?case by (simp add: wp_simps)
next
  case (Cons pv pvs)
  then show ?case
    by (auto simp: wp_simps Let_def intro!: wp_getObject wp_deleteObject sparesTargets_PV Cons.IH
        dest!: get_key split: option.splits)
qed

lemma wp_cleanupStaleBindings_spares:
  assumes "trace s = []"
  shows "wp (cleanupStaleBindings r sv targets) (\<lambda>_ s'. obeys (sparesTargets sv targets) (trace s'))
    (\<lambda>_ s'. obeys (sparesTargets sv targets) (trace s')) s"
  using assms
  by (auto simp: cleanupStaleBindings_def wp_simps listedPV_def those_map_asPV
      intro!: wp_listObjects wp_cleanupPVs_spares exI)

end

end
