(* ===== verification/Typed.thy ===== *)
theory Typed
  imports Reconcile
begin

text \<open>
  Type safety of a pass. The Go code asks the API client for objects of a kind and decodes the reply into the
  struct of that kind; two places index or dereference what an object may lack (\<^verbatim>\<open>Containers[0]\<close> of an existing
  Deployment, \<^verbatim>\<open>HostPath\<close> of a backup destination). The locale \<open>typed_api\<close> states the documented contract of a
  typed API server under arbitrary interference: in a consistent world a reply has the shape the call asks
  for, and every object in it passed the validation of its kind. Within it no pass ends in a decoding error
  or a panic: the only errors are those of the API server, of the owner reference and of the selector.
\<close>

subsection \<open>What the API server admits\<close>

text \<open>
  The CRD's validation rule of the SharedVolume, and the validation of \<^verbatim>\<open>apps/v1\<close>: a pod template has at least
  one container.
\<close>

fun admissible :: "obj \<Rightarrow> bool" where
  "admissible (OSharedVolume sv) = (backup_admitted sv \<and> omNamespace (svMeta sv) = '''')"
| "admissible (ONamespace ns) = (omNamespace (nsMeta ns) = '''')"
| "admissible (ONode node) = (omNamespace (nodeMeta node) = '''')"
| "admissible (OPV pv) = (omNamespace (pvMeta pv) = '''')"
| "admissible (ODeployment d) = (podContainers (ptSpec (depTemplate (depSpec d))) \<noteq> [])"
| "admissible _ = True"

fun typedReply :: "call \<Rightarrow> reply \<Rightarrow> bool" where
  "typedReply c (Failed e) = True"
| "typedReply (Get k key) (Returned x) = (objKind x = k \<and> ObjectKeyFromObject x = key \<and> admissible x)"
| "typedReply (ListObjects k opt) (Items xs) = list_all (\<lambda>x. objKind x = k \<and> admissible x) xs"
| "typedReply (Create x) (Returned y) = (objKind y = objKind x \<and> admissible y)"
| "typedReply (Update x) (Returned y) = (objKind y = objKind x \<and> admissible y)"
| "typedReply (StatusUpdate x) (Returned y) = (objKind y = objKind x \<and> admissible y)"
| "typedReply (Delete k key p) Accepted = True"
| "typedReply _ _ = False"

text \<open>The errors that a well-typed pass may end in.\<close>

fun reported :: "error \<Rightarrow> bool" where
  "reported DecodeError = False"
| "reported (Panic p) = False"
| "reported _ = True"

text \<open>The struct of a kind decodes every object of that kind.\<close>

definition decodes :: "kind \<Rightarrow> (obj \<Rightarrow> 'a option) \<Rightarrow> bool" where
  "decodes k as = (\<forall>x. objKind x = k \<longrightarrow> as x \<noteq> None)"

lemma decodes_kinds [simp]:
  "decodes KSharedVolume asSharedVolume" "decodes KNamespace asNamespace" "decodes KNode asNode"
  "decodes KPVC asPVC" "decodes KPV asPV" "decodes KConfigMap asConfigMap" "decodes KDeployment asDeployment"
  "decodes KService asService" "decodes KJob asJob" "decodes KCronJob asCronJob"
  "decodes KNetworkPolicy asNetworkPolicy"
proof -
  have "objKind x = k \<Longrightarrow> case k of KSharedVolume \<Rightarrow> asSharedVolume x \<noteq> None | KNamespace \<Rightarrow> asNamespace x \<noteq> None
    | KNode \<Rightarrow> asNode x \<noteq> None | KPVC \<Rightarrow> asPVC x \<noteq> None | KPV \<Rightarrow> asPV x \<noteq> None | KConfigMap \<Rightarrow> asConfigMap x \<noteq> None
    | KDeployment \<Rightarrow> asDeployment x \<noteq> None | KService \<Rightarrow> asService x \<noteq> None | KJob \<Rightarrow> asJob x \<noteq> None
    | KCronJob \<Rightarrow> asCronJob x \<noteq> None | KNetworkPolicy \<Rightarrow> asNetworkPolicy x \<noteq> None" for x k
    by (cases x) auto
  from this [of _ KSharedVolume] this [of _ KNamespace] this [of _ KNode] this [of _ KPVC] this [of _ KPV]
    this [of _ KConfigMap] this [of _ KDeployment] this [of _ KService] this [of _ KJob] this [of _ KCronJob]
    this [of _ KNetworkPolicy]
  show "decodes KSharedVolume asSharedVolume" "decodes KNamespace asNamespace" "decodes KNode asNode"
    "decodes KPVC asPVC" "decodes KPV asPV" "decodes KConfigMap asConfigMap" "decodes KDeployment asDeployment"
    "decodes KService asService" "decodes KJob asJob" "decodes KCronJob asCronJob"
    "decodes KNetworkPolicy asNetworkPolicy"
    by (auto simp: decodes_def)
qed

lemma decodes_list:
  "decodes k as \<Longrightarrow> those (map as xs) = None \<Longrightarrow> \<not> list_all (\<lambda>x. objKind x = k \<and> admissible x) xs"
  by (induction xs) (auto simp: decodes_def split: option.splits)

lemma backupCronJobDrifted_total:
  assumes "BuildBackupCronJob sv ns img = Inr d"
  shows "\<exists>b. backupCronJobDrifted existing d = Inr b"
  using BuildBackupCronJob_pod [OF assms] by (auto simp: backupCronJobDrifted_def Let_def split: list.splits)

lemma backup_built_total:
  assumes "backup_admitted sv" "svBackup sv \<noteq> None"
  shows "\<exists>cj. BuildBackupCronJob sv ns img = Inr cj" "\<exists>job. BuildSeedJob sv ns img = Inr job"
  using assms by (auto simp: BuildBackupCronJob_def BuildSeedJob_def backupPodSpec_def backup_admitted_def Let_def
      split: option.splits)

lemma setRestoredCondition_admitted [simp]:
  "backup_admitted (snd (setRestoredCondition r w sv st rsn msg)) = backup_admitted sv"
  by (simp add: backup_admitted_def)

subsection \<open>Passes under a typed API server\<close>

locale typed_api =
  fixes r :: "('w, 'b) SharedVolumeReconciler_scheme"
    and inv :: "'w \<Rightarrow> bool"
  assumes reply_typed: "inv w \<Longrightarrow> client r w c = (rep, w') \<Longrightarrow> typedReply c rep \<and> inv w'"
    and event_inv: "inv w \<Longrightarrow> inv (recorder r w ev)"
begin

text \<open>A program that, started in a consistent world, ends in one, with a value of \<open>P\<close> or a reported error.\<close>

definition safe :: "('a \<Rightarrow> bool) \<Rightarrow> ('w, 'a) prog \<Rightarrow> bool" where
  "safe P m = (\<forall>s. inv (world s) \<longrightarrow>
     wp m (\<lambda>x s'. inv (world s') \<and> P x) (\<lambda>e s'. inv (world s') \<and> reported e) s)"

lemma safeI: "(\<And>s. inv (world s) \<Longrightarrow> wp m (\<lambda>x s'. inv (world s') \<and> P x)
    (\<lambda>e s'. inv (world s') \<and> reported e) s) \<Longrightarrow> safe P m"
  by (simp add: safe_def)

lemma wp_safe:
  assumes "safe P m" "inv (world s)" "\<And>x s'. inv (world s') \<Longrightarrow> P x \<Longrightarrow> Q x s'"
    and "\<And>e s'. inv (world s') \<Longrightarrow> reported e \<Longrightarrow> E e s'"
  shows "wp m Q E s"
  using assms wp_mono [of m "\<lambda>x s'. inv (world s') \<and> P x" "\<lambda>e s'. inv (world s') \<and> reported e" s Q E]
  by (auto simp: safe_def)

lemma safe_getObject:
  assumes "decodes k as"
  shows "safe (\<lambda>y. \<exists>x. as x = Some y \<and> objKind x = k \<and> ObjectKeyFromObject x = key \<and> admissible x) (getObject r k as key)"
proof (rule safeI)
  fix s :: "'w run" assume "inv (world s)"
  with assms reply_typed [of "world s" "Get k key"]
  show "wp (getObject r k as key) (\<lambda>y s'. inv (world s') \<and>
      (\<exists>x. as x = Some y \<and> objKind x = k \<and> ObjectKeyFromObject x = key \<and> admissible x))
      (\<lambda>e s'. inv (world s') \<and> reported e) s"
    by (auto simp: getObject_def decodes_def wp_simps wp_invoke wp_returnedObject split: prod.splits reply.splits option.splits)
qed

text \<open>The three writes share one rule.\<close>

lemma safe_write:
  assumes "decodes (objKind x) as" "c \<in> {Create x, Update x, StatusUpdate x}"
  shows "safe (\<lambda>y. \<exists>z. as z = Some y \<and> objKind z = objKind x \<and> admissible z) (writeObject r c as)"
proof (rule safeI)
  fix s :: "'w run" assume "inv (world s)"
  with assms reply_typed [of "world s" c]
  show "wp (writeObject r c as) (\<lambda>y s'. inv (world s') \<and> (\<exists>z. as z = Some y \<and> objKind z = objKind x \<and> admissible z))
      (\<lambda>e s'. inv (world s') \<and> reported e) s"
    by (auto simp: writeObject_def decodes_def wp_simps wp_invoke wp_returnedObject
        split: prod.splits reply.splits option.splits)
qed

lemmas safe_writes = safe_write [where c = "Create x" and x = x for x, simplified]
  safe_write [where c = "Update x" and x = x for x, simplified]
  safe_write [where c = "StatusUpdate x" and x = x for x, simplified]

lemma safe_listObjects:
  assumes "decodes k as"
  shows "safe (\<lambda>_. True) (listObjects r k as opt)"
proof (rule safeI)
  fix s :: "'w run" assume "inv (world s)"
  with reply_typed [of "world s" "ListObjects k opt"]
  show "wp (listObjects r k as opt) (\<lambda>y s'. inv (world s') \<and> True) (\<lambda>e s'. inv (world s') \<and> reported e) s"
    by (auto simp: listObjects_def wp_simps wp_invoke dest: decodes_list [OF assms] split: prod.splits reply.splits option.splits)
qed

lemma safe_deleteObject: "safe (\<lambda>_. True) (deleteObject r k key p)"
proof (rule safeI)
  fix s :: "'w run" assume "inv (world s)"
  with reply_typed [of "world s" "Delete k key p"]
  show "wp (deleteObject r k key p) (\<lambda>y s'. inv (world s') \<and> True) (\<lambda>e s'. inv (world s') \<and> reported e) s"
    by (auto simp: deleteObject_def wp_simps wp_invoke split: prod.splits reply.splits)
qed

lemmas typed_calls = wp_safe [OF safe_getObject] safe_writes [THEN wp_safe] wp_safe [OF safe_listObjects]
  wp_safe [OF safe_deleteObject]

lemma safe_createOwned:
  assumes "decodes (objKind x) as"
  shows "safe (\<lambda>_. True) (createOwned r sv x as)"
proof (rule safeI)
  fix s :: "'w run" assume "inv (world s)"
  moreover have "\<not> as (setMeta x m) = None" for m using assms by (simp add: decodes_def del: not_None_eq)
  ultimately show "wp (createOwned r sv x as) (\<lambda>y s'. inv (world s') \<and> True) (\<lambda>e s'. inv (world s') \<and> reported e) s"
    using assms by (auto simp del: not_None_eq simp: createOwned_def wp_simps intro!: typed_calls split: sum.splits option.splits)
qed

lemmas created_calls = wp_safe [OF safe_createOwned]

lemma safe_createIfMissing:
  "decodes (objKind x) as \<Longrightarrow> safe (\<lambda>_. True) (createIfMissing r sv x as)"
  by (rule safeI) (auto simp: createIfMissing_def wp_simps intro!: typed_calls created_calls)

lemma safe_ensureConfigMap: "safe (\<lambda>_. True) (ensureConfigMap r sv cm)"
  by (rule safeI) (auto simp: ensureConfigMap_def wp_simps intro!: typed_calls created_calls)

lemma safe_ensureService: "safe (\<lambda>_. True) (ensureService r sv)"
  by (rule safeI) (auto simp: ensureService_def Let_def wp_simps intro!: typed_calls created_calls)

lemma safe_ensureDeployment: "safe (\<lambda>_. True) (ensureDeployment r sv cm)"
proof -
  have drift: "podContainers (ptSpec t) = []"
    if "deploymentDrifted t (depTemplate (depSpec (BuildServerDeployment sv ns img cm))) = Inl p" for t ns img p
    using that by (cases "podContainers (ptSpec t)") (auto simp: deploymentDrifted_def BuildServerDeployment_def Let_def)
  show ?thesis
    by (rule safeI) (auto simp: ensureDeployment_def Let_def wp_simps intro!: typed_calls created_calls
        split: sum.splits dest!: drift)
qed

subsection \<open>The components\<close>

lemma safe_reconcileSeed:
  assumes "backup_admitted sv"
  shows "safe (\<lambda>(_, sv'). backup_admitted sv') (reconcileSeed r sv)"
proof -
  have built: "BuildSeedJob sv ns img = Inl p \<Longrightarrow> svBackup sv = None" for ns img p
    using backup_built_total(2) [OF assms, of ns img] by (cases "svBackup sv") auto
  have same: "backup_admitted sv'" if "setRestoredCondition r w sv st rsn msg = (b, sv')" for w st rsn msg b sv'
    using setRestoredCondition_admitted [of r w sv st rsn msg] assms that by simp
  show ?thesis
    by (rule safeI) (auto simp: reconcileSeed_def wp_simps assms event_inv intro!: typed_calls created_calls
        dest!: built same split: sum.splits prod.splits option.splits)
qed

lemma safe_reconcileServer:
  assumes "backup_admitted sv"
  shows "safe (\<lambda>(_, _, sv'). backup_admitted sv') (reconcileServer r sv)"
  using assms by (intro safeI) (auto simp: reconcileServer_def wp_simps
      intro!: wp_safe [OF safe_createIfMissing] wp_safe [OF safe_ensureConfigMap] wp_safe [OF safe_reconcileSeed]
        wp_safe [OF safe_ensureDeployment] wp_safe [OF safe_ensureService])

lemma safe_reconcileBackup:
  assumes "backup_admitted sv"
  shows "safe backup_admitted (reconcileBackup r sv)"
proof -
  have built: "BuildBackupCronJob sv ns img = Inl p \<Longrightarrow> svBackup sv = None" for ns img p
    using backup_built_total(1) [OF assms, of ns img] by (cases "svBackup sv") auto
  have drift: "BuildBackupCronJob sv ns img = Inr d \<Longrightarrow> \<not> backupCronJobDrifted x d = Inl p" for ns img d x p
    using backupCronJobDrifted_total [of sv ns img d x] by auto
  have same: "backup_admitted (setLastBackupTime sv t)" for t
    using assms by (simp add: setLastBackupTime_def backup_admitted_def)
  show ?thesis
    by (rule safeI) (auto simp: reconcileBackup_def Let_def wp_simps assms same drift intro!: typed_calls created_calls
        dest!: built split: sum.splits)
qed

lemma safe_reconcileNetworkPolicy: "safe (\<lambda>_. True) (reconcileNetworkPolicy r sv targets)"
  by (rule safeI) (auto simp: reconcileNetworkPolicy_def nodeIPs_def Let_def wp_simps intro!: typed_calls created_calls)

lemma safe_collectNamed: "safe (\<lambda>_. True) (collectNamed r names keys)"
proof (induction names arbitrary: keys)
  case (Cons n names)
  show ?case by (rule safeI) (auto simp: wp_simps intro!: typed_calls wp_safe [OF Cons.IH])
qed (simp add: safe_def wp_simps)

lemma safe_targetNamespaces: "safe (\<lambda>_. True) (targetNamespaces r sv)"
  by (rule safeI) (auto simp: targetNamespaces_def wp_simps intro!: typed_calls wp_safe [OF safe_collectNamed]
      split: option.splits sum.splits)

lemma safe_reconcileBinding: "safe (\<lambda>_. True) (reconcileBinding r sv ns ip)"
  by (rule safeI) (auto simp: reconcileBinding_def ensurePV_def Let_def wp_simps event_inv
      intro!: typed_calls created_calls)

lemma safe_reconcileBindings: "safe (\<lambda>_. True) (reconcileBindings r sv targets ip)"
proof (induction targets)
  case (Cons n targets)
  show ?case by (rule safeI) (auto simp: wp_simps intro!: wp_safe [OF safe_reconcileBinding] wp_safe [OF Cons.IH])
qed (simp add: safe_def wp_simps)

lemma safe_cleanupPVs: "safe (\<lambda>_. True) (cleanupPVs r sv targets pvs)"
proof (induction pvs)
  case (Cons pv pvs)
  show ?case by (rule safeI) (auto simp: Let_def wp_simps intro!: typed_calls wp_safe [OF Cons.IH] split: option.splits)
qed (simp add: safe_def wp_simps)

lemma safe_bindingsStep: "safe (\<lambda>_. True) (bindingsStep r sv targets ip)"
  by (rule safeI) (auto simp: bindingsStep_def cleanupStaleBindings_def wp_simps
      intro!: typed_calls wp_safe [OF safe_reconcileBindings] wp_safe [OF safe_cleanupPVs])

lemma safe_updateStatus: "safe (\<lambda>_. True) (updateStatus r sv ip ready bs)"
  by (rule safeI) (auto simp: updateStatus_def wp_simps intro!: typed_calls)

lemma safe_ensureFinalizer:
  assumes "backup_admitted sv"
  shows "safe backup_admitted (ensureFinalizer r sv)"
  using assms by (intro safeI) (auto simp: ensureFinalizer_def wp_simps setFinalizers_def backup_admitted_def
      intro!: typed_calls split: prod.splits)

lemma safe_drainPVs: "safe (\<lambda>_. True) (drainPVs r sv pvs n)"
proof (induction pvs arbitrary: n)
  case (Cons pv pvs)
  show ?case by (rule safeI) (auto simp: Let_def wp_simps intro!: typed_calls wp_safe [OF Cons.IH] split: option.splits)
qed (simp add: safe_def wp_simps)

lemma safe_deleteStack: "safe (\<lambda>_. True) (deleteStack r xs)"
proof (induction xs)
  case (Cons x xs)
  show ?case by (cases x, rule safeI) (auto simp: wp_simps intro!: typed_calls wp_safe [OF Cons.IH])
qed (simp add: safe_def wp_simps)

lemma safe_teardown: "safe (\<lambda>_. True) (teardown r sv)"
  by (rule safeI) (auto simp: teardown_def finishTeardown_def releaseBacking_def wp_simps
      intro!: typed_calls wp_safe [OF safe_drainPVs] wp_safe [OF safe_deleteStack])

lemma safe_reconcileDelete: "safe (\<lambda>_. True) (reconcileDelete r sv)"
  by (rule safeI) (auto simp: reconcileDelete_def markTerminating_def Let_def wp_simps
      intro!: typed_calls wp_safe [OF safe_teardown])

lemma safe_reconcileLive:
  assumes "backup_admitted sv"
  shows "safe (\<lambda>_. True) (reconcileLive r sv)"
  using assms by (intro safeI) (auto simp: reconcileLive_def wp_simps
      intro!: wp_safe [OF safe_ensureFinalizer] wp_safe [OF safe_reconcileServer] wp_safe [OF safe_targetNamespaces]
        wp_safe [OF safe_bindingsStep] wp_safe [OF safe_reconcileNetworkPolicy] wp_safe [OF safe_reconcileBackup]
        wp_safe [OF safe_updateStatus])

theorem safe_Reconcile: "safe (\<lambda>_. True) (Reconcile r req)"
  by (rule safeI) (auto simp: Reconcile_def wp_simps
      intro!: typed_calls wp_safe [OF safe_reconcileDelete] wp_safe [OF safe_reconcileLive])

end

end
