(* ===== verification/Manager.thy ===== *)
theory Manager
  imports Bindings Netip
begin

text \<open>
  The operator's wiring: \<^verbatim>\<open>SetupWithManager\<close> and \<^verbatim>\<open>namespaceCouldMatch\<close> of
  \<^verbatim>\<open>internal/controller/sharedvolume_controller.go\<close> (which events requeue which SharedVolumes) and the
  helpers of \<^verbatim>\<open>cmd/main.go\<close> that compute the reconciler's configuration.
\<close>

subsection \<open>Event mapping\<close>

definition namespaceCouldMatch ::
  "('w, 'b) SharedVolumeReconciler_scheme \<Rightarrow> SharedVolume \<Rightarrow> ObjectMeta \<Rightarrow> bool" where
  "namespaceCouldMatch r sv ns =
     (if omName ns \<in> set (selNames (specNamespaces (svSpec sv))) then True
      else (case selSelector (specNamespaces (svSpec sv)) of
          None \<Rightarrow> False
        | Some sel \<Rightarrow> (case labelSelectorAsSelector r sel of
              Inl _ \<Rightarrow> False
            | Inr selector \<Rightarrow> selector (omLabels ns))))"

text \<open>The requests of \<^verbatim>\<open>mapNamespace\<close> and \<^verbatim>\<open>mapNode\<close>; a failed List gives none.\<close>

definition mapNamespace ::
  "('w, 'b) SharedVolumeReconciler_scheme \<Rightarrow> ObjectMeta \<Rightarrow> ('w, NamespacedName list) prog" where
  "mapNamespace r ns =
     switchE (listObjects r KSharedVolume asSharedVolume ListAll)
       (\<lambda>_. returnE [])
       (\<lambda>svs. returnE (map (\<lambda>sv. ('''', svName sv)) (filter (\<lambda>sv. namespaceCouldMatch r sv ns) svs)))"

definition mapNode ::
  "('w, 'b) SharedVolumeReconciler_scheme \<Rightarrow> ('w, NamespacedName list) prog" where
  "mapNode r =
     switchE (listObjects r KSharedVolume asSharedVolume ListAll)
       (\<lambda>_. returnE [])
       (\<lambda>svs. returnE (map (\<lambda>sv. ('''', svName sv)) svs))"

text \<open>The kinds whose events requeue their owner (lines 827 to 833).\<close>

definition ownedKinds :: "kind list" where
  "ownedKinds = [KDeployment, KService, KPVC, KPV, KNetworkPolicy, KCronJob, KJob]"

subsection \<open>Configuration\<close>

text \<open>\<^verbatim>\<open>os.Getenv\<close> gives the empty string for an unset variable; the environment is a parameter.\<close>

definition envOr :: "(string \<Rightarrow> string) \<Rightarrow> string \<Rightarrow> string \<Rightarrow> string" where
  "envOr getenv key fallback = (if getenv key \<noteq> '''' then getenv key else fallback)"

text \<open>
  \<^verbatim>\<open>strings.TrimSpace\<close> on UTF-8 bytes: the encodings of the code points \<^verbatim>\<open>unicode.IsSpace\<close> accepts.
\<close>

definition spaceRunes :: "string list" where
  "spaceRunes = map (map char_of)
     ([[9], [10], [11], [12], [13], [32], [0xC2, 0x85], [0xC2, 0xA0], [0xE1, 0x9A, 0x80]]
      @ map (\<lambda>b. [0xE2, 0x80, b]) [0x80, 0x81, 0x82, 0x83, 0x84, 0x85, 0x86, 0x87, 0x88, 0x89, 0x8A]
      @ [[0xE2, 0x80, 0xA8], [0xE2, 0x80, 0xA9], [0xE2, 0x80, 0xAF], [0xE2, 0x81, 0x9F],
         [0xE3, 0x80, 0x80 :: nat]])"

text \<open>The rest of \<open>s\<close> after one of the byte sequences, if \<open>s\<close> starts with one.\<close>

fun stripOne :: "string list \<Rightarrow> string \<Rightarrow> string option" where
  "stripOne [] s = None"
| "stripOne (p # ps) s = (if p \<noteq> [] \<and> take (length p) s = p then Some (drop (length p) s)
     else stripOne ps s)"

lemma stripOne_shorter: "stripOne ps s = Some t \<Longrightarrow> length t < length s"
proof (induction ps)
  case (Cons p ps)
  show ?case
  proof (cases "p \<noteq> [] \<and> take (length p) s = p")
    case True
    then have "s \<noteq> []" "0 < length p" by auto
    with True Cons.prems show ?thesis by auto
  next
    case False
    with Cons show ?thesis by auto
  qed
qed simp

function trimLeft :: "string list \<Rightarrow> string \<Rightarrow> string" where
  "trimLeft ps s = (case stripOne ps s of None \<Rightarrow> s | Some t \<Rightarrow> trimLeft ps t)"
  by pat_completeness auto
termination
  by (relation "measure (\<lambda>(ps, s). length s)") (auto dest: stripOne_shorter)

declare trimLeft.simps [simp del]

definition TrimSpace :: "string \<Rightarrow> string" where
  "TrimSpace s = rev (trimLeft (map rev spaceRunes) (rev (trimLeft spaceRunes s)))"

definition splitNonEmpty :: "string \<Rightarrow> string list" where
  "splitNonEmpty csv = filter (\<lambda>s. s \<noteq> '''') (map TrimSpace (splitByte CHR '','' csv))"

text \<open>
  The reconciler's configuration in \<^verbatim>\<open>main\<close>: a flag given on the command line wins over its environment
  variable, and that over the built-in default. \<open>flag\<close> is the command line as \<^verbatim>\<open>flag.Parse\<close> reads it.
\<close>

record ManagerConfig =
  mcOperatorNamespace :: string
  mcGaneshaImage :: string
  mcBackupImage :: string
  mcAllowCIDRs :: "string list"

definition stringVar :: "(string \<Rightarrow> string option) \<Rightarrow> string \<Rightarrow> string \<Rightarrow> string" where
  "stringVar flag name dflt = (case flag name of None \<Rightarrow> dflt | Some v \<Rightarrow> v)"

definition managerConfig :: "(string \<Rightarrow> string) \<Rightarrow> (string \<Rightarrow> string option) \<Rightarrow> ManagerConfig" where
  "managerConfig getenv flag = \<lparr>
     mcOperatorNamespace = stringVar flag ''operator-namespace'' (envOr getenv ''OPERATOR_NAMESPACE'' ''nfsz-system''),
     mcGaneshaImage = stringVar flag ''ganesha-image''
       (envOr getenv ''GANESHA_IMAGE'' ''ghcr.io/rybo/nfsz-ganesha:latest''),
     mcBackupImage = stringVar flag ''backup-image''
       (envOr getenv ''BACKUP_IMAGE'' ''ghcr.io/rybo/nfsz-backup:latest''),
     mcAllowCIDRs = splitNonEmpty (stringVar flag ''allow-cidrs'' (envOr getenv ''ALLOW_CIDRS'' ''''))\<rparr>"

subsection \<open>Events reach the volumes they concern\<close>

text \<open>A namespace that a volume selects: named by it, or matched by its selector.\<close>

definition selectsNamespace ::
  "('w, 'b) SharedVolumeReconciler_scheme \<Rightarrow> SharedVolume \<Rightarrow> ObjectMeta \<Rightarrow> bool" where
  "selectsNamespace r sv m =
     (omName m \<in> set (selNames (specNamespaces (svSpec sv)))
      \<or> (\<exists>sel f. selSelector (specNamespaces (svSpec sv)) = Some sel
           \<and> labelSelectorAsSelector r sel = Inr f \<and> f (omLabels m)))"

lemma namespaceCouldMatch_iff: "namespaceCouldMatch r sv m = selectsNamespace r sv m"
  by (auto simp: namespaceCouldMatch_def selectsNamespace_def split: option.splits sum.splits)

lemma those_map_asSharedVolume: "those (map asSharedVolume xs) = Some svs \<Longrightarrow> xs = map OSharedVolume svs"
  by (induction xs arbitrary: svs) (auto split: option.splits)

text \<open>C35: an event of a namespace requeues exactly the listed volumes that select it, and an event of a node
  requeues every listed volume.\<close>

theorem mapNamespace_exact:
  assumes "client r (world s) (ListObjects KSharedVolume ListAll) = (Items (map OSharedVolume svs), w)"
  shows "fst (mapNamespace r m s) = Inr (map (\<lambda>sv. ('''', svName sv)) (filter (\<lambda>sv. selectsNamespace r sv m) svs))
    \<and> fst (mapNode r s) = Inr (map (\<lambda>sv. ('''', svName sv)) svs)"
proof -
  have those: "those (map (asSharedVolume \<circ> OSharedVolume) svs) = Some svs"
    by (induction svs) auto
  have "listObjects r KSharedVolume asSharedVolume ListAll s
      = (Inr svs, after s (ListObjects KSharedVolume ListAll) (Items (map OSharedVolume svs)) w)"
    using assms those by (simp add: listObjects_def bindE_def invoke_def returnE_def)
  then show ?thesis
    by (simp add: mapNamespace_def mapNode_def switchE_def returnE_def namespaceCouldMatch_iff)
qed

subsection \<open>Configuration\<close>

lemma trimLeft_fix: "stripOne ps (trimLeft ps s) = None"
proof (induction ps s rule: trimLeft.induct)
  case (1 ps s)
  then show ?case by (subst trimLeft.simps) (auto split: option.splits)
qed

text \<open>However the environment is set, an operator started without flags has a namespace and images, and its
  extra CIDRs, however given, are never empty and end in no white space.\<close>

theorem managerConfig_clean:
  "mcOperatorNamespace (managerConfig getenv Map.empty) \<noteq> '''' \<and> mcGaneshaImage (managerConfig getenv Map.empty) \<noteq> ''''
   \<and> mcBackupImage (managerConfig getenv Map.empty) \<noteq> ''''
   \<and> list_all (\<lambda>c. c \<noteq> '''' \<and> stripOne (map rev spaceRunes) (rev c) = None)
       (mcAllowCIDRs (managerConfig getenv flag))"
  by (auto simp: managerConfig_def stringVar_def envOr_def splitNonEmpty_def list_all_iff TrimSpace_def trimLeft_fix)

end
