(* ===== verification/ApiServer.thy ===== *)
theory ApiServer
  imports Typed Contract Manager
begin

text \<open>
  The API server as a typed object store, for liveness: what a pass achieves when nobody interferes with it.
  The locale \<open>api_server\<close> extends \<open>typed_api\<close> by the documented meaning of every call on a lookup
  function \<open>objs\<close>: reads return what is stored, a create needs an existing namespace that is not terminating,
  an update needs the resource version that was read (optimistic concurrency) and cannot change the deletion
  timestamp, the status subresource writes the status alone, a delete removes an object or, while finalizers
  hold it, marks it, and an update that drops the last finalizer of a marked object removes it. The rules
  \<open>total_calls\<close> turn these laws into total-correctness rules for the client operations.
\<close>

type_synonym view = "kind \<Rightarrow> NamespacedName \<Rightarrow> obj option"

definition put :: "view \<Rightarrow> kind \<Rightarrow> NamespacedName \<Rightarrow> obj option \<Rightarrow> view" where
  "put v k key x = v(k := (v k)(key := x))"

lemma put_apply [simp]: "put v k key x k' key' = (if k' = k \<and> key' = key then x else v k' key')"
  by (simp add: put_def)

lemma put_other [simp]: "k' \<noteq> k \<Longrightarrow> put v k key x k' = v k'"
  by (simp add: put_def)

definition selects :: "list_option \<Rightarrow> obj \<Rightarrow> bool" where
  "selects opt x = (case opt of ListAll \<Rightarrow> True
     | MatchingLabels k v \<Rightarrow> omLabels (objMeta x) k = Some v
     | MatchingLabelsSelector sel \<Rightarrow> sel (omLabels (objMeta x)))"

definition namespaceReady :: "view \<Rightarrow> string \<Rightarrow> bool" where
  "namespaceReady v ns = (ns = '''' \<or>
     (case v KNamespace ('''', ns) of Some (ONamespace n) \<Rightarrow> IsZero (omDeletionTimestamp (nsMeta n)) | _ \<Rightarrow> False))"

text \<open>
  What the server keeps of the spec of a written object, as far as the operator relies on it: the fields that the
  operator sets and compares. Other fields may be defaulted.
\<close>

definition templateFields :: "Deployment \<Rightarrow> string list \<times> labels" where
  "templateFields d = (map ctImage (podContainers (ptSpec (depTemplate (depSpec d)))),
     omAnnotations (ptMeta (depTemplate (depSpec d))))"

fun specKept :: "obj \<Rightarrow> obj \<Rightarrow> bool" where
  "specKept (OSharedVolume x) z = (case z of OSharedVolume y \<Rightarrow> svSpec y = svSpec x | _ \<Rightarrow> False)"
| "specKept (OPV x) z = (case z of OPV y \<Rightarrow> pvClaimRef (pvSpec y) = pvClaimRef (pvSpec x) | _ \<Rightarrow> False)"
| "specKept (OConfigMap x) z = (case z of OConfigMap y \<Rightarrow> cmData y = cmData x | _ \<Rightarrow> False)"
| "specKept (ODeployment x) z = (case z of ODeployment y \<Rightarrow> templateFields y = templateFields x | _ \<Rightarrow> False)"
| "specKept (OCronJob x) z = (case z of OCronJob y \<Rightarrow> ownedFields y = ownedFields x | _ \<Rightarrow> False)"
| "specKept (ONetworkPolicy x) z = (case z of ONetworkPolicy y \<Rightarrow> npSpec y = npSpec x | _ \<Rightarrow> False)"
| "specKept x y = (objKind y = objKind x)"

lemma owned_meta [simp]:
  "templateFields (d\<lparr>depMeta := m\<rparr>) = templateFields d" "ownedFields (c\<lparr>cjMeta := m\<rparr>) = ownedFields c"
  by (simp_all add: templateFields_def ownedFields_def)

definition sameIdentity :: "obj \<Rightarrow> obj \<Rightarrow> bool" where
  "sameIdentity x y = (objKind y = objKind x \<and> ObjectKeyFromObject y = ObjectKeyFromObject x
     \<and> omLabels (objMeta y) = omLabels (objMeta x) \<and> omFinalizers (objMeta y) = omFinalizers (objMeta x))"

text \<open>The stored version \<open>y\<close> of a created object \<open>x\<close>.\<close>

definition created :: "obj \<Rightarrow> obj \<Rightarrow> bool" where
  "created x y = (objKind y = objKind x \<and> ObjectKeyFromObject y = ObjectKeyFromObject x
     \<and> omLabels (objMeta y) = omLabels (objMeta x) \<and> omDeletionTimestamp (objMeta y) = None \<and> specKept x y)"

text \<open>The stored version \<open>y\<close> of \<open>x\<close> written over \<open>old\<close>; an update does not reach the status of a SharedVolume.\<close>

definition rewritten :: "obj \<Rightarrow> obj \<Rightarrow> obj \<Rightarrow> bool" where
  "rewritten old x y = (sameIdentity x y \<and> specKept x y
     \<and> omDeletionTimestamp (objMeta y) = omDeletionTimestamp (objMeta old))"

definition updated :: "obj \<Rightarrow> obj \<Rightarrow> obj \<Rightarrow> bool" where
  "updated old x y = (rewritten old x y
     \<and> (\<forall>a b. old = OSharedVolume a \<longrightarrow> y = OSharedVolume b \<longrightarrow> svStatus b = svStatus a))"

text \<open>An object on its way out that nothing holds any more.\<close>

definition leaving :: "obj \<Rightarrow> bool" where
  "leaving x = (\<not> IsZero (omDeletionTimestamp (objMeta x)) \<and> omFinalizers (objMeta x) = [])"

definition marked :: "obj \<Rightarrow> obj \<Rightarrow> bool" where
  "marked x y = (sameIdentity x y \<and> specKept x y \<and> \<not> IsZero (omDeletionTimestamp (objMeta y)))"

locale api_server = typed_api r inv
  for r :: "('w, 'b) SharedVolumeReconciler_scheme" and inv :: "'w \<Rightarrow> bool" +
  fixes objs :: "'w \<Rightarrow> view"
  assumes get_reply: "inv w \<Longrightarrow> client r w (Get k key) =
      (case objs w k key of None \<Rightarrow> (Failed NotFound, w) | Some x \<Rightarrow> (Returned x, w))"
    and list_reply: "inv w \<Longrightarrow> \<exists>xs. client r w (ListObjects k opt) = (Items xs, w)
      \<and> (\<forall>x. x \<in> set xs \<longleftrightarrow> objs w k (ObjectKeyFromObject x) = Some x \<and> selects opt x)"
    and create_reply: "inv w \<Longrightarrow> admissible x \<Longrightarrow> objs w (objKind x) (ObjectKeyFromObject x) = None \<Longrightarrow>
      namespaceReady (objs w) (omNamespace (objMeta x)) \<Longrightarrow>
      \<exists>y w'. client r w (Create x) = (Returned y, w') \<and> created x y
        \<and> objs w' = put (objs w) (objKind x) (ObjectKeyFromObject x) (Some y)"
    and update_reply: "inv w \<Longrightarrow> admissible x \<Longrightarrow> objs w (objKind x) (ObjectKeyFromObject x) = Some old \<Longrightarrow>
      omResourceVersion (objMeta x) = omResourceVersion (objMeta old) \<Longrightarrow>
      \<exists>y w'. client r w (Update x) = (Returned y, w') \<and> updated old x y
        \<and> objs w' = put (objs w) (objKind x) (ObjectKeyFromObject x) (if leaving y then None else Some y)"
    and status_reply: "inv w \<Longrightarrow> objs w KSharedVolume (ObjectKeyFromObject (OSharedVolume u)) = Some (OSharedVolume u0) \<Longrightarrow>
      omResourceVersion (svMeta u) = omResourceVersion (svMeta u0) \<Longrightarrow>
      \<exists>u1 w'. client r w (StatusUpdate (OSharedVolume u)) = (Returned (OSharedVolume u1), w')
        \<and> rewritten (OSharedVolume u0) (OSharedVolume u0) (OSharedVolume u1) \<and> svStatus u1 = svStatus u
        \<and> omGeneration (svMeta u1) = omGeneration (svMeta u0)
        \<and> objs w' = put (objs w) KSharedVolume (ObjectKeyFromObject (OSharedVolume u)) (Some (OSharedVolume u1))"
    and delete_reply: "inv w \<Longrightarrow> objs w k key = Some x \<Longrightarrow>
      \<exists>w'. client r w (Delete k key p) = (Accepted, w')
        \<and> (if omFinalizers (objMeta x) = [] then objs w' = put (objs w) k key None
           else \<exists>y. marked x y \<and> objs w' = put (objs w) k key (Some y))"
    and delete_missing: "inv w \<Longrightarrow> objs w k key = None \<Longrightarrow> client r w (Delete k key p) = (Failed NotFound, w)"
    and no_leaving: "inv w \<Longrightarrow> objs w k key = Some x \<Longrightarrow> \<not> leaving x"
    and service_address: "inv w \<Longrightarrow> objs w KService key = Some (OService svc) \<Longrightarrow> svcClusterIP svc \<noteq> ''''"
    and event_view: "inv w \<Longrightarrow> objs (recorder r w ev) = objs w"
    and owner_set: "omOwnerReferences m = [] \<Longrightarrow>
      \<exists>os. setControllerReference r sv m = Inr (m\<lparr>omOwnerReferences := os\<rparr>)"
    and add_finalizer: "addFinalizer r fs f = (if f \<in> set fs then (False, fs) else (True, fs @ [f]))"
    and contains_finalizer: "containsFinalizer r fs f = (f \<in> set fs)"
    and remove_finalizer: "removeFinalizer r fs f = filter (\<lambda>x. x \<noteq> f) fs"
begin

lemma stored_typed:
  assumes "inv w" "objs w k key = Some x"
  shows "objKind x = k" "ObjectKeyFromObject x = key" "admissible x"
  using assms reply_typed [OF assms(1), of "Get k key" "Returned x" w] by (auto simp: get_reply)

lemma client_inv: "inv w \<Longrightarrow> client r w c = (rep, w') \<Longrightarrow> inv w'"
  using reply_typed by blast

subsection \<open>Total correctness of the calls\<close>

lemma total_getObject:
  assumes "inv (world s)" "decodes k as"
    and "\<And>x y s'. objs (world s) k key = Some x \<Longrightarrow> as x = Some y \<Longrightarrow>
      ObjectKeyFromObject x = key \<Longrightarrow> admissible x \<Longrightarrow> world s' = world s \<Longrightarrow> Q y s'"
    and "\<And>s'. objs (world s) k key = None \<Longrightarrow> world s' = world s \<Longrightarrow> E (ApiError NotFound) s'"
  shows "wp (getObject r k as key) Q E s"
proof (cases "objs (world s) k key")
  case None
  then show ?thesis using assms by (simp add: getObject_def wp_simps wp_invoke wp_returnedObject get_reply)
next
  case (Some x)
  moreover from this have "objKind x = k" by (rule stored_typed(1) [OF assms(1)])
  then obtain y where "as x = Some y" using assms(2) by (auto simp: decodes_def)
  ultimately show ?thesis using assms stored_typed(2,3) [OF assms(1)] by (simp add: getObject_def wp_simps wp_invoke wp_returnedObject get_reply)
qed

lemma total_listObjects:
  assumes "inv (world s)" "decodes k as" "\<And>x y. as x = Some y \<longleftrightarrow> x = con y"
    and "\<And>ys s'. (\<And>y. y \<in> set ys \<longleftrightarrow> objs (world s) k (ObjectKeyFromObject (con y)) = Some (con y) \<and> selects opt (con y)) \<Longrightarrow>
      world s' = world s \<Longrightarrow> Q ys s'"
  shows "wp (listObjects r k as opt) Q E s"
proof -
  obtain xs where xs: "client r (world s) (ListObjects k opt) = (Items xs, world s)"
    "\<And>x. x \<in> set xs \<longleftrightarrow> objs (world s) k (ObjectKeyFromObject x) = Some x \<and> selects opt x"
    using list_reply [OF assms(1)] by blast
  have "list_all (\<lambda>x. objKind x = k \<and> admissible x) xs" using reply_typed [OF assms(1) xs(1)] by simp
  then obtain ys where ys: "those (map as xs) = Some ys" using decodes_list [OF assms(2)] by blast
  have inj: "con y = con z \<longleftrightarrow> y = z" for y z using assms(3) [of "con y" y] assms(3) [of "con y" z] by auto
  have those: "those (map as zs) = Some us \<Longrightarrow> con y \<in> set zs \<longleftrightarrow> y \<in> set us" for zs us y
    by (induction zs arbitrary: us) (auto simp: assms(3) inj split: option.splits)
  have "Q ys (after s (ListObjects k opt) (Items xs) (world s))"
    by (rule assms(4)) (simp_all add: those [OF ys, symmetric] xs(2))
  then show ?thesis using xs(1) ys by (simp add: listObjects_def wp_simps wp_invoke)
qed

lemma total_deleteObject:
  assumes "inv (world s)"
    and "\<And>s'. inv (world s') \<Longrightarrow> objs (world s) k key \<noteq> None \<Longrightarrow> objs (world s') = put (objs (world s)) k key None \<Longrightarrow> Q () s'"
    and "\<And>x y s'. inv (world s') \<Longrightarrow> objs (world s) k key = Some x \<Longrightarrow> marked x y \<Longrightarrow> omFinalizers (objMeta x) \<noteq> [] \<Longrightarrow>
      objs (world s') = put (objs (world s)) k key (Some y) \<Longrightarrow> Q () s'"
    and "\<And>s'. objs (world s) k key = None \<Longrightarrow> world s' = world s \<Longrightarrow> E (ApiError NotFound) s'"
  shows "wp (deleteObject r k key p) Q E s"
proof (cases "objs (world s) k key")
  case None
  then show ?thesis using assms(1,4) by (simp add: deleteObject_def wp_simps wp_invoke delete_missing)
next
  case (Some x)
  from delete_reply [OF assms(1) this, of p] obtain w' where w: "client r (world s) (Delete k key p) = (Accepted, w')"
    "if omFinalizers (objMeta x) = [] then objs w' = put (objs (world s)) k key None
     else \<exists>y. marked x y \<and> objs w' = put (objs (world s)) k key (Some y)" by blast
  then have "inv w'" using client_inv [OF assms(1)] by blast
  with w Some assms(2,3) show ?thesis
    by (auto simp: deleteObject_def wp_simps wp_invoke split: if_splits)
qed

lemma total_update:
  assumes "inv (world s)" "admissible x" "decodes (objKind x) as"
    and "objs (world s) (objKind x) (ObjectKeyFromObject x) = Some old"
    and "omResourceVersion (objMeta x) = omResourceVersion (objMeta old)"
    and "\<And>y z s'. inv (world s') \<Longrightarrow> as z = Some y \<Longrightarrow> updated old x z \<Longrightarrow> objs (world s') =
        put (objs (world s)) (objKind x) (ObjectKeyFromObject x) (if leaving z then None else Some z) \<Longrightarrow> Q y s'"
  shows "wp (writeObject r (Update x) as) Q E s"
proof -
  obtain z w' where z: "client r (world s) (Update x) = (Returned z, w')" "updated old x z" "objs w' =
      put (objs (world s)) (objKind x) (ObjectKeyFromObject x) (if leaving z then None else Some z)"
    using update_reply [OF assms(1,2,4,5)] by blast
  then have "objKind z = objKind x" by (simp add: updated_def rewritten_def sameIdentity_def)
  then obtain y where "as z = Some y" using assms(3) by (auto simp: decodes_def)
  with z client_inv [OF assms(1) z(1)] assms(6) show ?thesis
    by (simp add: writeObject_def wp_simps wp_invoke wp_returnedObject)
qed

lemma total_createOwned:
  assumes "inv (world s)" "admissible x" "decodes (objKind x) as" "omOwnerReferences (objMeta x) = []"
    and "objs (world s) (objKind x) (ObjectKeyFromObject x) = None"
    and "namespaceReady (objs (world s)) (omNamespace (objMeta x))"
    and "\<And>y z s'. inv (world s') \<Longrightarrow> as z = Some y \<Longrightarrow> created x z \<Longrightarrow>
        objs (world s') = put (objs (world s)) (objKind x) (ObjectKeyFromObject x) (Some z) \<Longrightarrow> Q y s'"
  shows "wp (createOwned r sv x as) Q E s"
proof -
  obtain os where os: "setControllerReference r sv (objMeta x) = Inr ((objMeta x)\<lparr>omOwnerReferences := os\<rparr>)"
    using owner_set [OF assms(4)] by blast
  define x' where "x' = setMeta x ((objMeta x)\<lparr>omOwnerReferences := os\<rparr>)"
  have x': "objKind x' = objKind x" "ObjectKeyFromObject x' = ObjectKeyFromObject x" "admissible x'"
    "omNamespace (objMeta x') = omNamespace (objMeta x)"
    using assms(2) by (cases x; simp add: x'_def ObjectKeyFromObject_def backup_admitted_def)+
  have kept: "created x z" if "created x' z" for z
    using that by (cases x; cases z) (auto simp: created_def x'_def ObjectKeyFromObject_def)
  obtain z w' where z: "client r (world s) (Create x') = (Returned z, w')" "created x' z"
    "objs w' = put (objs (world s)) (objKind x') (ObjectKeyFromObject x') (Some z)"
    using create_reply [OF assms(1), of x'] x' assms(5,6) by auto
  then have "objKind z = objKind x" using x'(1) by (simp add: created_def)
  then obtain y where y: "as z = Some y" using assms(3) by (auto simp: decodes_def)
  show ?thesis unfolding createOwned_def os sum.case x'_def [symmetric]
    using z x' y kept client_inv [OF assms(1) z(1)] assms(7)
    by (simp add: writeObject_def wp_simps wp_invoke wp_returnedObject)
qed

end

end
