(* ===== verification/LiveServer.thy ===== *)
theory LiveServer
  imports ApiServer
begin

text \<open>
  What the first steps of a pass over a live volume achieve when nobody interferes: total correctness of
  \<^verbatim>\<open>reconcileServer\<close> and \<^verbatim>\<open>targetNamespaces\<close> over the object store of \<open>api_server\<close>. A step is described by the
  kinds it may touch (\<open>only\<close>) and, where it deletes nothing, by \<open>grows\<close>.
\<close>

definition only :: "kind set \<Rightarrow> view \<Rightarrow> view \<Rightarrow> bool" where
  "only K v v' = (\<forall>k. k \<notin> K \<longrightarrow> v' k = v k)"

definition grows :: "view \<Rightarrow> view \<Rightarrow> bool" where
  "grows v v' = (\<forall>k key. v k key \<noteq> None \<longrightarrow> v' k key \<noteq> None)"

lemma only_refl [simp]: "only K v v"
  by (simp add: only_def)

lemma grows_refl [simp]: "grows v v"
  by (simp add: grows_def)

lemma only_trans: "only K v v' \<Longrightarrow> only K' v' v'' \<Longrightarrow> K \<subseteq> L \<Longrightarrow> K' \<subseteq> L \<Longrightarrow> only L v v''"
  unfolding only_def by (metis subsetD)

lemma grows_trans: "grows v v' \<Longrightarrow> grows v' v'' \<Longrightarrow> grows v v''"
  by (simp add: grows_def)

lemma only_put [simp]: "k \<in> K \<Longrightarrow> only K v (put v k key x)"
  by (auto simp: only_def)

lemma grows_put [simp]: "grows v (put v k key (Some x))"
  by (simp add: grows_def)

lemma only_at: "only K v v' \<Longrightarrow> k \<notin> K \<Longrightarrow> v' k = v k"
  by (simp add: only_def)

lemma namespaceReady_only: "only K v v' \<Longrightarrow> KNamespace \<notin> K \<Longrightarrow> namespaceReady v' ns = namespaceReady v ns"
  by (simp add: namespaceReady_def only_at)

definition stackKinds :: "kind set" where
  "stackKinds = {KPVC, KConfigMap, KJob, KDeployment, KService}"

text \<open>The server stack of a volume is there: its Deployment, or the seed Job that has to run before it.\<close>

definition stackThere :: "('w, 'b) SharedVolumeReconciler_scheme \<Rightarrow> SharedVolume \<Rightarrow> view \<Rightarrow> bool" where
  "stackThere r sv v =
     (v KPVC (backingKey r sv) \<noteq> None \<and> v KConfigMap (OperatorNamespace r, ConfigMapName sv) \<noteq> None
      \<and> v KService (OperatorNamespace r, ServerName sv) \<noteq> None
      \<and> (v KDeployment (OperatorNamespace r, ServerName sv) \<noteq> None
         \<or> v KJob (OperatorNamespace r, SeedJobName sv) \<noteq> None))"

lemma built_metas [simp]:
  "cmMeta (BuildConfigMap sv ns) = objectMeta (ConfigMapName sv) ns (managedLabels sv)"
  "depMeta (BuildServerDeployment sv ns img cm) = objectMeta (ServerName sv) ns (managedLabels sv)"
  "svcMeta (BuildService sv ns) = objectMeta (ServerName sv) ns (managedLabels sv)"
  "pvcMeta (BuildBackingPVC sv ns) = objectMeta (BackingPVCName sv) ns (managedLabels sv)"
  "pvcMeta (BuildConsumerPVC sv ns) = objectMeta (ConsumerPVCName sv) ns (managedLabels sv)"
  "pvMeta (BuildPV sv ns ip) = objectMeta (PVName sv ns) '''' (managedLabels sv)"
  "npMeta (BuildNetworkPolicy sv ns ts ips cidrs) = objectMeta (ServerName sv) ns (managedLabels sv)"
  by (simp_all add: BuildBackingPVC_def BuildConsumerPVC_def BuildConfigMap_def BuildServerDeployment_def
      BuildService_def BuildPV_def BuildNetworkPolicy_def Let_def)

lemma built_containers [simp]:
  "podContainers (ptSpec (depTemplate (depSpec (BuildServerDeployment sv ns img cm)))) \<noteq> []"
  by (simp add: BuildServerDeployment_def Let_def)

lemma drift_panic:
  "podContainers (ptSpec t) \<noteq> [] \<Longrightarrow>
     deploymentDrifted t (depTemplate (depSpec (BuildServerDeployment sv ns img cm))) \<noteq> Inl p"
  by (cases "podContainers (ptSpec t)") (auto simp: deploymentDrifted_def BuildServerDeployment_def Let_def)

context api_server
begin

abbreviation total :: "('w, 'a) prog \<Rightarrow> ('a \<Rightarrow> 'w run \<Rightarrow> bool) \<Rightarrow> 'w run \<Rightarrow> bool" where
  "total m Q s \<equiv> wp m Q (\<lambda>_ _. False) s"

abbreviation view :: "'w run \<Rightarrow> view" where
  "view s \<equiv> objs (world s)"

text \<open>A step that touches only the kinds \<open>K\<close> and loses nothing.\<close>

definition adds :: "kind set \<Rightarrow> 'w \<Rightarrow> 'w \<Rightarrow> bool" where
  "adds K w w' = (inv w' \<and> only K (objs w) (objs w') \<and> grows (objs w) (objs w'))"

lemma adds_same [simp]: "adds K w w = inv w"
  by (simp add: adds_def)

lemma adds_put: "inv w' \<Longrightarrow> objs w' = put (objs w) k key (Some x) \<Longrightarrow> k \<in> K \<Longrightarrow> adds K w w'"
  by (simp add: adds_def)

lemma adds_trans: "adds K w w' \<Longrightarrow> adds K' w' w'' \<Longrightarrow> K \<subseteq> L \<Longrightarrow> K' \<subseteq> L \<Longrightarrow> adds L w w''"
  by (auto simp: adds_def intro: only_trans grows_trans)

lemma adds_mono: "adds K w w' \<Longrightarrow> K \<subseteq> L \<Longrightarrow> adds L w w'"
  by (auto simp: adds_def only_def)

lemma adds_inv: "adds K w w' \<Longrightarrow> inv w'"
  by (simp add: adds_def)

lemma adds_present: "adds K w w' \<Longrightarrow> objs w k key \<noteq> None \<Longrightarrow> objs w' k key \<noteq> None"
  by (simp only: adds_def grows_def) blast

lemma adds_only: "adds K w w' \<Longrightarrow> k \<notin> K \<Longrightarrow> objs w' k = objs w k"
  using only_at by (auto simp: adds_def)

lemma adds_ready: "adds K w w' \<Longrightarrow> KNamespace \<notin> K \<Longrightarrow> namespaceReady (objs w') ns = namespaceReady (objs w) ns"
  by (simp add: namespaceReady_def adds_only)

lemma adds_event [simp]: "inv w \<Longrightarrow> adds K w (recorder r w ev)"
  by (simp add: adds_def event_inv event_view)

lemma service_address_put:
  "inv w \<Longrightarrow> objs w = put v KService key (Some (OService x)) \<Longrightarrow> svcClusterIP x \<noteq> ''''"
  using service_address [of w key x] by simp

lemma updated_stays:
  assumes "inv w" "objs w k key = Some old" "updated old x y" "omFinalizers (objMeta x) = omFinalizers (objMeta old)"
  shows "\<not> leaving y"
  using no_leaving [OF assms(1,2)] assms(3,4) by (auto simp: leaving_def updated_def rewritten_def sameIdentity_def)

text \<open>Writing back an object that was just read, with the same metadata.\<close>

lemma total_rewrite:
  assumes "view s k (ObjectKeyFromObject x) = Some old" "objMeta x = objMeta old"
    and "inv (world s)" "admissible x" "decodes k as" "objKind x = k"
    and "\<And>y z s'. as z = Some y \<Longrightarrow> updated old x z \<Longrightarrow> adds {k} (world s) (world s') \<Longrightarrow>
        view s' = put (view s) k (ObjectKeyFromObject x) (Some z) \<Longrightarrow> Q y s'"
  shows "wp (writeObject r (Update x) as) Q E s"
proof (rule total_update [where old = old])
  fix y z s'
  assume z: "inv (world s')" "as z = Some y" "updated old x z"
    "view s' = put (view s) (objKind x) (ObjectKeyFromObject x) (if leaving z then None else Some z)"
  then have "\<not> leaving z" using assms(2) by (intro updated_stays [OF assms(3,1) z(3)]) simp
  with z assms(6) show "Q y s'" by (intro assms(7)) (auto intro: adds_put)
qed (use assms in auto)

lemma total_ensure:
  assumes "inv (world s)" "admissible x" "decodes k as" "objKind x = k" "omOwnerReferences (objMeta x) = []"
    and "view s k (ObjectKeyFromObject x) = None" "namespaceReady (view s) (omNamespace (objMeta x))"
    and "\<And>y z s'. as z = Some y \<Longrightarrow> created x z \<Longrightarrow> adds {k} (world s) (world s') \<Longrightarrow>
        view s' = put (view s) k (ObjectKeyFromObject x) (Some z) \<Longrightarrow> Q y s'"
  shows "wp (createOwned r sv x as) Q E s"
  using assms by (intro total_createOwned) (auto intro: adds_put)

lemma total_createIfMissing:
  assumes "inv (world s)" "admissible x" "decodes (objKind x) as" "omOwnerReferences (objMeta x) = []"
    and "namespaceReady (view s) (omNamespace (objMeta x))"
  shows "total (createIfMissing r sv x as)
    (\<lambda>_ s'. adds {objKind x} (world s) (world s') \<and> view s' (objKind x) (ObjectKeyFromObject x) \<noteq> None) s"
  using assms unfolding createIfMissing_def
  by (auto simp: wp_simps adds_same intro!: total_getObject total_ensure)

subsection \<open>The server stack\<close>

lemma total_ensureConfigMap:
  assumes "inv (world s)" "namespaceReady (view s) (OperatorNamespace r)"
  shows "total (ensureConfigMap r sv (BuildConfigMap sv (OperatorNamespace r)))
    (\<lambda>_ s'. adds {KConfigMap} (world s) (world s') \<and> view s' KConfigMap (OperatorNamespace r, ConfigMapName sv) \<noteq> None) s"
  using assms unfolding ensureConfigMap_def
  by (auto simp: wp_simps built_metas ObjectKeyFromObject_def intro!: total_getObject total_ensure total_rewrite)

lemma total_ensureDeployment:
  assumes "inv (world s)" "namespaceReady (view s) (OperatorNamespace r)"
  shows "total (ensureDeployment r sv cm) (\<lambda>_ s'. adds {KDeployment} (world s) (world s')
      \<and> view s' KDeployment (OperatorNamespace r, ServerName sv) \<noteq> None) s"
  using assms drift_panic unfolding ensureDeployment_def Let_def
  by (auto simp: wp_simps built_metas built_containers ObjectKeyFromObject_def split: sum.splits
      intro!: total_getObject total_ensure total_rewrite)

lemma total_ensureService:
  assumes "inv (world s)" "namespaceReady (view s) (OperatorNamespace r)"
  shows "total (ensureService r sv) (\<lambda>ip s'. ip \<noteq> '''' \<and> adds {KService} (world s) (world s')
      \<and> view s' KService (OperatorNamespace r, ServerName sv) \<noteq> None) s"
  using assms unfolding ensureService_def Let_def
  by (auto simp: wp_simps built_metas ObjectKeyFromObject_def service_address created_def
      intro!: total_getObject total_ensure dest: adds_inv service_address_put [OF adds_inv])

lemma total_reconcileSeed:
  assumes "inv (world s)" "namespaceReady (view s) (OperatorNamespace r)" "backup_admitted sv"
  shows "total (reconcileSeed r sv) (\<lambda>(seeded, sv') s'. adds {KJob} (world s) (world s')
      \<and> svMeta sv' = svMeta sv \<and> svSpec sv' = svSpec sv
      \<and> (\<not> seeded \<longrightarrow> view s' KJob (OperatorNamespace r, SeedJobName sv) \<noteq> None)) s"
proof -
  have built: "BuildSeedJob sv ns img = Inl p \<Longrightarrow> svBackup sv = None" for ns img p
    using backup_built_total(2) [OF assms(3), of ns img] by (cases "svBackup sv") auto
  have same: "svMeta sv' = svMeta sv \<and> svSpec sv' = svSpec sv"
    if "setRestoredCondition r w sv st rsn msg = (b, sv')" for w st rsn msg b sv'
    using setRestoredCondition_frame [of r w sv st rsn msg] that by simp
  show ?thesis
    using assms unfolding reconcileSeed_def
    by (auto simp: wp_simps ObjectKeyFromObject_def event_view dest!: built same backup_meta(2)
       intro!: total_getObject total_ensure split: sum.splits prod.splits option.splits) auto
qed

lemma total_seq:
  assumes "total m (\<lambda>x s'. adds K (world s) (world s') \<and> P x s') s" "adds L w (world s)" "K \<subseteq> L"
    and "\<And>x s'. adds L w (world s') \<Longrightarrow> adds K (world s) (world s') \<Longrightarrow> P x s' \<Longrightarrow> total (f x) Q s'"
  shows "total (bindE m f) Q s"
  using assms(1) by (rule wp_seq) (auto intro: assms(4) adds_trans [OF assms(2) _ subset_refl assms(3)])

text \<open>The part of \<^verbatim>\<open>reconcileServer\<close> after the seed gate.\<close>

lemma total_serverEnd:
  assumes "inv (world s)" "namespaceReady (view s) (OperatorNamespace r)"
    and "\<not> seeded \<Longrightarrow> view s KJob (OperatorNamespace r, SeedJobName sv) \<noteq> None"
  shows "total (bindE (if seeded then ensureDeployment r sv cm else returnE False) (\<lambda>serverReady.
        bindE (ensureService r sv) (\<lambda>clusterIP. returnE (clusterIP, serverReady, sv))))
      (\<lambda>(ip, ready, sv') s'. adds {KDeployment, KService} (world s) (world s') \<and> ip \<noteq> '''' \<and> sv' = sv
        \<and> view s' KService (OperatorNamespace r, ServerName sv) \<noteq> None
        \<and> (view s' KDeployment (OperatorNamespace r, ServerName sv) \<noteq> None
           \<or> view s' KJob (OperatorNamespace r, SeedJobName sv) \<noteq> None)) s"
proof -
  let ?there = "\<lambda>t. view t KDeployment (OperatorNamespace r, ServerName sv) \<noteq> None
    \<or> view t KJob (OperatorNamespace r, SeedJobName sv) \<noteq> None"
  have "total (if seeded then ensureDeployment r sv cm else returnE False)
      (\<lambda>_ t. adds {KDeployment} (world s) (world t) \<and> ?there t) s"
  proof (cases seeded)
    case True
    show ?thesis
      unfolding if_P [OF True] by (rule wp_mono [OF total_ensureDeployment [OF assms(1,2)]]) simp_all
  qed (use assms(1,3) in \<open>simp add: wp_return\<close>)
  then show ?thesis
  proof (rule wp_seq)
    fix b t
    assume t: "adds {KDeployment} (world s) (world t) \<and> ?there t"
    then have ready: "inv (world t)" "namespaceReady (view t) (OperatorNamespace r)"
      using assms(2) adds_ready [of "{KDeployment}" "world s" "world t" "OperatorNamespace r"] by (auto simp: adds_inv)
    have later: "adds {KDeployment, KService} (world s) (world u) \<and> ?there u" if "adds {KService} (world t) (world u)" for u :: "'w run"
    proof
      show "adds {KDeployment, KService} (world s) (world u)" by (rule adds_trans [OF conjunct1 [OF t] that]) auto
      from conjunct2 [OF t] show "?there u" using adds_present [OF that] by (elim disjE) (simp_all only: simp_thms)
    qed
    show "total (bindE (ensureService r sv) (\<lambda>clusterIP. returnE (clusterIP, b, sv)))
      (\<lambda>(ip, ready, sv') s'. adds {KDeployment, KService} (world s) (world s') \<and> ip \<noteq> '''' \<and> sv' = sv
        \<and> view s' KService (OperatorNamespace r, ServerName sv) \<noteq> None \<and> ?there s') t"
      by (rule wp_seq [OF total_ensureService [OF ready]]) (use later in \<open>simp add: wp_return\<close>)
  qed
qed

lemma total_reconcileServer:
  assumes "inv (world s)" "namespaceReady (view s) (OperatorNamespace r)" "backup_admitted sv"
  shows "total (reconcileServer r sv) (\<lambda>(ip, ready, sv') s'. adds stackKinds (world s) (world s') \<and> ip \<noteq> ''''
      \<and> svMeta sv' = svMeta sv \<and> svSpec sv' = svSpec sv \<and> stackThere r sv (view s')) s"
proof -
  let ?ns = "OperatorNamespace r"
  have ready: "inv (world t)" "namespaceReady (view t) ?ns" if "adds stackKinds (world s) (world t)" for t :: "'w run"
    using that assms(2) adds_ready [OF that, of ?ns] by (auto simp: stackKinds_def adds_inv)
  have pvc: "total (createIfMissing r sv (OPVC (BuildBackingPVC sv ?ns)) asPVC)
      (\<lambda>_ t. adds {KPVC} (world s) (world t) \<and> view t KPVC (backingKey r sv) \<noteq> None) s"
    using total_createIfMissing [of s "OPVC (BuildBackingPVC sv ?ns)" asPVC sv] assms
    by (simp add: backingKey_def ObjectKeyFromObject_def)
  have names: "ServerName sv' = ServerName sv" "SeedJobName sv' = SeedJobName sv" if "svMeta sv' = svMeta sv" for sv'
    using that by (simp_all add: object_names)
  show ?thesis unfolding reconcileServer_def
  proof (rule total_seq [OF pvc, where L = stackKinds and w = "world s"], goal_cases)
    case (3 x0 s0)
    then show ?case
    proof (intro total_seq [OF total_ensureConfigMap, where L = stackKinds and w = "world s"], goal_cases)
      case (5 cm s1)
      then show ?case
      proof (intro total_seq [OF total_reconcileSeed [unfolded split_beta], where L = stackKinds and w = "world s"], goal_cases)
        case (6 x s2)
        obtain seeded sv' where x: "x = (seeded, sv')" by (cases x)
        have s2: "adds stackKinds (world s) (world s2)" using 6 by blast
        have sv': "svMeta sv' = svMeta sv" "svSpec sv' = svSpec sv"
          "\<not> seeded \<Longrightarrow> view s2 KJob (?ns, SeedJobName sv') \<noteq> None" using 6 x names(2) [of sv'] by auto
        have here: "view s2 KPVC (backingKey r sv) \<noteq> None" "view s2 KConfigMap (?ns, ConfigMapName sv) \<noteq> None"
          using 3 5 6 adds_present by blast+
        have kept: "adds stackKinds (world s) (world t)
            \<and> view t KPVC (backingKey r sv) \<noteq> None \<and> view t KConfigMap (?ns, ConfigMapName sv) \<noteq> None"
          if "adds {KDeployment, KService} (world s2) (world t)" for t :: "'w run"
          using adds_trans [OF s2 that] adds_present [OF that here(1)] adds_present [OF that here(2)]
          by (simp add: stackKinds_def)
        show ?case unfolding x prod.case
          by (rule wp_mono [OF total_serverEnd [OF ready [OF s2] sv'(3)]])
            (use kept sv'(1,2) names [OF sv'(1)] in \<open>auto simp: stackThere_def\<close>)
      qed (auto simp: ready assms(3) stackKinds_def)
    qed (auto simp: ready stackKinds_def)
  qed (auto simp: stackKinds_def assms)
qed

end

subsection \<open>Targets\<close>

text \<open>The namespaces that the spec asks for, in a state of the cluster.\<close>

definition wanted :: "('w, 'b) SharedVolumeReconciler_scheme \<Rightarrow> SharedVolume \<Rightarrow> view \<Rightarrow> string \<Rightarrow> bool" where
  "wanted r sv v t = (\<exists>n. v KNamespace ('''', t) = Some (ONamespace n) \<and> IsZero (omDeletionTimestamp (nsMeta n))
     \<and> selectsNamespace r sv (nsMeta n))"

definition selectorParses :: "('w, 'b) SharedVolumeReconciler_scheme \<Rightarrow> SharedVolume \<Rightarrow> bool" where
  "selectorParses r sv = (case selSelector (specNamespaces (svSpec sv)) of None \<Rightarrow> True
     | Some sel \<Rightarrow> (\<exists>f. labelSelectorAsSelector r sel = Inr f))"

definition liveNamespace :: "view \<Rightarrow> string \<Rightarrow> bool" where
  "liveNamespace v t = (\<exists>n. v KNamespace ('''', t) = Some (ONamespace n) \<and> IsZero (omDeletionTimestamp (nsMeta n)))"

lemma liveNamespace_iff:
  "v KNamespace ('''', t) = Some (ONamespace n) \<Longrightarrow> liveNamespace v t = IsZero (omDeletionTimestamp (nsMeta n))"
  "v KNamespace ('''', t) = None \<Longrightarrow> \<not> liveNamespace v t"
  by (auto simp: liveNamespace_def)

lemma liveNamespace_ready: "liveNamespace v t \<Longrightarrow> namespaceReady v t"
  by (auto simp: liveNamespace_def namespaceReady_def)

lemma wanted_live: "wanted r sv v t \<Longrightarrow> liveNamespace v t"
  by (auto simp: wanted_def liveNamespace_def)

context api_server
begin

lemma total_collectNamed:
  assumes "inv (world s)"
  shows "total (collectNamed r names keys) (\<lambda>ks s'. world s' = world s \<and> (distinct keys \<longrightarrow> distinct ks)
    \<and> set ks = set keys \<union> {n \<in> set names. liveNamespace (view s) n}) s"
  using assms
proof (induction names arbitrary: keys s)
  case Nil
  then show ?case by (simp add: wp_simps)
next
  case (Cons n names)
  define Q where "Q = (\<lambda>ks (s' :: 'w run). world s' = world s \<and> (distinct keys \<longrightarrow> distinct ks)
      \<and> set ks = set keys \<union> {m \<in> set (n # names). liveNamespace (view s) m})"
  have step: "total (collectNamed r names keys') Q s'"
    if "world s' = world s" "distinct keys \<longrightarrow> distinct keys'"
      "set keys' = set keys \<union> {m. m = n \<and> liveNamespace (view s) m}" for s' keys'
    by (rule wp_mono [OF Cons.IH]) (use that Cons.prems in \<open>auto simp: Q_def\<close>)
  have "total (collectNamed r (n # names) keys) Q s"
    using Cons.prems by (auto simp: wp_simps liveNamespace_iff split: if_splits
        intro!: total_getObject step)
  then show ?case by (simp add: Q_def)
qed

lemma total_targetNamespaces:
  assumes "inv (world s)" "selectorParses r sv"
  shows "total (targetNamespaces r sv) (\<lambda>ts s'. world s' = world s \<and> sorted ts \<and> distinct ts
    \<and> (\<forall>t. t \<in> set ts \<longleftrightarrow> wanted r sv (view s) t)) s"
proof -
  have name: "omName (nsMeta n) = t" if "view s KNamespace ('''', t) = Some (ONamespace n)" for t n
    using stored_typed(2) [OF assms(1) that] by (simp add: ObjectKeyFromObject_def)
  have key: "ObjectKeyFromObject (ONamespace n) = ('''', t)" if "view s KNamespace ('''', t) = Some (ONamespace n)" for t n
    using stored_typed(2) [OF assms(1) that] .
  have scope: "view s KNamespace ('''', omName (nsMeta n)) = Some (ONamespace n)"
    if "view s KNamespace (ObjectKeyFromObject (ONamespace n)) = Some (ONamespace n)" for n
    using stored_typed(3) [OF assms(1) that] that by (simp add: ObjectKeyFromObject_def)
  have selected: "selectsNamespace r sv (nsMeta n) \<longleftrightarrow> t \<in> set (selNames (specNamespaces (svSpec sv)))
      \<or> (\<exists>sel f. selSelector (specNamespaces (svSpec sv)) = Some sel \<and> labelSelectorAsSelector r sel = Inr f \<and> f (omLabels (nsMeta n)))"
    if "view s KNamespace ('''', t) = Some (ONamespace n)" for t n
    using name [OF that] by (simp add: selectsNamespace_def)
  have wanted_iff: "wanted r sv (view s) t \<longleftrightarrow> t \<in> set (selNames (specNamespaces (svSpec sv))) \<and> liveNamespace (view s) t
      \<or> (\<exists>sel f n. selSelector (specNamespaces (svSpec sv)) = Some sel \<and> labelSelectorAsSelector r sel = Inr f
        \<and> view s KNamespace ('''', t) = Some (ONamespace n) \<and> f (omLabels (nsMeta n))
        \<and> IsZero (omDeletionTimestamp (nsMeta n)))" for t
    unfolding wanted_def liveNamespace_def using selected by blast
  show ?thesis unfolding targetNamespaces_def
  proof (rule wp_seq [OF total_collectNamed [OF assms(1)]], goal_cases)
    case (1 ks s1)
    then show ?case
    proof (cases "selSelector (specNamespaces (svSpec sv))")
      case None
      with 1 show ?thesis by (auto simp: wp_simps wanted_iff)
    next
      case (Some sel)
      then obtain f where f: "labelSelectorAsSelector r sel = Inr f" using assms(2) by (auto simp: selectorParses_def)
      show ?thesis unfolding Some option.case f sum.case wp_bind
      proof (rule total_listObjects [where con = ONamespace], goal_cases)
        case (4 nss s2)
        have nss: "n \<in> set nss \<longleftrightarrow> view s KNamespace ('''', omName (nsMeta n)) = Some (ONamespace n) \<and> f (omLabels (nsMeta n))" for n
          using 4(1) [of n] 1 scope [of n] key [of "omName (nsMeta n)" n] by (auto simp: selects_def)
        have "t \<in> set (collectSelected nss ks) \<longleftrightarrow> wanted r sv (view s) t" for t
        proof -
          have "(\<exists>n. n \<in> set nss \<and> IsZero (omDeletionTimestamp (nsMeta n)) \<and> omName (nsMeta n) = t) \<longleftrightarrow>
              (\<exists>n. view s KNamespace ('''', t) = Some (ONamespace n) \<and> f (omLabels (nsMeta n))
                \<and> IsZero (omDeletionTimestamp (nsMeta n)))"
            using nss name by blast
          moreover have "t \<in> set (collectSelected nss ks) \<longleftrightarrow>
              t \<in> set ks \<or> (\<exists>n. n \<in> set nss \<and> IsZero (omDeletionTimestamp (nsMeta n)) \<and> omName (nsMeta n) = t)"
            by (auto simp: set_collectSelected)
          moreover have "t \<in> set ks \<longleftrightarrow> t \<in> set (selNames (specNamespaces (svSpec sv))) \<and> liveNamespace (view s) t"
            using 1 by simp
          ultimately show ?thesis by (simp only: wanted_iff Some f option.inject sum.inject simp_thms ex_simps)
        qed
        with 1 4(2) show ?case by (auto simp: wp_simps distinct_collectSelected)
      qed (use 1 assms(1) in auto)
    qed
  qed
qed

end

end
