(* ===== verification/Departing.thy ===== *)
theory Departing
  imports LiveServer
begin

text \<open>
  Objects on their way out: what a step that deletes does to the object store (\<open>fades\<close>), claims and PVs of a
  volume, and the rule for a deletion that ignores a missing object. The clean-up of stale pairs and the
  teardown share it.
\<close>

subsection \<open>Objects on their way out\<close>

definition departing :: "view \<Rightarrow> kind \<Rightarrow> NamespacedName \<Rightarrow> bool" where
  "departing v k key = (\<forall>x. v k key = Some x \<longrightarrow> \<not> IsZero (omDeletionTimestamp (objMeta x)))"

text \<open>A step that deletes: every object of the kinds \<open>K\<close> is untouched, marked or gone.\<close>

definition fade :: "obj option \<Rightarrow> obj option \<Rightarrow> bool" where
  "fade a b = (b = a \<or> b = None \<or> (\<exists>x y. a = Some x \<and> b = Some y \<and> marked x y))"

definition fades :: "kind set \<Rightarrow> view \<Rightarrow> view \<Rightarrow> bool" where
  "fades K v v' = (only K v v' \<and> (\<forall>k key. fade (v k key) (v' k key)))"

lemma specKept_trans: "objKind y = objKind x \<Longrightarrow> objKind z = objKind y \<Longrightarrow> specKept x y \<Longrightarrow> specKept y z \<Longrightarrow> specKept x z"
  by (cases x; cases y; simp; cases z; simp)

lemma marked_trans: "marked x y \<Longrightarrow> marked y z \<Longrightarrow> marked x z"
  using specKept_trans [of y x z] by (simp add: marked_def sameIdentity_def)

lemma fade_refl [simp]: "fade a a"
  by (simp add: fade_def)

lemma fade_trans: "fade a b \<Longrightarrow> fade b c \<Longrightarrow> fade a c"
  unfolding fade_def using marked_trans by fastforce

lemma fades_refl [simp]: "fades K v v"
  by (simp add: fades_def)

lemma fades_put:
  "k \<in> K \<Longrightarrow> fades K v (put v k key None)"
  "k \<in> K \<Longrightarrow> v k key = Some x \<Longrightarrow> marked x y \<Longrightarrow> fades K v (put v k key (Some y))"
  by (auto simp: fades_def fade_def)

lemma fades_trans: "fades K v v' \<Longrightarrow> fades K v' v'' \<Longrightarrow> fades K v v''"
  unfolding fades_def using fade_trans only_trans by blast

lemma fades_at: "fades K v v' \<Longrightarrow> fade (v k key) (v' k key)"
  by (cases key) (simp add: fades_def)

lemma fades_mono: "fades K v v' \<Longrightarrow> K \<subseteq> L \<Longrightarrow> fades L v v'"
  by (auto simp: fades_def only_def)

lemma fades_only: "fades K v v' \<Longrightarrow> k \<notin> K \<Longrightarrow> v' k = v k"
  by (simp add: fades_def only_def)

lemma departing_fades:
  assumes "fades K v v'" "departing v k key"
  shows "departing v' k key"
  using fades_at [OF assms(1), of k key] assms(2) by (auto simp: fade_def departing_def marked_def)

lemma departing_put [simp]:
  "departing (put v k key None) k key"
  "marked x y \<Longrightarrow> departing (put v k key (Some y)) k key"
  "v k key = None \<Longrightarrow> departing v k key"
  by (auto simp: departing_def marked_def)

text \<open>A claim of the volume, and a PV whose claim is one.\<close>

definition ownClaim :: "SharedVolume \<Rightarrow> view \<Rightarrow> NamespacedName \<Rightarrow> bool" where
  "ownClaim sv v key = (\<exists>c. v KPVC key = Some (OPVC c) \<and> mapGet (omLabels (pvcMeta c)) LabelSharedVolume = svName sv)"

definition held :: "SharedVolume \<Rightarrow> view \<Rightarrow> PersistentVolume \<Rightarrow> bool" where
  "held sv v pv = (\<exists>ref. pvClaimRef (pvSpec pv) = Some ref \<and> ownClaim sv v (refNamespace ref, refName ref))"

definition ownPV :: "SharedVolume \<Rightarrow> view \<Rightarrow> PersistentVolume \<Rightarrow> bool" where
  "ownPV sv v pv = (v KPV (ObjectKeyFromObject (OPV pv)) = Some (OPV pv)
     \<and> omLabels (pvMeta pv) LabelSharedVolume = Some (svName sv))"

text \<open>What the teardown has done to a PV and its claim.\<close>

definition released :: "SharedVolume \<Rightarrow> view \<Rightarrow> view \<Rightarrow> PersistentVolume \<Rightarrow> bool" where
  "released sv v v' pv =
     (if held sv v pv
      then \<forall>ref. pvClaimRef (pvSpec pv) = Some ref \<longrightarrow> departing v' KPVC (refNamespace ref, refName ref)
      else departing v' KPV (ObjectKeyFromObject (OPV pv)))"

lemma ownClaim_fades:
  assumes "fades K v v'" "ownClaim sv v' key"
  shows "ownClaim sv v key"
proof -
  obtain c where c: "v' KPVC key = Some (OPVC c)" "mapGet (omLabels (pvcMeta c)) LabelSharedVolume = svName sv"
    using assms(2) by (auto simp: ownClaim_def)
  consider "v KPVC key = Some (OPVC c)" | x where "v KPVC key = Some x" "marked x (OPVC c)"
    using fades_at [OF assms(1), of KPVC key] c(1) by (auto simp: fade_def)
  then show ?thesis
  proof cases
    case 2
    then show ?thesis using c(2) by (cases x) (auto simp: ownClaim_def marked_def sameIdentity_def)
  qed (use c in \<open>auto simp: ownClaim_def\<close>)
qed

lemma held_fades: "fades K v v' \<Longrightarrow> held sv v' pv \<Longrightarrow> held sv v pv"
  unfolding held_def using ownClaim_fades by blast

lemma held_claims: "v' KPVC = v KPVC \<Longrightarrow> held sv v' pv = held sv v pv"
  by (simp add: held_def ownClaim_def)

lemma released_fades: "fades K v' v'' \<Longrightarrow> released sv v v' pv \<Longrightarrow> released sv v v'' pv"
  using departing_fades [of K v' v''] by (auto simp: released_def split: if_splits)

lemma marked_onto: "marked x (OPVC c) \<Longrightarrow> \<exists>d. x = OPVC d \<and> omLabels (pvcMeta d) = omLabels (pvcMeta c)"
  by (cases x) (simp_all add: marked_def sameIdentity_def)

lemma marked_claim: "marked (OPVC c) y \<Longrightarrow> \<exists>d. y = OPVC d \<and> omLabels (pvcMeta d) = omLabels (pvcMeta c)"
  by (cases y) (simp_all add: marked_def sameIdentity_def)

lemma marked_PV: "marked x (OPV pv) \<Longrightarrow> \<exists>p. x = OPV p \<and> ObjectKeyFromObject (OPV p) = ObjectKeyFromObject (OPV pv)
    \<and> omLabels (pvMeta p) = omLabels (pvMeta pv) \<and> pvClaimRef (pvSpec p) = pvClaimRef (pvSpec pv)"
  by (cases x) (auto simp: marked_def sameIdentity_def)

lemma fade_PV: "fade a (Some (OPV pv)) \<Longrightarrow> \<exists>p. a = Some (OPV p) \<and> ObjectKeyFromObject (OPV p) = ObjectKeyFromObject (OPV pv)
    \<and> omLabels (pvMeta p) = omLabels (pvMeta pv) \<and> pvClaimRef (pvSpec p) = pvClaimRef (pvSpec pv)"
  using marked_PV by (auto simp: fade_def)

lemma fade_claim: "fade a (Some (OPVC c)) \<Longrightarrow> \<exists>d. a = Some (OPVC d) \<and> omLabels (pvcMeta d) = omLabels (pvcMeta c)"
  using marked_onto by (auto simp: fade_def)

text \<open>A PV that is being taken away: it is on its way out itself, or its claim is gone or going.\<close>

definition withdrawn :: "view \<Rightarrow> PersistentVolume \<Rightarrow> bool" where
  "withdrawn v pv = (departing v KPV (ObjectKeyFromObject (OPV pv))
     \<or> (\<exists>ref. pvClaimRef (pvSpec pv) = Some ref \<and> departing v KPVC (refNamespace ref, refName ref)))"

lemma withdrawn_fades: "fades K v v' \<Longrightarrow> withdrawn v pv \<Longrightarrow> withdrawn v' pv"
  unfolding withdrawn_def using departing_fades by blast

lemma put_same: "put v k key (v k key) = v"
  by (auto simp: put_def)

context api_server
begin

text \<open>Deleting an object, missing or not, leaves it gone or marked.\<close>

lemma total_drop:
  assumes "inv (world s)"
  shows "total (ignoring IsNotFound (deleteObject r k key p))
    (\<lambda>_ s'. inv (world s') \<and> fades {k} (view s) (view s') \<and> departing (view s') k key
       \<and> (\<exists>x. view s' = put (view s) k key x)) s"
  unfolding wp_ignoring
  by (rule total_deleteObject) (use assms in \<open>auto intro: fades_put put_same [symmetric]\<close>)

end

end
