(* ===== verification/LivePass.thy ===== *)
theory LivePass
  imports Departing
begin

text \<open>
  The rest of a pass over a live volume without interference: the pre-bound pairs of the targets and the
  clean-up of stale ones, the network policy, the backup, the status, and \<^verbatim>\<open>Reconcile\<close> as a whole. After one
  pass the volume is \<open>converged\<close>: everything the spec asks for is there and the status says so.
\<close>

subsection \<open>Pairs\<close>

definition pairThere :: "SharedVolume \<Rightarrow> view \<Rightarrow> string \<Rightarrow> bool" where
  "pairThere sv v t = (v KPV ('''', PVName sv t) \<noteq> None \<and> v KPVC (t, ConsumerPVCName sv) \<noteq> None)"

text \<open>The PV is reserved for the volume's claim in the namespace.\<close>

definition reservedFor :: "SharedVolume \<Rightarrow> string \<Rightarrow> PersistentVolume \<Rightarrow> bool" where
  "reservedFor sv t pv = (map_option (\<lambda>ref. (refNamespace ref, refName ref)) (pvClaimRef (pvSpec pv))
     = Some (t, ConsumerPVCName sv))"

text \<open>
  Every PV under the name of a pair of the volume is reserved for that pair's claim, and every PV labelled as
  the volume's is reserved for one of its claims. \<open>PVName_collision\<close> shows why this has to be said: another
  volume's PV can sit under the name.
\<close>

definition ownVolumes :: "SharedVolume \<Rightarrow> view \<Rightarrow> bool" where
  "ownVolumes sv v = (\<forall>key pv. v KPV key = Some (OPV pv) \<longrightarrow>
     (\<forall>t. key = ('''', PVName sv t) \<longrightarrow> reservedFor sv t pv)
     \<and> (omLabels (pvMeta pv) LabelSharedVolume = Some (svName sv) \<longrightarrow> (\<exists>t. reservedFor sv t pv)))"

text \<open>No PV of the volume is left for a namespace that is no target, unless it is withdrawn.\<close>

definition staleWithdrawn :: "SharedVolume \<Rightarrow> (string \<Rightarrow> bool) \<Rightarrow> view \<Rightarrow> bool" where
  "staleWithdrawn sv target v = (\<forall>pv ref. ownPV sv v pv \<longrightarrow> pvClaimRef (pvSpec pv) = Some ref
     \<longrightarrow> \<not> target (refNamespace ref) \<longrightarrow> withdrawn v pv)"

lemma staleWithdrawn_cong:
  "svName a = svName b \<Longrightarrow> v KPV = w KPV \<Longrightarrow> v KPVC = w KPVC \<Longrightarrow> staleWithdrawn a target v = staleWithdrawn b target w"
  by (simp add: staleWithdrawn_def ownPV_def withdrawn_def departing_def)

lemma PVName_namespace [simp]: "PVName sv t = PVName sv t' \<longleftrightarrow> t = t'"
  by (simp add: PVName_def)

lemma reservedFor_build [simp]: "reservedFor sv t (BuildPV sv t ip)"
  by (simp add: reservedFor_def BuildPV_def)

lemma reservedFor_repair [simp]: "reservedFor sv t (repairPV pv) = reservedFor sv t pv"
  by (cases "pvClaimRef (pvSpec pv)") (simp_all add: reservedFor_def repairPV_def)

lemma ownVolumes_put:
  "ownVolumes sv v \<Longrightarrow> reservedFor sv t pv \<Longrightarrow> ownVolumes sv (put v KPV ('''', PVName sv t) (Some (OPV pv)))"
  by (auto simp: ownVolumes_def)

lemma ownVolumes_other: "only K v v' \<Longrightarrow> KPV \<notin> K \<Longrightarrow> ownVolumes sv v' = ownVolumes sv v"
  by (simp add: ownVolumes_def only_at)

context api_server
begin

lemma total_ensurePV:
  assumes "inv (world s)"
  shows "total (ensurePV r sv ns ip) (\<lambda>_ s'. adds {KPV} (world s) (world s') \<and> view s' KPV ('''', PVName sv ns) \<noteq> None
    \<and> (ownVolumes sv (view s) \<longrightarrow> ownVolumes sv (view s'))) s"
proof -
  have built: "reservedFor sv ns z" if "pvClaimRef (pvSpec z) = pvClaimRef (pvSpec (BuildPV sv ns ip))" for z
    using that reservedFor_build [of sv ns ip] by (simp add: reservedFor_def)
  have kept: "reservedFor sv ns z" if "pvClaimRef (pvSpec z) = pvClaimRef (pvSpec (repairPV x))"
    "ownVolumes sv (view s)" "view s KPV ('''', PVName sv ns) = Some (OPV x)" for x z
    using that reservedFor_repair [of sv ns x] by (simp add: ownVolumes_def reservedFor_def)
  have meta: "pvMeta (repairPV x) = pvMeta x" for x by (simp add: repairPV_def)
  show ?thesis
    using assms unfolding ensurePV_def Let_def
    by (auto simp: wp_simps ObjectKeyFromObject_def namespaceReady_def created_def updated_def rewritten_def meta
        intro!: total_getObject total_ensure total_rewrite ownVolumes_put intro: built)
      (auto intro!: ownVolumes_put kept)
qed

text \<open>What one binding step keeps: other pairs, and the ownership of the volume's PVs.\<close>

definition pairs :: "SharedVolume \<Rightarrow> 'w run \<Rightarrow> 'w run \<Rightarrow> bool" where
  "pairs sv s s' = (adds {KPV, KPVC} (world s) (world s') \<and> (ownVolumes sv (view s) \<longrightarrow> ownVolumes sv (view s')))"

lemma pairs_trans: "pairs sv s s' \<Longrightarrow> pairs sv s' s'' \<Longrightarrow> pairs sv s s''"
  by (auto simp: pairs_def intro: adds_trans)

lemma pairs_there: "pairs sv s s' \<Longrightarrow> pairThere sv (view s) t \<Longrightarrow> pairThere sv (view s') t"
  unfolding pairs_def pairThere_def using adds_present by blast

lemma total_reconcileBinding:
  assumes "inv (world s)" "namespaceReady (view s) ns"
  shows "total (reconcileBinding r sv ns ip) (\<lambda>_ s'. pairs sv s s' \<and> pairThere sv (view s') ns) s"
proof -
  have claims: "total (let pvc = BuildConsumerPVC sv ns in
     switchGet (getObject r KPVC asPVC (ObjectKeyFromObject (OPVC pvc)))
       (bindE (createOwned r sv (OPVC pvc) asPVC) (\<lambda>_. returnE BindingPending))
       (\<lambda>existingPVC.
         if mapGet (omLabels (pvcMeta existingPVC)) LabelSharedVolume \<noteq> svName sv
         then bindE (eventf r (conflictEvent sv ns (omName (pvcMeta pvc)))) (\<lambda>_. returnE BindingConflict)
         else if \<not> IsZero (omDeletionTimestamp (pvcMeta existingPVC)) then returnE BindingTerminating
         else if pvcPhase existingPVC = ClaimBound then returnE BindingBound
         else returnE BindingPending))
    (\<lambda>_ s'. adds {KPVC} (world t) (world s') \<and> view s' KPVC (ns, ConsumerPVCName sv) \<noteq> None) t"
    if "inv (world t)" "namespaceReady (view t) ns" for t
    using that by (auto simp: wp_simps Let_def ObjectKeyFromObject_def event_view
        intro!: total_getObject total_ensure)
  show ?thesis unfolding reconcileBinding_def
  proof (rule wp_seq [OF total_ensurePV [OF assms(1)]], goal_cases)
    case t: (1 x t)
    from t have ready: "inv (world t)" "namespaceReady (view t) ns"
      using assms(2) adds_ready [of "{KPV}" "world s" "world t"] by (auto simp: adds_inv)
    have after: "pairs sv s u \<and> pairThere sv (view u) ns"
      if u: "adds {KPVC} (world t) (world u) \<and> view u KPVC (ns, ConsumerPVCName sv) \<noteq> None" for u :: "'w run"
    proof -
      have "ownVolumes sv (view u) = ownVolumes sv (view t)"
        using u by (intro ownVolumes_other [of "{KPVC}"]) (auto simp: adds_def)
      moreover have "adds {KPV, KPVC} (world s) (world u)" using t u by (auto intro: adds_trans)
      moreover have "view u KPV ('''', PVName sv ns) \<noteq> None" using t u adds_present by blast
      ultimately show ?thesis using t u by (simp add: pairs_def pairThere_def)
    qed
    show ?case
      by (rule wp_mono [OF claims [OF ready]]) (use after in auto)
  qed
qed

lemma total_reconcileBindings:
  assumes "inv (world s)" "\<forall>t \<in> set targets. namespaceReady (view s) t"
  shows "total (reconcileBindings r sv targets ip) (\<lambda>bs s'. map nbNamespace bs = targets \<and> pairs sv s s'
    \<and> (\<forall>t \<in> set targets. pairThere sv (view s') t)) s"
  using assms
proof (induction targets arbitrary: s)
  case Nil
  then show ?case by (simp add: wp_simps pairs_def)
next
  case (Cons ns targets)
  show ?case unfolding reconcileBindings.simps
  proof (rule wp_seq [OF total_reconcileBinding], goal_cases)
    case (3 ph t)
    then have "adds {KPV, KPVC} (world s) (world t)" by (simp add: pairs_def)
    then have "inv (world t)" "\<forall>u \<in> set targets. namespaceReady (view t) u"
      using Cons.prems adds_ready [of "{KPV, KPVC}" "world s" "world t"] by (auto simp: adds_inv)
    from Cons.IH [OF this] show ?case
      by (rule wp_seq) (use 3 in \<open>auto simp: wp_return intro: pairs_trans pairs_there\<close>)
  qed (use Cons.prems in auto)
qed

subsection \<open>Stale pairs\<close>

text \<open>The clean-up touches PVs and the volume's claims only, and no target loses its pair.\<close>

definition cleans :: "SharedVolume \<Rightarrow> string list \<Rightarrow> 'w run \<Rightarrow> 'w run \<Rightarrow> bool" where
  "cleans sv targets s s' = (inv (world s') \<and> only {KPV, KPVC} (view s) (view s')
     \<and> (\<forall>key. snd key \<noteq> ConsumerPVCName sv \<longrightarrow> view s' KPVC key = view s KPVC key)
     \<and> (\<forall>t \<in> set targets. pairThere sv (view s) t \<longrightarrow> pairThere sv (view s') t))"

lemma cleans_trans: "cleans sv targets s s' \<Longrightarrow> cleans sv targets s' s'' \<Longrightarrow> cleans sv targets s s''"
  by (auto simp: cleans_def intro: only_trans)

text \<open>A PV of the volume: reserved for one of its claims, and under the name of a pair for that pair's claim.\<close>

definition stalePV :: "SharedVolume \<Rightarrow> PersistentVolume \<Rightarrow> bool" where
  "stalePV sv pv = ((\<forall>t. ObjectKeyFromObject (OPV pv) = ('''', PVName sv t) \<longrightarrow> reservedFor sv t pv)
     \<and> (\<exists>t. reservedFor sv t pv))"

lemma ownVolumes_stale:
  assumes "ownVolumes sv v" "v KPV (ObjectKeyFromObject (OPV pv)) = Some (OPV pv)"
    and "omLabels (pvMeta pv) LabelSharedVolume = Some (svName sv)"
  shows "stalePV sv pv"
  using assms unfolding ownVolumes_def stalePV_def by blast

lemma cleans_pv:
  assumes "inv (world s')" "stalePV sv pv" "pvClaimRef (pvSpec pv) = Some ref" "refNamespace ref \<notin> set targets"
    and "view s' = put (view s) KPV (ObjectKeyFromObject (OPV pv)) x"
  shows "cleans sv targets s s'"
proof -
  have "(('''', PVName sv t) = ObjectKeyFromObject (OPV pv)) = (ObjectKeyFromObject (OPV pv) = ('''', PVName sv t))" for t
    by auto
  then show ?thesis using assms by (auto simp: cleans_def pairThere_def stalePV_def reservedFor_def)
qed

lemma cleans_claim:
  assumes "inv (world s')" "stalePV sv pv" "pvClaimRef (pvSpec pv) = Some ref" "refNamespace ref \<notin> set targets"
    and "view s' = put (view s) KPVC (refNamespace ref, refName ref) x"
  shows "cleans sv targets s s'"
  using assms by (auto simp: cleans_def pairThere_def stalePV_def reservedFor_def)

text \<open>Of the listed PVs, those reserved for a namespace that is no target are withdrawn.\<close>

definition cleaned :: "SharedVolume \<Rightarrow> string list \<Rightarrow> PersistentVolume list \<Rightarrow> 'w run \<Rightarrow> 'w run \<Rightarrow> bool" where
  "cleaned sv targets pvs s s' = (cleans sv targets s s' \<and> fades {KPV, KPVC} (view s) (view s')
     \<and> (\<forall>pv \<in> set pvs. \<forall>ref. pvClaimRef (pvSpec pv) = Some ref \<longrightarrow> refNamespace ref \<notin> set targets
          \<longrightarrow> withdrawn (view s') pv))"

text \<open>One PV of the loop.\<close>

lemma total_cleanup_PV:
  assumes "inv (world s)" "stalePV sv pv"
    and go: "\<And>t. cleaned sv targets [pv] s t \<Longrightarrow> total (cleanupPVs r sv targets pvs) Q t"
  shows "total (cleanupPVs r sv targets (pv # pvs)) Q s"
proof -
  have same: "cleans sv targets s t" if "world t = world s" for t
    using that assms(1) by (simp add: cleans_def)
  have skip: "total (cleanupPVs r sv targets (pv # pvs)) Q s"
    if "pvClaimRef (pvSpec pv) = None \<or> (\<exists>ref. pvClaimRef (pvSpec pv) = Some ref \<and> refNamespace ref \<in> set targets)"
    using that same [of s] by (auto simp: cleaned_def intro!: go)
  have "total (cleanupPVs r sv targets (pv # pvs)) Q s"
    if ref: "pvClaimRef (pvSpec pv) = Some ref" "refNamespace ref \<notin> set targets" for ref
  proof -
    let ?key = "(refNamespace ref, refName ref)"
    have drop: "wp (ignoring IsNotFound (deleteObject r KPV (ObjectKeyFromObject (OPV pv)) DefaultPropagation))
        (\<lambda>_. wp (cleanupPVs r sv targets pvs) Q (\<lambda>_ _. False)) (\<lambda>_ _. False) t" if w: "world t = world s" for t
      by (rule wp_mono [OF total_drop])
        (use w assms(1) in \<open>auto simp: cleaned_def withdrawn_def intro!: go intro: cleans_pv [OF _ assms(2) ref] fades_mono\<close>)
    have claim: "wp (ignoring IsNotFound (deleteObject r KPVC ?key DefaultPropagation))
        (\<lambda>_. wp (cleanupPVs r sv targets pvs) Q (\<lambda>_ _. False)) (\<lambda>_ _. False) t" if w: "world t = world s" for t
      by (rule wp_mono [OF total_drop])
        (use w assms(1) ref in \<open>auto simp: cleaned_def withdrawn_def intro!: go intro: cleans_claim [OF _ assms(2) ref] fades_mono\<close>)
    have going: "total (cleanupPVs r sv targets pvs) Q t"
      if "world t = world s" "view s KPVC ?key = Some (OPVC c)" "\<not> IsZero (omDeletionTimestamp (pvcMeta c))" for t c
      using that ref same [of t] by (intro go) (auto simp: cleaned_def withdrawn_def departing_def)
    show ?thesis
      using ref assms(1)
      by (auto simp: wp_bind wp_switchE wp_return Let_def intro!: total_getObject drop intro: claim going)
  qed
  with skip show ?thesis by (cases "pvClaimRef (pvSpec pv)") auto
qed

lemma cleaned_Cons:
  assumes "cleaned sv targets [pv] s t" "cleaned sv targets pvs t u"
  shows "cleaned sv targets (pv # pvs) s u"
  using assms withdrawn_fades [of "{KPV, KPVC}" "view t" "view u"] unfolding cleaned_def
  by (auto intro: cleans_trans fades_trans)

lemma total_cleanupPVs:
  assumes "inv (world s)" "\<forall>pv \<in> set pvs. stalePV sv pv"
  shows "total (cleanupPVs r sv targets pvs) (\<lambda>_ s'. cleaned sv targets pvs s s') s"
  using assms
proof (induction pvs arbitrary: s)
  case (Cons pv pvs)
  show ?case
  proof (rule total_cleanup_PV [OF Cons.prems(1)])
    fix t assume t: "cleaned sv targets [pv] s t"
    then have "inv (world t)" by (simp add: cleaned_def cleans_def)
    from wp_mono [OF Cons.IH [OF this] cleaned_Cons [OF t]] Cons.prems(2)
    show "total (cleanupPVs r sv targets pvs) (\<lambda>_ s'. cleaned sv targets (pv # pvs) s s') t" by simp
  qed (use Cons.prems(2) in simp)
qed (simp add: wp_simps cleans_def cleaned_def)

lemma total_cleanupStaleBindings:
  assumes "inv (world s)" "ownVolumes sv (view s)"
  shows "total (cleanupStaleBindings r sv targets)
    (\<lambda>_ s'. cleans sv targets s s' \<and> staleWithdrawn sv (\<lambda>t. t \<in> set targets) (view s')) s"
  unfolding cleanupStaleBindings_def
proof (rule wp_bind [THEN iffD2], rule total_listObjects [where con = OPV], goal_cases)
  case (4 pvs t)
  then have w: "world t = world s" and listed: "\<And>pv. pv \<in> set pvs \<longleftrightarrow> ownPV sv (view s) pv"
    by (simp_all add: ownPV_def selects_def)
  then have stale: "\<forall>pv \<in> set pvs. stalePV sv pv"
    using ownVolumes_stale [OF assms(2)] by (simp add: ownPV_def)
  have swept: "staleWithdrawn sv (\<lambda>t. t \<in> set targets) (view u)" if u: "cleaned sv targets pvs t u" for u
    unfolding staleWithdrawn_def
  proof (intro allI impI)
    fix pv ref
    assume pv: "ownPV sv (view u) pv" "pvClaimRef (pvSpec pv) = Some ref" "refNamespace ref \<notin> set targets"
    have "fade (view s KPV (ObjectKeyFromObject (OPV pv))) (view u KPV (ObjectKeyFromObject (OPV pv)))"
      using u w fades_at [of "{KPV, KPVC}" "view s" "view u"] by (simp add: cleaned_def)
    then obtain p where p: "view s KPV (ObjectKeyFromObject (OPV pv)) = Some (OPV p)"
      "ObjectKeyFromObject (OPV p) = ObjectKeyFromObject (OPV pv)" "omLabels (pvMeta p) = omLabels (pvMeta pv)"
      "pvClaimRef (pvSpec p) = pvClaimRef (pvSpec pv)"
      using fade_PV [of _ pv] pv(1) by (auto simp: ownPV_def)
    then have "p \<in> set pvs" using pv(1) listed by (simp add: ownPV_def)
    then have "withdrawn (view u) p" using u pv(2,3) p(4) by (simp add: cleaned_def)
    then show "withdrawn (view u) pv" using p(2,4) by (simp add: withdrawn_def)
  qed
  show ?case
    by (rule wp_mono [OF total_cleanupPVs [OF _ stale]])
      (use w assms(1) swept in \<open>auto simp: cleaned_def cleans_def\<close>)
qed (use assms in auto)

lemma total_bindingsStep:
  assumes "inv (world s)" "\<forall>t \<in> set targets. namespaceReady (view s) t" "ownVolumes sv (view s)" "ip \<noteq> ''''"
  shows "total (bindingsStep r sv targets ip) (\<lambda>bs s'. inv (world s') \<and> only {KPV, KPVC} (view s) (view s')
    \<and> (\<forall>key. snd key \<noteq> ConsumerPVCName sv \<longrightarrow> view s KPVC key \<noteq> None \<longrightarrow> view s' KPVC key \<noteq> None)
    \<and> map nbNamespace bs = targets \<and> (\<forall>t \<in> set targets. pairThere sv (view s') t)
    \<and> staleWithdrawn sv (\<lambda>t. t \<in> set targets) (view s')) s"
  unfolding bindingsStep_def if_P [OF assms(4)]
proof (rule wp_seq [OF total_reconcileBindings [OF assms(1,2)]], goal_cases)
  case binds: (1 bs t)
  then have "inv (world t)" "ownVolumes sv (view t)" using assms(3) by (auto simp: pairs_def adds_inv)
  from total_cleanupStaleBindings [OF this] show ?case
  proof (rule wp_seq, goal_cases)
    case (1 x u)
    have adds: "adds {KPV, KPVC} (world s) (world t)" using binds by (simp add: pairs_def)
    have "only {KPV, KPVC} (view s) (view u)"
      using 1 adds by (auto simp: cleans_def adds_def intro: only_trans)
    moreover have "view u KPVC key \<noteq> None" if "snd key \<noteq> ConsumerPVCName sv" "view s KPVC key \<noteq> None" for key
      using 1 that(1) adds_present [OF adds that(2)] by (cases key) (simp add: cleans_def)
    moreover have "inv (world u)" "\<forall>t \<in> set targets. pairThere sv (view u) t" "map nbNamespace bs = targets"
      "staleWithdrawn sv (\<lambda>t. t \<in> set targets) (view u)"
      using 1 binds by (simp_all add: cleans_def)
    ultimately show ?case unfolding wp_return by blast
  qed
qed

subsection \<open>Policy, backup, finalizer and status\<close>

lemma total_nodeIPs:
  assumes "inv (world s)"
  shows "total (nodeIPs r) (\<lambda>_ s'. world s' = world s) s"
  using assms unfolding nodeIPs_def
  by (auto simp: wp_simps intro!: total_listObjects [where con = ONode])

lemma total_reconcileNetworkPolicy:
  assumes "inv (world s)" "namespaceReady (view s) (OperatorNamespace r)"
  shows "total (reconcileNetworkPolicy r sv targets) (\<lambda>_ s'. inv (world s') \<and> only {KNetworkPolicy} (view s) (view s')
    \<and> (specNetworkPolicy (svSpec sv) \<noteq> NetworkPolicyDisabled \<longrightarrow>
         view s' KNetworkPolicy (OperatorNamespace r, ServerName sv) \<noteq> None)) s"
proof -
  have ips: "wp (nodeIPs r) Q E t" if "world t = world s" "\<And>ips t'. world t' = world s \<Longrightarrow> Q ips t'" for t Q E
    using total_nodeIPs [of t] that assms by (auto intro: wp_mono)
  show ?thesis
    using assms unfolding reconcileNetworkPolicy_def Let_def
    by (auto simp: wp_simps ObjectKeyFromObject_def adds_def
        intro!: total_getObject total_deleteObject ips total_ensure total_rewrite) auto
qed

lemma total_reconcileBackup:
  assumes "inv (world s)" "namespaceReady (view s) (OperatorNamespace r)" "backup_admitted sv"
  shows "total (reconcileBackup r sv) (\<lambda>sv' s'. inv (world s') \<and> only {KCronJob} (view s) (view s')
    \<and> svMeta sv' = svMeta sv \<and> svSpec sv' = svSpec sv
    \<and> (svBackup sv \<noteq> None \<longrightarrow> view s' KCronJob (OperatorNamespace r, BackupCronJobName sv) \<noteq> None)) s"
proof -
  have built: "BuildBackupCronJob sv ns img = Inl p \<Longrightarrow> svBackup sv = None" for ns img p
    using backup_built_total(1) [OF assms(3), of ns img] by (cases "svBackup sv") auto
  have desired: "cjMeta d = objectMeta (BackupCronJobName sv) ns (managedLabels sv)
      \<and> (\<forall>x p. \<not> backupCronJobDrifted x d = Inl p)" if "BuildBackupCronJob sv ns img = Inr d" for ns img d
    using backup_meta(1) [OF that] backupCronJobDrifted_total [OF that] by (metis sum.distinct(1))
  show ?thesis
    using assms unfolding reconcileBackup_def Let_def
    by (auto simp: wp_simps ObjectKeyFromObject_def adds_def setLastBackupTime_def dest!: built desired
        intro!: total_getObject total_deleteObject total_ensure total_rewrite split: sum.splits) auto
qed

lemma total_ensureFinalizer:
  assumes "inv (world s)" "view s KSharedVolume (ObjectKeyFromObject (OSharedVolume sv)) = Some (OSharedVolume sv)"
    and "IsZero (omDeletionTimestamp (svMeta sv))"
  shows "total (ensureFinalizer r sv) (\<lambda>sv' s'. adds {KSharedVolume} (world s) (world s')
    \<and> view s' KSharedVolume (ObjectKeyFromObject (OSharedVolume sv)) = Some (OSharedVolume sv')
    \<and> ObjectKeyFromObject (OSharedVolume sv') = ObjectKeyFromObject (OSharedVolume sv)
    \<and> svSpec sv' = svSpec sv \<and> svStatus sv' = svStatus sv \<and> IsZero (omDeletionTimestamp (svMeta sv'))
    \<and> finalizerName \<in> set (omFinalizers (svMeta sv'))) s"
proof (cases "finalizerName \<in> set (omFinalizers (svMeta sv))")
  case True
  have "setFinalizers sv (omFinalizers (svMeta sv)) = sv" by (simp add: setFinalizers_def)
  with True assms show ?thesis by (simp add: ensureFinalizer_def add_finalizer wp_simps)
next
  case False
  let ?sv = "setFinalizers sv (omFinalizers (svMeta sv) @ [finalizerName])"
  have key: "ObjectKeyFromObject (OSharedVolume ?sv) = ObjectKeyFromObject (OSharedVolume sv)"
    by (simp add: setFinalizers_def ObjectKeyFromObject_def)
  have "total (writeObject r (Update (OSharedVolume ?sv)) asSharedVolume)
    (\<lambda>sv' s'. adds {KSharedVolume} (world s) (world s')
      \<and> view s' KSharedVolume (ObjectKeyFromObject (OSharedVolume sv)) = Some (OSharedVolume sv')
      \<and> ObjectKeyFromObject (OSharedVolume sv') = ObjectKeyFromObject (OSharedVolume sv)
      \<and> svSpec sv' = svSpec sv \<and> svStatus sv' = svStatus sv \<and> IsZero (omDeletionTimestamp (svMeta sv'))
      \<and> finalizerName \<in> set (omFinalizers (svMeta sv'))) s"
  proof (rule total_update [where old = "OSharedVolume sv"], goal_cases)
    case (6 y z t)
    then have "z = OSharedVolume y" "\<not> leaving z" using assms(3) by (auto simp: leaving_def updated_def rewritten_def)
    with 6 assms(3) show ?case by (auto simp: key updated_def rewritten_def sameIdentity_def setFinalizers_def ObjectKeyFromObject_def
        intro: adds_put)
  qed (use assms key stored_typed(3) [OF assms(1,2)] in \<open>auto simp: setFinalizers_def backup_admitted_def\<close>)
  with False show ?thesis by (simp add: ensureFinalizer_def add_finalizer)
qed

lemma total_updateStatus:
  assumes "inv (world s)" "view s KSharedVolume (ObjectKeyFromObject (OSharedVolume sv)) = Some (OSharedVolume old)"
    and "svMeta sv = svMeta old"
  shows "total (updateStatus r sv ip ready bs) (\<lambda>_ s'. inv (world s') \<and> only {KSharedVolume} (view s) (view s')
    \<and> (\<exists>y. view s' KSharedVolume (ObjectKeyFromObject (OSharedVolume sv)) = Some (OSharedVolume y)
        \<and> svSpec y = svSpec old \<and> omFinalizers (svMeta y) = omFinalizers (svMeta old)
        \<and> omDeletionTimestamp (svMeta y) = omDeletionTimestamp (svMeta old)
        \<and> svStatus y = svStatus (newStatus r (world s) sv ip ready bs) \<and> svGeneration y = svGeneration sv)) s"
proof -
  let ?x = "newStatus r (world s) sv ip ready bs"
  have meta: "svMeta ?x = svMeta sv" by (simp add: newStatus_def Let_def split: prod.splits)
  then have key: "ObjectKeyFromObject (OSharedVolume ?x) = ObjectKeyFromObject (OSharedVolume sv)"
    by (simp add: ObjectKeyFromObject_def)
  obtain y w where y: "client r (world s) (StatusUpdate (OSharedVolume ?x)) = (Returned (OSharedVolume y), w)"
    "rewritten (OSharedVolume old) (OSharedVolume old) (OSharedVolume y)" "svStatus y = svStatus ?x"
    "omGeneration (svMeta y) = omGeneration (svMeta old)"
    "objs w = put (view s) KSharedVolume (ObjectKeyFromObject (OSharedVolume ?x)) (Some (OSharedVolume y))"
    using status_reply [of "world s" ?x old] assms meta key by auto
  have "inv w" using client_inv [OF assms(1) y(1)] .
  with y key assms(3) show ?thesis
    by (simp add: updateStatus_def writeObject_def wp_simps wp_invoke wp_returnedObject updated_def rewritten_def sameIdentity_def)
qed

end

subsection \<open>A whole pass\<close>

text \<open>The status of the stored volume describes this generation and lists exactly the wanted namespaces.\<close>

definition statusCurrent :: "('w, 'b) SharedVolumeReconciler_scheme \<Rightarrow> SharedVolume \<Rightarrow> view \<Rightarrow> bool" where
  "statusCurrent r sv v = (\<exists>y. v KSharedVolume (ObjectKeyFromObject (OSharedVolume sv)) = Some (OSharedVolume y)
     \<and> svSpec y = svSpec sv \<and> finalizerName \<in> set (omFinalizers (svMeta y))
     \<and> IsZero (omDeletionTimestamp (svMeta y)) \<and> stObservedGeneration (svStatus y) = svGeneration y
     \<and> sorted (map nbNamespace (stBindings (svStatus y))) \<and> distinct (map nbNamespace (stBindings (svStatus y)))
     \<and> (\<forall>t. t \<in> nbNamespace ` set (stBindings (svStatus y)) \<longleftrightarrow> wanted r sv v t))"

definition converged :: "('w, 'b) SharedVolumeReconciler_scheme \<Rightarrow> SharedVolume \<Rightarrow> view \<Rightarrow> bool" where
  "converged r sv v =
     (stackThere r sv v \<and> (\<forall>t. wanted r sv v t \<longrightarrow> pairThere sv v t)
      \<and> staleWithdrawn sv (wanted r sv v) v
      \<and> (specNetworkPolicy (svSpec sv) \<noteq> NetworkPolicyDisabled \<longrightarrow>
           v KNetworkPolicy (OperatorNamespace r, ServerName sv) \<noteq> None)
      \<and> (svBackup sv \<noteq> None \<longrightarrow> v KCronJob (OperatorNamespace r, BackupCronJobName sv) \<noteq> None)
      \<and> statusCurrent r sv v)"

text \<open>All of this depends on the volume's key and spec alone.\<close>

lemma converged_cong:
  assumes "ObjectKeyFromObject (OSharedVolume a) = ObjectKeyFromObject (OSharedVolume b)" "svSpec a = svSpec b"
  shows "ownVolumes a v = ownVolumes b v" "selectorParses r a = selectorParses r b" "wanted r a v = wanted r b v"
    "converged r a v = converged r b v" "svName a = svName b"
proof -
  show names: "svName a = svName b" using assms(1) by (simp add: ObjectKeyFromObject_def)
  have same: "pairThere a v = pairThere b v" "reservedFor a = reservedFor b" "stackThere r a v = stackThere r b v"
    "ServerName a = ServerName b" "BackupCronJobName a = BackupCronJobName b" "PVName a = PVName b"
    using names by (auto simp: fun_eq_iff pairThere_def reservedFor_def stackThere_def backingKey_def object_names)
  show "ownVolumes a v = ownVolumes b v" using same names by (simp add: ownVolumes_def)
  show "selectorParses r a = selectorParses r b" using assms(2) by (simp add: selectorParses_def)
  show wanted: "wanted r a v = wanted r b v" using assms(2) by (simp add: fun_eq_iff wanted_def selectsNamespace_def)
  show "converged r a v = converged r b v"
    using assms same wanted staleWithdrawn_cong [OF names, of v v] by (simp add: converged_def statusCurrent_def)
qed

lemma wanted_only: "only K v v' \<Longrightarrow> KNamespace \<notin> K \<Longrightarrow> wanted r sv v' = wanted r sv v"
  by (simp add: fun_eq_iff wanted_def only_at)

text \<open>What the steps of a pass leave, put together: each touches its own kinds only.\<close>

lemma converged_steps:
  assumes "stackThere r sv v" "only {KPV, KPVC} v v1" "only {KNetworkPolicy} v1 v2" "only {KCronJob} v2 v3"
    and "only {KSharedVolume} v3 v4" "v1 KPVC (backingKey r sv) \<noteq> None"
    and "\<forall>t. wanted r sv v t \<longrightarrow> pairThere sv v1 t" "staleWithdrawn sv (wanted r sv v) v1"
    and "specNetworkPolicy (svSpec sv) \<noteq> NetworkPolicyDisabled \<longrightarrow> v2 KNetworkPolicy (OperatorNamespace r, ServerName sv) \<noteq> None"
    and "svBackup sv \<noteq> None \<longrightarrow> v3 KCronJob (OperatorNamespace r, BackupCronJobName sv) \<noteq> None"
    and "statusCurrent r sv v4"
  shows "converged r sv v4"
proof -
  have late: "v4 KPVC = v1 KPVC" "v4 KPV = v1 KPV" "v4 KNetworkPolicy = v2 KNetworkPolicy" "v4 KCronJob = v3 KCronJob"
    and kept: "\<And>k. k \<notin> {KPV, KPVC, KNetworkPolicy, KCronJob, KSharedVolume} \<Longrightarrow> v4 k = v k"
    using assms(2-5) by (simp_all add: only_def)
  have "wanted r sv v4 = wanted r sv v" using kept [of KNamespace] by (simp add: fun_eq_iff wanted_def)
  moreover have "stackThere r sv v4" using assms(1,6) late kept by (simp add: stackThere_def)
  moreover have "staleWithdrawn sv (wanted r sv v) v4" using assms(8) staleWithdrawn_cong [of sv sv v4 v1] late by simp
  ultimately show ?thesis using assms(7,9-11) late by (simp add: converged_def pairThere_def)
qed

lemma newStatus_reported [simp]:
  "stObservedGeneration (svStatus (newStatus r w sv ip ready bs)) = svGeneration sv"
  "stBindings (svStatus (newStatus r w sv ip ready bs)) = bs"
  by (simp_all add: newStatus_def Let_def split: prod.splits)

context api_server
begin

text \<open>The status write, with its conflict branch.\<close>

lemma total_statusEnd:
  assumes "inv (world s)" "view s KSharedVolume (ObjectKeyFromObject (OSharedVolume sv)) = Some (OSharedVolume old)"
    and "svMeta sv = svMeta old" "svSpec sv = svSpec old" "IsZero (omDeletionTimestamp (svMeta old))"
    and "finalizerName \<in> set (omFinalizers (svMeta old))"
    and "map nbNamespace bs = targets" "sorted targets" "distinct targets"
    and "\<And>t. t \<in> set targets \<longleftrightarrow> wanted r sv (view s) t"
  shows "total (switchE (updateStatus r sv ip serverReady bs)
       (\<lambda>e. if IsConflict e then returnE (doneResult\<lparr>resRequeue := True\<rparr>) else throwE e)
       (\<lambda>_. returnE doneResult))
    (\<lambda>res s'. res = doneResult \<and> inv (world s') \<and> only {KSharedVolume} (view s) (view s')
       \<and> statusCurrent r sv (view s')) s"
  unfolding wp_switchE
proof (rule wp_mono [OF total_updateStatus [OF assms(1-3)]], goal_cases)
  case (1 v t)
  then obtain y where y: "inv (world t)" "only {KSharedVolume} (view s) (view t)"
    "view t KSharedVolume (ObjectKeyFromObject (OSharedVolume sv)) = Some (OSharedVolume y)"
    "svSpec y = svSpec old" "omFinalizers (svMeta y) = omFinalizers (svMeta old)"
    "omDeletionTimestamp (svMeta y) = omDeletionTimestamp (svMeta old)"
    "svStatus y = svStatus (newStatus r (world s) sv ip serverReady bs)" "svGeneration y = svGeneration sv" by auto
  have "wanted r sv (view t) = wanted r sv (view s)" using y(2) by (intro wanted_only) auto
  moreover have "map nbNamespace (stBindings (svStatus y)) = targets" using y(7) assms(7) by simp
  moreover from this have "nbNamespace ` set (stBindings (svStatus y)) = set targets" by (metis set_map)
  ultimately have "statusCurrent r sv (view t)" unfolding statusCurrent_def using y assms by auto
  with y(1,2) show ?case by (simp add: wp_return)
qed simp

text \<open>The steps from the bindings on.\<close>

lemma total_liveEnd:
  assumes "inv (world s)" "namespaceReady (view s) (OperatorNamespace r)" "ownVolumes sv (view s)" "ip \<noteq> ''''"
    and "backup_admitted sv" "stackThere r sv (view s)" "sorted targets" "distinct targets"
    and "\<And>t. t \<in> set targets \<longleftrightarrow> wanted r sv (view s) t"
    and "view s KSharedVolume (ObjectKeyFromObject (OSharedVolume sv)) = Some (OSharedVolume old)"
    and "svMeta sv = svMeta old" "svSpec sv = svSpec old" "IsZero (omDeletionTimestamp (svMeta old))"
    and "finalizerName \<in> set (omFinalizers (svMeta old))"
  shows "total (bindE (bindingsStep r sv targets ip) (\<lambda>bindings.
     bindE (reconcileNetworkPolicy r sv targets) (\<lambda>_.
     bindE (reconcileBackup r sv) (\<lambda>sv.
     switchE (updateStatus r sv ip serverReady bindings)
       (\<lambda>e. if IsConflict e then returnE (doneResult\<lparr>resRequeue := True\<rparr>) else throwE e)
       (\<lambda>_. returnE doneResult)))))
    (\<lambda>res s'. res = doneResult \<and> inv (world s') \<and> converged r sv (view s')) s"
proof -
  have ready: "\<forall>t \<in> set targets. namespaceReady (view s) t"
    using assms(9) wanted_live liveNamespace_ready by blast
  show ?thesis
  proof (rule wp_seq [OF total_bindingsStep [OF assms(1) ready assms(3,4)]], goal_cases)
    case b: (1 bs s1)
    have ns1: "namespaceReady (view s1) (OperatorNamespace r)"
      using b assms(2) namespaceReady_only [of "{KPV, KPVC}" "view s" "view s1"] by simp
    show ?case
    proof (rule wp_seq [OF total_reconcileNetworkPolicy [OF _ ns1]], use b in blast, goal_cases)
      case p: (1 u s2)
      have ns2: "namespaceReady (view s2) (OperatorNamespace r)"
        using p ns1 namespaceReady_only [of "{KNetworkPolicy}" "view s1" "view s2"] by simp
      show ?case
      proof (rule wp_seq [OF total_reconcileBackup [OF _ ns2 assms(5)]], use p in blast, goal_cases)
        case c: (1 sv' s3)
        have key: "ObjectKeyFromObject (OSharedVolume sv') = ObjectKeyFromObject (OSharedVolume sv)"
          using c by (simp add: ObjectKeyFromObject_def)
        have same: "wanted r sv' = wanted r sv" using converged_cong(3) [OF key, where r = r] c by (intro ext) metis
        then have current: "statusCurrent r sv' = statusCurrent r sv" using key c by (simp add: fun_eq_iff statusCurrent_def)
        have view3: "view s3 k = view s k" if "k \<notin> {KPV, KPVC, KNetworkPolicy, KCronJob}" for k
          using that b p c by (simp add: only_def)
        have "wanted r sv (view s3) = wanted r sv (view s)"
          using view3 [of KNamespace] by (simp add: fun_eq_iff wanted_def)
        then have status: "total (switchE (updateStatus r sv' ip serverReady bs)
            (\<lambda>e. if IsConflict e then returnE (doneResult\<lparr>resRequeue := True\<rparr>) else throwE e) (\<lambda>_. returnE doneResult))
            (\<lambda>res s'. res = doneResult \<and> inv (world s') \<and> only {KSharedVolume} (view s3) (view s')
              \<and> statusCurrent r sv' (view s')) s3"
          using b c assms(7-14) view3 [of KSharedVolume] key same
          by (intro total_statusEnd [where targets = targets and old = old]) auto
        have targets: "wanted r sv (view s) = (\<lambda>t. t \<in> set targets)" using assms(9) by auto
        have "view s1 KPVC (backingKey r sv) \<noteq> None"
          using b assms(6) by (simp add: stackThere_def backingKey_def object_names)
        then have "converged r sv (view s4)" if "only {KSharedVolume} (view s3) (view s4)" "statusCurrent r sv (view s4)"
          for s4 :: "'w run"
          using b p c that targets
          by (intro converged_steps [OF assms(6), where ?v1.0 = "view s1" and ?v2.0 = "view s2" and ?v3.0 = "view s3"]) simp_all
        then show ?case by (intro wp_mono [OF status]) (simp_all add: current)
      qed
    qed
  qed
qed

lemma total_reconcileLive:
  assumes "inv (world s)" "view s KSharedVolume (ObjectKeyFromObject (OSharedVolume sv)) = Some (OSharedVolume sv)"
    and "IsZero (omDeletionTimestamp (svMeta sv))" "namespaceReady (view s) (OperatorNamespace r)"
    and "selectorParses r sv" "ownVolumes sv (view s)"
  shows "total (reconcileLive r sv) (\<lambda>res s'. res = doneResult \<and> inv (world s') \<and> converged r sv (view s')) s"
  unfolding reconcileLive_def
proof (rule wp_seq [OF total_ensureFinalizer [OF assms(1-3)]], goal_cases)
  case f: (1 sv1 s1)
  then have v1: "inv (world s1)" "only {KSharedVolume} (view s) (view s1)" by (simp_all add: adds_def)
  have ns1: "namespaceReady (view s1) (OperatorNamespace r)"
    using v1(2) assms(4) namespaceReady_only [of "{KSharedVolume}" "view s" "view s1"] by simp
  have admitted: "backup_admitted sv1" using stored_typed(3) [OF v1(1)] f by fastforce
  have key1: "ObjectKeyFromObject (OSharedVolume sv1) = ObjectKeyFromObject (OSharedVolume sv)" using f by simp
  have server: "total (reconcileServer r sv1) (\<lambda>x s'. case x of (ip, ready, sv') \<Rightarrow>
      adds stackKinds (world s1) (world s') \<and> ip \<noteq> '''' \<and> svMeta sv' = svMeta sv1 \<and> svSpec sv' = svSpec sv1
      \<and> stackThere r sv1 (view s')) s1"
    using total_reconcileServer [OF v1(1) ns1 admitted] by (simp add: split_def)
  show ?case
  proof (rule wp_seq [OF server], clarify, goal_cases)
    case st: (1 ip ready sv2 s2)
    then have v2: "inv (world s2)" "only stackKinds (view s1) (view s2)" by (simp_all add: adds_def)
    have key2: "ObjectKeyFromObject (OSharedVolume sv2) = ObjectKeyFromObject (OSharedVolume sv)" "svSpec sv2 = svSpec sv"
      using st key1 f by (simp_all add: ObjectKeyFromObject_def)
    have same: "view s2 k = view s k" if "k \<notin> insert KSharedVolume stackKinds" for k
      using that v1(2) v2(2) by (simp add: only_def)
    note cong = converged_cong [OF key2]
    have ready2: "namespaceReady (view s2) (OperatorNamespace r)"
      using assms(4) same [of KNamespace] by (simp add: namespaceReady_def stackKinds_def)
    have "ownVolumes sv (view s2)"
      using assms(6) same [of KPV] by (simp add: ownVolumes_def stackKinds_def)
    then have own2: "ownVolumes sv2 (view s2)" using cong(1) by metis
    have parses2: "selectorParses r sv2" using assms(5) cong(2) by metis
    have stored: "view s2 KSharedVolume (ObjectKeyFromObject (OSharedVolume sv2)) = Some (OSharedVolume sv1)"
      using f v2(2) key2(1) by (simp add: only_def stackKinds_def)
    have "stackThere r sv2 (view s2)" using st by (simp add: stackThere_def backingKey_def object_names)
    moreover have "backup_admitted sv2" using admitted st by (simp add: backup_admitted_def)
    ultimately have ready: "stackThere r sv2 (view s2)" "backup_admitted sv2" .
    show ?case
    proof (rule wp_seq [OF total_targetNamespaces [OF v2(1) parses2]], goal_cases)
      case t: (1 ts s3)
      have old: "svMeta sv2 = svMeta sv1" "svSpec sv2 = svSpec sv1" "IsZero (omDeletionTimestamp (svMeta sv1))"
        "finalizerName \<in> set (omFinalizers (svMeta sv1))" "ip \<noteq> ''''" using st f by simp_all
      have end1: "converged r sv (view s4)" if "converged r sv2 (view s4)" for s4 :: "'w run" using that cong(4) by metis
      show ?case
        by (rule wp_mono [OF total_liveEnd [where old = sv1 and targets = ts]])
          (use t v2(1) ready2 own2 ready old stored end1 in \<open>simp_all\<close>)
    qed
  qed
qed

lemma total_Reconcile_live:
  assumes "inv (world s)" "view s KSharedVolume req = Some (OSharedVolume sv)"
    and "IsZero (omDeletionTimestamp (svMeta sv))" "namespaceReady (view s) (OperatorNamespace r)"
    and "selectorParses r sv" "ownVolumes sv (view s)"
  shows "total (Reconcile r req) (\<lambda>res s'. res = doneResult \<and> inv (world s') \<and> converged r sv (view s')) s"
  unfolding Reconcile_def wp_switchE
proof (rule total_getObject, goal_cases)
  case (3 x y t)
  then have "view t KSharedVolume (ObjectKeyFromObject (OSharedVolume sv)) = Some (OSharedVolume sv)" "y = sv"
    using assms(2) by auto
  with 3 assms total_reconcileLive [of t sv] show ?case by simp
qed (use assms in auto)

end

end
