(* ===== verification/TeardownPass.thy ===== *)
theory TeardownPass
  imports LivePass
begin

text \<open>
  The deletion of a volume without interference: total correctness of \<^verbatim>\<open>reconcileDelete\<close> over the object store
  of \<open>api_server\<close>. A pass that finds claims of the volume deletes them and waits; a pass that finds none
  deletes the server stack, releases the backing claim as the reclaim policy says, and gives up the finalizer.
  \<open>collected\<close> is what the cluster does between two passes: claims that are marked for deletion disappear. So two
  passes are enough.
\<close>

subsection \<open>What a pass achieves\<close>

text \<open>What becomes of the backing claim.\<close>

definition backingReleased ::
  "('w, 'b) SharedVolumeReconciler_scheme \<Rightarrow> SharedVolume \<Rightarrow> view \<Rightarrow> view \<Rightarrow> bool" where
  "backingReleased r sv v v' =
     (if specReclaimPolicy (svSpec sv) = ReclaimRetain
      then v KPVC (backingKey r sv) \<noteq> None \<longrightarrow> v' KPVC (backingKey r sv) \<noteq> None
      else departing v' KPVC (backingKey r sv))"

text \<open>The finalizer is given up: the volume is gone unless another finalizer holds it.\<close>

definition volumeFreed :: "SharedVolume \<Rightarrow> view \<Rightarrow> bool" where
  "volumeFreed sv v =
     (case v KSharedVolume (ObjectKeyFromObject (OSharedVolume sv)) of
        Some (OSharedVolume y) \<Rightarrow> omFinalizers (svMeta y) \<noteq> []
          \<and> omFinalizers (svMeta y) = filter (\<lambda>f. f \<noteq> finalizerName) (omFinalizers (svMeta sv))
      | Some _ \<Rightarrow> False
      | None \<Rightarrow> set (omFinalizers (svMeta sv)) \<subseteq> {finalizerName})"

definition dismantled ::
  "('w, 'b) SharedVolumeReconciler_scheme \<Rightarrow> SharedVolume \<Rightarrow> view \<Rightarrow> view \<Rightarrow> bool" where
  "dismantled r sv v v' = ((\<forall>(k, key) \<in> set (serverStack r sv). departing v' k key)
     \<and> backingReleased r sv v v' \<and> volumeFreed sv v')"

text \<open>What one pass does: it either waits for claims of the volume it has just deleted, or finishes.\<close>

definition claimsLeft :: "SharedVolume \<Rightarrow> view \<Rightarrow> bool" where
  "claimsLeft sv v = (\<exists>pv. ownPV sv v pv \<and> held sv v pv)"

definition waiting :: "SharedVolume \<Rightarrow> view \<Rightarrow> view \<Rightarrow> bool" where
  "waiting sv v v' = ((\<forall>key. fade (v KPV key) (v' KPV key) \<and> fade (v KPVC key) (v' KPVC key))
     \<and> (\<forall>pv. ownPV sv v pv \<longrightarrow> released sv v v' pv))"

text \<open>The volume is still there, still being deleted, and its finalizer holds it.\<close>

definition volumeStays :: "SharedVolume \<Rightarrow> view \<Rightarrow> bool" where
  "volumeStays sv v = (\<exists>y. v KSharedVolume (ObjectKeyFromObject (OSharedVolume sv)) = Some (OSharedVolume y)
     \<and> svSpec y = svSpec sv \<and> omFinalizers (svMeta y) = omFinalizers (svMeta sv)
     \<and> omDeletionTimestamp (svMeta y) = omDeletionTimestamp (svMeta sv))"

definition deletionPass ::
  "('w, 'b) SharedVolumeReconciler_scheme \<Rightarrow> SharedVolume \<Rightarrow> view \<Rightarrow> Result \<Rightarrow> view \<Rightarrow> bool" where
  "deletionPass r sv v res v' =
     (if claimsLeft sv v
      then res = doneResult\<lparr>resRequeueAfter := requeueDelay\<rparr> \<and> waiting sv v v' \<and> volumeStays sv v'
      else res = doneResult \<and> dismantled r sv v v'
        \<and> (\<forall>pv. ownPV sv v pv \<longrightarrow> departing v' KPV (ObjectKeyFromObject (OPV pv))))"

text \<open>Between two passes: claims on their way out are gone, no PV and no claim has appeared.\<close>

definition collected :: "view \<Rightarrow> view \<Rightarrow> bool" where
  "collected v v' = (v' KSharedVolume = v KSharedVolume
     \<and> (\<forall>key. departing v KPVC key \<longrightarrow> v' KPVC key = None)
     \<and> (\<forall>key x. v' KPV key = Some x \<longrightarrow> v KPV key = Some x)
     \<and> (\<forall>key x. v' KPVC key = Some x \<longrightarrow> v KPVC key = Some x))"

lemma waiting_collected:
  assumes "waiting sv v v1" "collected v1 v2"
  shows "\<not> claimsLeft sv v2"
proof
  assume "claimsLeft sv v2"
  then obtain pv ref where pv: "v2 KPV (ObjectKeyFromObject (OPV pv)) = Some (OPV pv)"
    "omLabels (pvMeta pv) LabelSharedVolume = Some (svName sv)" "pvClaimRef (pvSpec pv) = Some ref"
    "ownClaim sv v2 (refNamespace ref, refName ref)"
    by (auto simp: claimsLeft_def ownPV_def held_def)
  let ?claim = "(refNamespace ref, refName ref)"
  have "v1 KPV (ObjectKeyFromObject (OPV pv)) = Some (OPV pv)"
    using pv(1) assms(2) unfolding collected_def by blast
  moreover have "fade (v KPV (ObjectKeyFromObject (OPV pv))) (v1 KPV (ObjectKeyFromObject (OPV pv)))"
    using assms(1) unfolding waiting_def by blast
  ultimately obtain p where p: "v KPV (ObjectKeyFromObject (OPV pv)) = Some (OPV p)"
    "ObjectKeyFromObject (OPV p) = ObjectKeyFromObject (OPV pv)" "omLabels (pvMeta p) = omLabels (pvMeta pv)"
    "pvClaimRef (pvSpec p) = pvClaimRef (pvSpec pv)"
    using fade_PV [of _ pv] by auto
  then have "released sv v v1 p" using assms(1) pv(2) by (simp add: waiting_def ownPV_def)
  moreover have claim: "ownClaim sv v ?claim \<and> v2 KPVC ?claim \<noteq> None"
  proof -
    obtain c where c: "v2 KPVC ?claim = Some (OPVC c)" "mapGet (omLabels (pvcMeta c)) LabelSharedVolume = svName sv"
      using pv(4) by (auto simp: ownClaim_def)
    then have "v1 KPVC ?claim = Some (OPVC c)" using assms(2) unfolding collected_def by blast
    moreover have "fade (v KPVC ?claim) (v1 KPVC ?claim)" using assms(1) unfolding waiting_def by blast
    ultimately show ?thesis using c fade_claim [of "v KPVC ?claim" c] by (auto simp: ownClaim_def)
  qed
  ultimately have "departing v1 KPVC ?claim" using p pv(3) by (simp add: released_def held_def)
  then have "v2 KPVC ?claim = None" using assms(2) by (simp add: collected_def)
  with claim show False by simp
qed

text \<open>
  What the loop has done to the PVs \<open>pvs\<close> when it has counted from \<open>n\<close> to \<open>m\<close>: it counted iff a claim of the volume
  holds one of them, touched no claim otherwise, and every PV is released.
\<close>

definition drainedPVs :: "SharedVolume \<Rightarrow> PersistentVolume list \<Rightarrow> nat \<Rightarrow> nat \<Rightarrow> view \<Rightarrow> view \<Rightarrow> bool" where
  "drainedPVs sv pvs n m v v' = (fades {KPV, KPVC} v v' \<and> n \<le> m \<and> (m = n \<longleftrightarrow> (\<forall>pv \<in> set pvs. \<not> held sv v pv))
     \<and> (m = n \<longrightarrow> v' KPVC = v KPVC) \<and> (\<forall>pv \<in> set pvs. released sv v v' pv))"

text \<open>What the step for one PV has done, which counts on from \<open>n'\<close>.\<close>

definition drainedPV :: "SharedVolume \<Rightarrow> PersistentVolume \<Rightarrow> nat \<Rightarrow> nat \<Rightarrow> view \<Rightarrow> view \<Rightarrow> bool" where
  "drainedPV sv pv n n' v v' = (fades {KPV, KPVC} v v' \<and> released sv v v' pv
     \<and> (if held sv v pv then n' = Suc n else n' = n \<and> v' KPVC = v KPVC))"

text \<open>A claim of the volume can only go by being deleted.\<close>

lemma lost_claim:
  assumes "fades K v v'" "held sv v p" "\<not> held sv v' p" "pvClaimRef (pvSpec p) = Some ref"
  shows "departing v' KPVC (refNamespace ref, refName ref)"
proof -
  let ?key = "(refNamespace ref, refName ref)"
  obtain c where c: "v KPVC ?key = Some (OPVC c)" "mapGet (omLabels (pvcMeta c)) LabelSharedVolume = svName sv"
    using assms(2,4) by (auto simp: held_def ownClaim_def)
  have "\<not> ownClaim sv v' ?key" using assms(3,4) by (auto simp: held_def)
  with c fades_at [OF assms(1), of KPVC ?key] have "v' KPVC ?key = None"
    by (auto simp: fade_def ownClaim_def dest: marked_claim)
  then show ?thesis by (simp add: departing_def)
qed

lemma released_earlier:
  assumes "fades K v v1" "fades L v1 v2" "released sv v1 v2 p"
  shows "released sv v v2 p"
  using assms(3) held_fades [OF assms(1), of sv p] lost_claim [OF assms(1), of sv p] departing_fades [OF assms(2)]
  by (auto simp: released_def split: if_splits)

lemma drainedPVs_Cons:
  assumes "drainedPV sv pv n n' v v1" "drainedPVs sv pvs n' m v1 v2"
  shows "drainedPVs sv (pv # pvs) n m v v2"
proof -
  have fd: "fades {KPV, KPVC} v v1" "fades {KPV, KPVC} v1 v2" and rl: "released sv v v1 pv"
    using assms by (simp_all add: drainedPV_def drainedPVs_def)
  have "n \<le> m \<and> (m = n \<longleftrightarrow> (\<forall>pv \<in> set (pv # pvs). \<not> held sv v pv)) \<and> (m = n \<longrightarrow> v2 KPVC = v KPVC)"
    using assms held_claims [of v1 v sv] by (cases "held sv v pv") (simp_all add: drainedPV_def drainedPVs_def)
  moreover have "\<forall>p \<in> set (pv # pvs). released sv v v2 p"
    using assms(2) released_fades [OF fd(2) rl] released_earlier [OF fd] by (simp add: drainedPVs_def)
  ultimately show ?thesis using fades_trans [OF fd] by (simp add: drainedPVs_def)
qed

context api_server
begin

subsection \<open>Draining the PVs\<close>

text \<open>One PV of the loop.\<close>

lemma total_drain_PV:
  assumes "inv (world s)"
    and go: "\<And>t n'. inv (world t) \<Longrightarrow> drainedPV sv pv n n' (view s) (view t) \<Longrightarrow> total (drainPVs r sv pvs n') Q t"
  shows "total (drainPVs r sv (pv # pvs) n) Q s"
proof -
  have drop: "wp (ignoring IsNotFound (deleteObject r KPV (ObjectKeyFromObject (OPV pv)) DefaultPropagation))
      (\<lambda>_. wp (drainPVs r sv pvs n) Q (\<lambda>_ _. False)) (\<lambda>_ _. False) t"
    if "world t = world s" "\<not> held sv (view s) pv" for t
  proof (rule wp_mono [OF total_drop], goal_cases)
    case (2 x u)
    then show ?case using that fades_only [of "{KPV}" "view s" "view u"]
      by (intro go) (auto simp: drainedPV_def released_def intro: fades_mono)
  qed (use that assms(1) in simp_all)
  have claim: "wp (ignoring IsNotFound (deleteObject r KPVC (refNamespace ref, refName ref) DefaultPropagation))
      (\<lambda>_. wp (drainPVs r sv pvs (Suc n)) Q (\<lambda>_ _. False)) (\<lambda>_ _. False) t"
    if "world t = world s" "held sv (view s) pv" "pvClaimRef (pvSpec pv) = Some ref" for t ref
    by (rule wp_mono [OF total_drop])
      (use that assms(1) in \<open>auto simp: drainedPV_def released_def intro!: go intro: fades_mono\<close>)
  have wait: "total (drainPVs r sv pvs (Suc n)) Q t"
    if "world t = world s" "held sv (view s) pv" "pvClaimRef (pvSpec pv) = Some ref"
      "view s KPVC (refNamespace ref, refName ref) = Some (OPVC c)" "\<not> IsZero (omDeletionTimestamp (pvcMeta c))" for t ref c
    by (rule go) (use that assms(1) in \<open>simp_all add: drainedPV_def released_def departing_def\<close>)
  show ?thesis
  proof (cases "pvClaimRef (pvSpec pv)")
    case (Some ref)
    have held: "held sv (view s) pv = ownClaim sv (view s) (refNamespace ref, refName ref)"
      using Some by (simp add: held_def)
    show ?thesis unfolding drainPVs.simps Let_def Some option.case wp_switchE
      by (rule total_getObject [OF assms(1)])
        (use held in \<open>auto simp: wp_bind wp_return ownClaim_def intro!: drop claim [OF _ _ Some] intro: wait [OF _ _ Some]\<close>)
  qed (use drop [of s] in \<open>simp add: wp_bind Let_def held_def\<close>)
qed

lemma total_drainPVs:
  assumes "inv (world s)"
  shows "total (drainPVs r sv pvs n) (\<lambda>m s'. inv (world s') \<and> drainedPVs sv pvs n m (view s) (view s')) s"
  using assms
proof (induction pvs arbitrary: s n)
  case (Cons pv pvs)
  show ?case
    by (rule total_drain_PV [OF Cons.prems], rule wp_mono [OF Cons.IH]) (auto intro: drainedPVs_Cons)
qed (simp add: wp_simps drainedPVs_def)

subsection \<open>The server stack and the backing claim\<close>

lemma total_deleteStack:
  assumes "inv (world s)" "fst ` set xs \<subseteq> K"
  shows "total (deleteStack r xs) (\<lambda>_ s'. inv (world s') \<and> fades K (view s) (view s')
    \<and> (\<forall>(k, key) \<in> set xs. departing (view s') k key)) s"
  using assms
proof (induction xs arbitrary: s)
  case (Cons x xs)
  obtain k key where x: "x = (k, key)" by (cases x)
  show ?case unfolding x deleteStack.simps
  proof (rule wp_seq [OF total_drop], goal_cases)
    case (2 u t)
    then have "inv (world t)" "fst ` set xs \<subseteq> K" "fades K (view s) (view t)"
      using Cons.prems(2) x by (auto intro: fades_mono)
    then show ?case using 2
      by (intro wp_mono [OF Cons.IH]) (auto intro: fades_trans departing_fades)
  qed (use Cons.prems in simp)
qed (simp add: wp_return)

lemma total_releaseBacking:
  assumes "inv (world s)"
  shows "total (releaseBacking r sv) (\<lambda>_ s'. inv (world s') \<and> only {KPVC} (view s) (view s')
    \<and> backingReleased r sv (view s) (view s')) s"
proof -
  have meta: "ObjectKeyFromObject (OPVC (retainBacking sv c)) = ObjectKeyFromObject (OPVC c)"
    "omFinalizers (pvcMeta (retainBacking sv c)) = omFinalizers (pvcMeta c)"
    "omResourceVersion (pvcMeta (retainBacking sv c)) = omResourceVersion (pvcMeta c)" for c
    by (simp_all add: retainBacking_def ObjectKeyFromObject_def)
  have retain: "wp (writeObject r (Update (OPVC (retainBacking sv c))) asPVC) Q (\<lambda>_ _. False) t"
    if "world t = world s" "view s KPVC (backingKey r sv) = Some (OPVC c)"
      "\<And>y u. inv (world u) \<Longrightarrow> only {KPVC} (view s) (view u) \<Longrightarrow> view u KPVC (backingKey r sv) \<noteq> None \<Longrightarrow> Q y u"
    for c t Q
  proof (rule total_update [where old = "OPVC c"], goal_cases)
    case (6 y z u)
    have "\<not> leaving z"
      by (rule updated_stays [OF _ that(2) 6(3)]) (use that(1) assms meta in simp_all)
    with 6 show ?case using that(1,2) stored_typed(2) [OF assms that(2)] by (intro that(3)) (auto simp: meta)
  qed (use that assms stored_typed [OF assms that(2)] in \<open>auto simp: meta\<close>)
  show ?thesis
    using assms unfolding releaseBacking_def backingKey_def [symmetric]
    by (auto simp: wp_simps backingReleased_def departing_def marked_def
        intro!: total_getObject retain total_deleteObject)
qed

subsection \<open>The whole teardown\<close>

lemma total_markTerminating:
  assumes "inv (world s)" "view s KSharedVolume (ObjectKeyFromObject (OSharedVolume sv)) = Some (OSharedVolume sv)"
  shows "total (markTerminating r sv) (\<lambda>sv' s'. inv (world s') \<and> only {KSharedVolume} (view s) (view s')
    \<and> view s' KSharedVolume (ObjectKeyFromObject (OSharedVolume sv)) = Some (OSharedVolume sv')
    \<and> ObjectKeyFromObject (OSharedVolume sv') = ObjectKeyFromObject (OSharedVolume sv) \<and> svSpec sv' = svSpec sv
    \<and> omFinalizers (svMeta sv') = omFinalizers (svMeta sv)
    \<and> omDeletionTimestamp (svMeta sv') = omDeletionTimestamp (svMeta sv)) s"
proof -
  let ?x = "setPhase sv PhaseTerminating"
  have meta: "svMeta ?x = svMeta sv" "ObjectKeyFromObject (OSharedVolume ?x) = ObjectKeyFromObject (OSharedVolume sv)"
    by (simp_all add: setPhase_def ObjectKeyFromObject_def)
  obtain y w where y: "client r (world s) (StatusUpdate (OSharedVolume ?x)) = (Returned (OSharedVolume y), w)"
    "rewritten (OSharedVolume sv) (OSharedVolume sv) (OSharedVolume y)"
    "objs w = put (view s) KSharedVolume (ObjectKeyFromObject (OSharedVolume ?x)) (Some (OSharedVolume y))"
    using status_reply [of "world s" ?x sv] assms meta by auto
  have "inv w" using client_inv [OF assms(1) y(1)] .
  with y meta assms show ?thesis
    by (simp add: markTerminating_def Let_def writeObject_def wp_simps wp_invoke wp_returnedObject updated_def rewritten_def sameIdentity_def)
qed

lemma total_release_finalizer:
  assumes "inv (world s)" "view s KSharedVolume (ObjectKeyFromObject (OSharedVolume sv)) = Some (OSharedVolume sv)"
    and "\<not> IsZero (omDeletionTimestamp (svMeta sv))"
  shows "total (writeObject r (Update (OSharedVolume (setFinalizers sv
       (removeFinalizer r (omFinalizers (svMeta sv)) finalizerName)))) asSharedVolume)
    (\<lambda>_ s'. inv (world s') \<and> only {KSharedVolume} (view s) (view s') \<and> volumeFreed sv (view s')) s"
proof (rule total_update [where old = "OSharedVolume sv"], goal_cases)
  case (6 y z t)
  then have "z = OSharedVolume y" by simp
  then show ?case using 6 assms(3)
    by (auto simp: volumeFreed_def leaving_def updated_def rewritten_def sameIdentity_def setFinalizers_def ObjectKeyFromObject_def
        remove_finalizer filter_empty_conv)
qed (use assms stored_typed(3) [OF assms(1,2)] in
    \<open>auto simp: setFinalizers_def ObjectKeyFromObject_def backup_admitted_def\<close>)
lemma total_finishTeardown:
  assumes "inv (world s)" "view s KSharedVolume (ObjectKeyFromObject (OSharedVolume sv)) = Some (OSharedVolume sv)"
    and "\<not> IsZero (omDeletionTimestamp (svMeta sv))"
  shows "total (finishTeardown r sv) (\<lambda>res s'. res = doneResult \<and> inv (world s') \<and> view s' KPV = view s KPV
    \<and> dismantled r sv (view s) (view s')) s"
  unfolding finishTeardown_def
proof (rule wp_seq [OF total_deleteStack [where K = "{KNetworkPolicy, KDeployment, KService, KConfigMap, KCronJob, KJob}"]],
    goal_cases)
  case stack: (3 u t)
  then have same: "view t k = view s k" if "k \<in> {KPV, KPVC, KSharedVolume}" for k
    using that fades_only by auto
  show ?case
  proof (rule wp_seq [OF total_releaseBacking [of t]], goal_cases)
    case bk: (2 u' t')
    then have same': "view t' k = view t k" if "k \<noteq> KPVC" for k
      using that only_at by auto
    show ?case
    proof (rule wp_seq [OF total_release_finalizer [of t' sv]], goal_cases)
      case (4 u'' s')
      then have "view s' k = view t' k" if "k \<noteq> KSharedVolume" for k
        using that only_at by auto
      with 4 bk stack same same' show ?case
        by (auto simp: wp_return dismantled_def serverStack_def departing_def backingReleased_def)
    qed (use bk same same' assms in auto)
  qed (use stack in simp)
qed (use assms in \<open>auto simp: serverStack_def\<close>)

lemma total_teardown:
  assumes "inv (world s)" "view s KSharedVolume (ObjectKeyFromObject (OSharedVolume sv)) = Some (OSharedVolume sv)"
    and "\<not> IsZero (omDeletionTimestamp (svMeta sv))"
  shows "total (teardown r sv) (\<lambda>res s'. inv (world s') \<and>
    (if claimsLeft sv (view s) then res = doneResult\<lparr>resRequeueAfter := requeueDelay\<rparr> \<and> waiting sv (view s) (view s')
       \<and> view s' KSharedVolume = view s KSharedVolume
     else res = doneResult \<and> dismantled r sv (view s) (view s')
       \<and> (\<forall>pv. ownPV sv (view s) pv \<longrightarrow> departing (view s') KPV (ObjectKeyFromObject (OPV pv))))) s"
  unfolding teardown_def wp_bind
proof (rule total_listObjects [where con = OPV], goal_cases)
  case (4 pvs t)
  then have pvs: "set pvs = {pv. ownPV sv (view s) pv}" by (auto simp: ownPV_def selects_def)
  have w: "world t = world s" using 4 by simp
  show ?case
  proof (rule wp_mono [OF total_drainPVs [of t]], goal_cases)
    case (2 m u)
    note 2 = 2 [unfolded drainedPVs_def]
    then have left: "0 < m \<longleftrightarrow> claimsLeft sv (view s)" using pvs w by (auto simp: claimsLeft_def)
    show ?case
    proof (cases "0 < m")
      case True
      then show ?thesis using 2 left pvs w fades_only [of "{KPV, KPVC}" "view s" "view u"]
          fades_at [of "{KPV, KPVC}" "view s" "view u"]
          by (simp add: wp_if wp_return waiting_def)
    next
      case False
      have released: "departing (view u) KPV (ObjectKeyFromObject (OPV pv))" if "ownPV sv (view s) pv" for pv
        using that False 2 left pvs w by (auto simp: claimsLeft_def released_def)
      have same: "view u KSharedVolume = view s KSharedVolume" "view u KPVC = view s KPVC" using 2 False w fades_only by auto
      then have "dismantled r sv (view s) v = dismantled r sv (view u) v" for v by (simp add: dismantled_def backingReleased_def)
      with same show ?thesis using 2 False left assms w released
        by (simp add: wp_if) (auto intro!: wp_mono [OF total_finishTeardown] simp: departing_def)
    qed
  qed (use assms w in simp_all)
qed (use assms in auto)
lemma deletionPass_cong:
  assumes "ObjectKeyFromObject (OSharedVolume a) = ObjectKeyFromObject (OSharedVolume b)" "svSpec a = svSpec b"
    and "omFinalizers (svMeta a) = omFinalizers (svMeta b)" "omDeletionTimestamp (svMeta a) = omDeletionTimestamp (svMeta b)"
    and "only {KSharedVolume} v w"
  shows "deletionPass r a w res v' = deletionPass r b v res v'"
proof -
  have name: "svName a = svName b" using assms(1) by (simp add: ObjectKeyFromObject_def)
  have same: "w KPV = v KPV" "w KPVC = v KPVC" using only_at [OF assms(5)] by simp_all
  have names: "ServerName a = ServerName b" "ConfigMapName a = ConfigMapName b" "BackupCronJobName a = BackupCronJobName b"
    "SeedJobName a = SeedJobName b" "backingKey r a = backingKey r b"
    using name by (simp_all add: object_names backingKey_def)
  have "ownClaim a w = ownClaim b v" by (intro ext) (simp add: ownClaim_def name same)
  moreover have "ownPV a w = ownPV b v" by (intro ext) (simp add: ownPV_def name same)
  ultimately have "held a w = held b v" by (intro ext) (simp add: held_def)
  then have "claimsLeft a w = claimsLeft b v" "waiting a w v' = waiting b v v'"
    using \<open>ownPV a w = ownPV b v\<close> same by (simp_all add: claimsLeft_def waiting_def released_def)
  moreover have "dismantled r a w v' = dismantled r b v v'"
  proof -
    have "volumeFreed a v' = volumeFreed b v'" unfolding volumeFreed_def assms(1,3) by (rule refl)
    then show ?thesis using names same assms(2) by (simp add: dismantled_def serverStack_def backingReleased_def)
  qed
  ultimately show ?thesis
    using assms \<open>ownPV a w = ownPV b v\<close> by (simp add: deletionPass_def volumeStays_def)
qed

lemma total_reconcileDelete:
  assumes "inv (world s)" "view s KSharedVolume (ObjectKeyFromObject (OSharedVolume sv)) = Some (OSharedVolume sv)"
    and "\<not> IsZero (omDeletionTimestamp (svMeta sv))" "finalizerName \<in> set (omFinalizers (svMeta sv))"
  shows "total (reconcileDelete r sv) (\<lambda>res s'. inv (world s') \<and> deletionPass r sv (view s) res (view s')) s"
proof -
  have "total (bindE (markTerminating r sv) (teardown r))
    (\<lambda>res s'. inv (world s') \<and> deletionPass r sv (view s) res (view s')) s"
  proof (rule wp_seq [OF total_markTerminating [OF assms(1,2)]], goal_cases)
    case (1 a t)
    then have cong: "deletionPass r a (view t) res v' = deletionPass r sv (view s) res v'" for res v'
      by (intro deletionPass_cong) simp_all
    show ?case
    proof (rule wp_mono [OF total_teardown [of t a]], goal_cases)
      case (4 res u)
      with 1 have "deletionPass r a (view t) res (view u)"
        by (auto simp: deletionPass_def volumeStays_def split: if_splits)
      with 4 cong show ?case by simp
    qed (use 1 assms in simp_all)
  qed
  with assms(4) show ?thesis by (simp add: reconcileDelete_def contains_finalizer)
qed

lemma total_Reconcile_delete:
  assumes "inv (world s)" "view s KSharedVolume req = Some (OSharedVolume sv)"
    and "\<not> IsZero (omDeletionTimestamp (svMeta sv))" "finalizerName \<in> set (omFinalizers (svMeta sv))"
  shows "total (Reconcile r req) (\<lambda>res s'. inv (world s') \<and> deletionPass r sv (view s) res (view s')) s"
  unfolding Reconcile_def wp_switchE
proof (rule total_getObject, goal_cases)
  case (3 x y t)
  then have "view t KSharedVolume (ObjectKeyFromObject (OSharedVolume sv)) = Some (OSharedVolume sv)" "y = sv"
    using assms(2) by auto
  with 3 assms total_reconcileDelete [of t sv] show ?case by simp
qed (use assms in auto)

lemma total_Reconcile_gone:
  assumes "inv (world s)" "view s KSharedVolume req = None"
  shows "total (Reconcile r req) (\<lambda>res s'. res = doneResult \<and> world s' = world s) s"
  unfolding Reconcile_def wp_switchE
  by (rule total_getObject) (use assms in \<open>auto simp: wp_return\<close>)
subsection \<open>Two passes\<close>

lemma total_two_passes:
  assumes "inv (world s)" "view s KSharedVolume req = Some (OSharedVolume sv)"
    and "\<not> IsZero (omDeletionTimestamp (svMeta sv))" "finalizerName \<in> set (omFinalizers (svMeta sv))"
  shows "total (Reconcile r req) (\<lambda>res s1. inv (world s1) \<and>
    (if claimsLeft sv (view s)
     then res = doneResult\<lparr>resRequeueAfter := requeueDelay\<rparr> \<and>
       (\<forall>s2. inv (world s2) \<longrightarrow> collected (view s1) (view s2) \<longrightarrow>
          total (Reconcile r req) (\<lambda>res s3. res = doneResult \<and> inv (world s3) \<and> dismantled r sv (view s2) (view s3)) s2)
     else res = doneResult \<and> dismantled r sv (view s) (view s1))) s"
proof (rule wp_mono [OF total_Reconcile_delete [OF assms]], goal_cases)
  case (1 res s1)
  show ?case
  proof (cases "claimsLeft sv (view s)")
    case True
    have second: "total (Reconcile r req) (\<lambda>res s3. res = doneResult \<and> inv (world s3) \<and> dismantled r sv (view s2) (view s3)) s2"
      if "inv (world s2)" and c: "collected (view s1) (view s2)" for s2
    proof -
      have key: "ObjectKeyFromObject (OSharedVolume sv) = req" using stored_typed(2) [OF assms(1,2)] .
      have pass: "waiting sv (view s) (view s1)" "volumeStays sv (view s1)"
        using 1 True by (simp_all add: deletionPass_def)
      then obtain y where y: "view s2 KSharedVolume req = Some (OSharedVolume y)" "svSpec y = svSpec sv"
        "omFinalizers (svMeta y) = omFinalizers (svMeta sv)" "omDeletionTimestamp (svMeta y) = omDeletionTimestamp (svMeta sv)"
        using c key by (auto simp: volumeStays_def collected_def)
      have "ObjectKeyFromObject (OSharedVolume y) = req" using stored_typed(2) [OF that(1) y(1)] .
      then have cong: "deletionPass r y (view s2) res v' = deletionPass r sv (view s2) res v'" for res v'
        using y key by (intro deletionPass_cong) simp_all
      have "\<not> claimsLeft sv (view s2)" using waiting_collected [OF pass(1) c] .
      then show ?thesis
        using y assms(3,4) by (intro wp_mono [OF total_Reconcile_delete [OF that(1) y(1)]])
          (simp_all add: cong, simp add: deletionPass_def)
    qed
    then show ?thesis using 1 True by (simp add: deletionPass_def)
  qed (use 1 in \<open>simp add: deletionPass_def\<close>)
qed simp
end

end
