(* ===== verification/Effects.thy ===== *)
theory Effects
  imports Reconcile
begin

text \<open>
  The permissions the operator uses. \<open>requirement\<close> reads a call as the verb and the resource it needs,
  \<open>rbacRules\<close> are the \<^verbatim>\<open>+kubebuilder:rbac\<close> markers above \<^verbatim>\<open>Reconcile\<close>, from which the operator's ClusterRole
  is generated. Every component's calls stay within a small set of requirements, and both branches of
  \<^verbatim>\<open>Reconcile\<close> stay within what the markers grant.
\<close>

datatype verb = VGet | VList | VWatch | VCreate | VUpdate | VPatch | VDelete
datatype resource = Resource kind | SharedVolumeStatusRes | SharedVolumeFinalizersRes | Events

fun requirement :: "call \<Rightarrow> verb \<times> resource" where
  "requirement (Get k _) = (VGet, Resource k)"
| "requirement (ListObjects k _) = (VList, Resource k)"
| "requirement (Create x) = (VCreate, Resource (objKind x))"
| "requirement (Update x) = (VUpdate, Resource (objKind x))"
| "requirement (StatusUpdate x) = (VUpdate, SharedVolumeStatusRes)"
| "requirement (Delete k _ _) = (VDelete, Resource k)"
| "requirement (Eventf _) = (VCreate, Events)"

definition allVerbs :: "verb list" where
  "allVerbs = [VGet, VList, VWatch, VCreate, VUpdate, VPatch, VDelete]"

definition rbacRules :: "(resource list \<times> verb list) list" where
  "rbacRules = [
     ([Resource KSharedVolume], allVerbs),
     ([SharedVolumeStatusRes], [VGet, VUpdate, VPatch]),
     ([SharedVolumeFinalizersRes], [VUpdate]),
     ([Resource KNamespace], [VGet, VList, VWatch]),
     ([Resource KNode], [VGet, VList, VWatch]),
     ([Resource KNetworkPolicy], allVerbs),
     ([Resource KPV], allVerbs),
     ([Resource KPVC], allVerbs),
     ([Resource KService], allVerbs),
     ([Resource KConfigMap], allVerbs),
     ([Events], [VCreate, VPatch]),
     ([Resource KDeployment], allVerbs),
     ([Resource KCronJob, Resource KJob], allVerbs)]"

definition allows :: "verb \<times> resource \<Rightarrow> bool" where
  "allows q = list_ex (\<lambda>(rs, vs). snd q \<in> set rs \<and> fst q \<in> set vs) rbacRules"

definition granted :: "call \<Rightarrow> bool" where
  "granted c = allows (requirement c)"

text \<open>A program stays within the requirements \<open>R\<close>.\<close>

definition uses :: "(verb \<times> resource) list \<Rightarrow> ('w, 'a) prog \<Rightarrow> bool" where
  "uses R m = emits (\<lambda>c. requirement c \<in> set R) m"

lemma emits_mono: "emits P m \<Longrightarrow> (\<And>c. P c \<Longrightarrow> P' c) \<Longrightarrow> emits P' m"
  unfolding emits_def by fast

lemma uses_mono: "uses R m \<Longrightarrow> set R \<subseteq> set R' \<Longrightarrow> uses R' m"
  unfolding uses_def by (erule emits_mono) auto

named_theorems uses_rules \<open>footprints of the components\<close>

definition writing :: "verb list \<Rightarrow> kind \<Rightarrow> (verb \<times> resource) list" where
  "writing vs k = (VGet, Resource k) # map (\<lambda>v. (v, Resource k)) vs"

subsection \<open>Footprints of the components\<close>

lemma uses_collectNamed: "uses (writing [] KNamespace) (collectNamed r names keys)"
  by (induction names arbitrary: keys)
    (auto simp: uses_def writing_def intro!: emits_rules)

lemma uses_targetNamespaces [uses_rules]:
  "uses (writing [VList] KNamespace) (targetNamespaces r sv)"
  unfolding targetNamespaces_def uses_def
  by (intro emits_rules emits_mono [OF uses_collectNamed [unfolded uses_def]]) (auto simp: writing_def)

lemma uses_nodeIPs: "uses [(VList, Resource KNode)] (nodeIPs r)"
  unfolding nodeIPs_def uses_def by (intro emits_rules) auto

lemma uses_reconcileNetworkPolicy [uses_rules]:
  "uses ((VList, Resource KNode) # writing [VCreate, VUpdate, VDelete] KNetworkPolicy)
     (reconcileNetworkPolicy r sv targets)"
  unfolding reconcileNetworkPolicy_def uses_def Let_def
  by (intro emits_rules emits_mono [OF uses_nodeIPs [unfolded uses_def]]) (auto simp: writing_def)

lemma uses_reconcileSeed [uses_rules]:
  "uses ((VGet, Resource KDeployment) # (VCreate, Events) # writing [VCreate] KJob) (reconcileSeed r sv)"
  unfolding reconcileSeed_def uses_def
  by (intro emits_rules) (auto simp: writing_def)

lemma uses_ensureConfigMap [uses_rules]:
  "uses (writing [VCreate, VUpdate] KConfigMap) (ensureConfigMap r sv cm)"
  unfolding ensureConfigMap_def uses_def by (intro emits_rules) (auto simp: writing_def)

lemma uses_ensureDeployment [uses_rules]:
  "uses (writing [VCreate, VUpdate] KDeployment) (ensureDeployment r sv cm)"
  unfolding ensureDeployment_def uses_def Let_def by (intro emits_rules) (auto simp: writing_def)

lemma uses_ensureService [uses_rules]: "uses (writing [VCreate] KService) (ensureService r sv)"
  unfolding ensureService_def uses_def Let_def by (intro emits_rules) (auto simp: writing_def)

lemma uses_reconcileBackup [uses_rules]:
  "uses (writing [VCreate, VUpdate, VDelete] KCronJob) (reconcileBackup r sv)"
  unfolding reconcileBackup_def uses_def Let_def by (intro emits_rules) (auto simp: writing_def)

lemma uses_reconcileBinding [uses_rules]:
  "uses ((VCreate, Events) # writing [VCreate, VUpdate] KPV @ writing [VCreate] KPVC) (reconcileBinding r sv ns ip)"
  unfolding reconcileBinding_def ensurePV_def uses_def Let_def
  by (intro emits_rules) (auto simp: writing_def)

lemma uses_reconcileBindings [uses_rules]:
  "uses ((VCreate, Events) # writing [VCreate, VUpdate] KPV @ writing [VCreate] KPVC)
     (reconcileBindings r sv targets ip)"
proof (induction targets)
  case (Cons ns targets)
  then show ?case using uses_reconcileBinding [of r sv ns ip]
    by (auto simp: uses_def intro!: emits_rules)
qed (auto simp: uses_def intro!: emits_rules)

lemma uses_cleanupPVs:
  "uses ((VDelete, Resource KPV) # writing [VDelete] KPVC) (cleanupPVs r sv targets pvs)"
proof (induction pvs)
  case (Cons pv pvs)
  then show ?case unfolding uses_def cleanupPVs.simps Let_def
    by (intro emits_rules) (auto simp: writing_def)
qed (auto simp: uses_def intro!: emits_rules)

lemma uses_cleanupStaleBindings [uses_rules]:
  "uses ((VList, Resource KPV) # (VDelete, Resource KPV) # writing [VDelete] KPVC)
     (cleanupStaleBindings r sv targets)"
  unfolding cleanupStaleBindings_def uses_def
  by (intro emits_rules emits_mono [OF uses_cleanupPVs [unfolded uses_def]]) auto

lemma uses_drainPVs:
  "uses ((VDelete, Resource KPV) # writing [VDelete] KPVC) (drainPVs r sv pvs n)"
proof (induction pvs arbitrary: n)
  case (Cons pv pvs)
  then show ?case unfolding uses_def drainPVs.simps Let_def
    by (intro emits_rules) (auto simp: writing_def)
qed (auto simp: uses_def intro!: emits_rules)

lemma uses_deleteStack: "uses (map (\<lambda>(k, _). (VDelete, Resource k)) xs) (deleteStack r xs)"
proof (induction xs)
  case (Cons x xs)
  then have "uses (map (\<lambda>(k, _). (VDelete, Resource k)) (x # xs)) (deleteStack r xs)"
    by (rule uses_mono) auto
  then show ?case by (cases x) (auto simp: uses_def intro!: emits_rules)
qed (auto simp: uses_def intro!: emits_rules)

lemma uses_releaseBacking: "uses (writing [VUpdate, VDelete] KPVC) (releaseBacking r sv)"
  unfolding releaseBacking_def uses_def by (intro emits_rules) (auto simp: writing_def)

lemma uses_markTerminating: "uses [(VUpdate, SharedVolumeStatusRes)] (markTerminating r sv)"
  unfolding markTerminating_def uses_def Let_def by (intro emits_rules) auto

lemma uses_updateStatus [uses_rules]: "uses [(VUpdate, SharedVolumeStatusRes)] (updateStatus r sv ip ready bs)"
  unfolding updateStatus_def uses_def by (intro emits_rules) auto

lemma uses_ensureFinalizer [uses_rules]: "uses [(VUpdate, Resource KSharedVolume)] (ensureFinalizer r sv)"
  unfolding ensureFinalizer_def uses_def by (intro emits_rules) auto

subsection \<open>Footprints of the two branches of Reconcile\<close>

definition liveFootprint :: "(verb \<times> resource) list" where
  "liveFootprint =
     [(VUpdate, Resource KSharedVolume), (VUpdate, SharedVolumeStatusRes), (VCreate, Events),
      (VList, Resource KNode), (VList, Resource KPV)]
     @ writing [VList] KNamespace @ writing [VCreate, VUpdate, VDelete] KPV
     @ writing [VCreate, VDelete] KPVC @ writing [VCreate, VUpdate] KConfigMap
     @ writing [VCreate, VUpdate] KDeployment @ writing [VCreate] KService @ writing [VCreate] KJob
     @ writing [VCreate, VUpdate, VDelete] KCronJob @ writing [VCreate, VUpdate, VDelete] KNetworkPolicy"

definition deleteFootprint :: "(verb \<times> resource) list" where
  "deleteFootprint =
     [(VUpdate, Resource KSharedVolume), (VUpdate, SharedVolumeStatusRes), (VList, Resource KPV),
      (VGet, Resource KPVC), (VUpdate, Resource KPVC)]
     @ map (\<lambda>k. (VDelete, Resource k))
         [KPVC, KPV, KNetworkPolicy, KDeployment, KService, KConfigMap, KCronJob, KJob]"

lemma uses_reconcileServer [uses_rules]: "uses liveFootprint (reconcileServer r sv)"
proof -
  note c = uses_ensureConfigMap uses_reconcileSeed uses_ensureDeployment uses_ensureService
  show ?thesis unfolding reconcileServer_def uses_def Let_def
    by (intro emits_rules c [THEN uses_mono, unfolded uses_def])
      (auto simp: writing_def liveFootprint_def)
qed

lemma uses_reconcileLive: "uses liveFootprint (reconcileLive r sv)"
proof -
  note c = uses_ensureFinalizer uses_reconcileServer uses_targetNamespaces uses_reconcileBindings
    uses_cleanupStaleBindings uses_reconcileNetworkPolicy uses_reconcileBackup uses_updateStatus
  show ?thesis unfolding reconcileLive_def bindingsStep_def uses_def
    by (intro emits_rules c [THEN uses_mono, unfolded uses_def])
      (auto simp: writing_def liveFootprint_def)
qed

lemma uses_reconcileDelete: "uses deleteFootprint (reconcileDelete r sv)"
proof -
  note c = uses_markTerminating uses_drainPVs uses_deleteStack uses_releaseBacking
  show ?thesis unfolding reconcileDelete_def teardown_def finishTeardown_def uses_def
    by (intro emits_rules c [THEN uses_mono, unfolded uses_def])
      (auto simp: writing_def deleteFootprint_def serverStack_def)
qed

lemma footprints_allowed: "list_all allows liveFootprint" "list_all allows deleteFootprint"
  by (simp_all add: allows_def rbacRules_def allVerbs_def liveFootprint_def deleteFootprint_def writing_def)

lemma uses_granted: "uses R m \<Longrightarrow> list_all allows R \<Longrightarrow> emits granted m"
  unfolding uses_def by (erule emits_mono) (auto simp: granted_def list_all_iff)


text \<open>The kinds a live pass may delete.\<close>

definition liveDeletes :: "resource list" where
  "liveDeletes = map Resource [KPVC, KPV, KNetworkPolicy, KCronJob]"

text \<open>A pass over a volume that is being deleted creates no object and no event; a pass over a live volume
  deletes only claims, PVs, NetworkPolicies and CronJobs, so the server, its Service and its
  configuration survive every live pass.\<close>

theorem branch_footprints:
  "emits (\<lambda>c. fst (requirement c) \<noteq> VCreate) (reconcileDelete r sv)
   \<and> emits (\<lambda>c. if fst (requirement c) = VDelete then snd (requirement c) \<in> set liveDeletes else True)
       (reconcileLive r sv)"
proof
  have "list_all (\<lambda>q. fst q \<noteq> VCreate) deleteFootprint"
    by (simp add: deleteFootprint_def)
  then show "emits (\<lambda>c. fst (requirement c) \<noteq> VCreate) (reconcileDelete r sv)"
    by (intro emits_mono [OF uses_reconcileDelete [unfolded uses_def]]) (auto simp: list_all_iff)
  have "list_all (\<lambda>q. if fst q = VDelete then snd q \<in> set liveDeletes else True) liveFootprint"
    by (simp add: liveFootprint_def writing_def liveDeletes_def)
  then show "emits (\<lambda>c. if fst (requirement c) = VDelete then snd (requirement c) \<in> set liveDeletes else True)
       (reconcileLive r sv)"
    by (intro emits_mono [OF uses_reconcileLive [unfolded uses_def]]) (simp add: list_all_iff)
qed

subsection \<open>Waiting for claims\<close>

definition waitFootprint :: "(verb \<times> resource) list" where
  "waitFootprint = [(VUpdate, SharedVolumeStatusRes), (VList, Resource KPV), (VGet, Resource KPVC),
     (VDelete, Resource KPVC), (VDelete, Resource KPV)]"

definition within :: "(verb \<times> resource) list \<Rightarrow> 'w run \<Rightarrow> bool" where
  "within R s = list_all (\<lambda>(c, _). requirement c \<in> set R) (trace s)"

lemma wp_uses:
  assumes "uses R m" "set R \<subseteq> set R'" "within R' s"
  shows "wp m (\<lambda>_. within R') (\<lambda>_. within R') s"
proof -
  obtain h where "trace (snd (m s)) = h @ trace s" "\<forall>(c, rep) \<in> set h. requirement c \<in> set R"
    using assms(1) by (auto simp: uses_def emits_def)
  then have "within R' (snd (m s))" using assms(2,3) by (auto simp: within_def list_all_iff)
  then show ?thesis by (cases "m s") (simp add: wp_def split: sum.splits)
qed

lemma wp_finishTeardown_result: "wp (finishTeardown r sv) (\<lambda>res _. res = doneResult) (\<lambda>_ _. True) s"
  unfolding finishTeardown_def wp_bind wp_return by (simp add: wp_def split: prod.splits sum.splits)

lemma wp_teardown_waits:
  assumes "within waitFootprint s"
  shows "wp (teardown r sv) (\<lambda>res s'. res = doneResult
      \<or> res = doneResult\<lparr>resRequeueAfter := requeueDelay\<rparr> \<and> within waitFootprint s') (\<lambda>_ _. True) s"
proof -
  have list: "uses waitFootprint (listObjects r KPV asPV opt)" for opt
    unfolding uses_def by (intro emits_rules) (simp add: waitFootprint_def)
  have drain: "wp (drainPVs r sv pvs 0) (\<lambda>_. within waitFootprint) (\<lambda>_. within waitFootprint) s'"
    if "within waitFootprint s'" for pvs s'
    by (rule wp_uses [OF uses_drainPVs _ that]) (simp add: waitFootprint_def writing_def)
  have rest: "wp (if 0 < (n :: nat) then returnE (doneResult\<lparr>resRequeueAfter := requeueDelay\<rparr>) else finishTeardown r sv)
      (\<lambda>res s'. res = doneResult \<or> res = doneResult\<lparr>resRequeueAfter := requeueDelay\<rparr> \<and> within waitFootprint s')
      (\<lambda>_ _. True) s'" if "within waitFootprint s'" for n s'
    using that by (auto simp: wp_return intro: wp_mono [OF wp_finishTeardown_result])
  show ?thesis unfolding teardown_def
    by (rule wp_seq [OF wp_mono [OF wp_uses [OF list subset_refl assms]]], assumption, simp,
        rule wp_seq [OF wp_mono [OF drain]], assumption, assumption, simp, rule rest)
qed

text \<open>C15: a deletion pass that asks to be requeued has only marked the volume, read claims and deleted claims
  and PVs: as long as a consumer claim remains, the server stack, the backing claim and the finalizer are
  left alone. Every other successful deletion pass returns the empty result.\<close>

theorem reconcileDelete_waits:
  assumes "trace s = []" "reconcileDelete r sv s = (Inr res, s')"
  shows "res = doneResult
    \<or> resRequeueAfter res = 5000000000 \<and> list_all (\<lambda>(c, _). requirement c \<in> set waitFootprint) (trace s')"
proof -
  have w: "within waitFootprint s" using assms(1) by (simp add: within_def)
  have mark: "wp (markTerminating r sv) (\<lambda>_. within waitFootprint) (\<lambda>_. within waitFootprint) s"
    by (rule wp_uses [OF uses_markTerminating _ w]) (simp add: waitFootprint_def)
  have "wp (reconcileDelete r sv) (\<lambda>res s'. res = doneResult
      \<or> res = doneResult\<lparr>resRequeueAfter := requeueDelay\<rparr> \<and> within waitFootprint s') (\<lambda>_ _. True) s"
    unfolding reconcileDelete_def wp_if wp_return
    by (auto intro!: wp_seq [where P = "\<lambda>_. within waitFootprint"] wp_mono [OF mark] wp_teardown_waits)
  from wp_result [OF this assms(2)] show ?thesis by (auto simp: within_def requeueDelay_def)
qed

end
