(* ===== verification/Schedule.thy ===== *)
theory Schedule
  imports Compliance
begin

text \<open>
  Passes over time. The controller's work queue runs the passes for one SharedVolume one after another;
  between two passes, as within one, other actors change the cluster at will. \<open>schedule r req hs w\<close> says
  that \<open>hs\<close> are the histories of the passes so far, the latest first, and \<open>w\<close> is the state of the world.
\<close>

definition freshRun :: "'w \<Rightarrow> 'w run" where
  "freshRun w = \<lparr>world = w, trace = []\<rparr>"

lemma freshRun_simps [simp]: "trace (freshRun w) = []" "world (freshRun w) = w"
  by (simp_all add: freshRun_def)

inductive schedule ::
  "('w, 'b) SharedVolumeReconciler_scheme \<Rightarrow> NamespacedName \<Rightarrow> history list \<Rightarrow> 'w \<Rightarrow> bool"
  for r :: "('w, 'b) SharedVolumeReconciler_scheme" and req :: NamespacedName where
  start: "schedule r req [] w"
| pass: "schedule r req hs w \<Longrightarrow> Reconcile r req (freshRun w) = (res, s) \<Longrightarrow>
    schedule r req (trace s # hs) (world s)"
| interference: "schedule r req hs w \<Longrightarrow> schedule r req hs w'"

inductive_cases scheduleE: "schedule r req hs w"

lemma schedule_history:
  assumes "schedule r req hs w" "h \<in> set hs"
  shows "\<exists>w0. h = trace (snd (Reconcile r req (freshRun w0)))"
  using assms by (induction rule: schedule.induct) (auto intro: exI, metis snd_conv)

text \<open>A property of the trace of every pass holds of every history of a schedule.\<close>

lemma schedule_invariant:
  assumes "schedule r req hs w" "\<And>w0. P (trace (snd (Reconcile r req (freshRun w0))))"
  shows "list_all P hs"
  using assms by (auto simp: list_all_iff dest!: schedule_history)

end
