(* ===== verification/SteadyPass.thy ===== *)
theory SteadyPass
  imports LivePass Effects Schedule
begin

text \<open>
  The operator at rest. A volume is \<open>settled\<close> when the cluster holds what its spec asks for and nothing has drifted.
  A pass over a settled volume only reads, writes the status once at the end, and leaves the volume settled: the
  operator does not fight with itself, however often the queue runs it.
\<close>

subsection \<open>Programs that only read\<close>

fun isRead :: "call \<Rightarrow> bool" where
  "isRead (Get k key) = True"
| "isRead (ListObjects k opt) = True"
| "isRead _ = False"

definition onlyRead :: "'w run \<Rightarrow> 'w run \<Rightarrow> bool" where
  "onlyRead s s' = (world s' = world s \<and> (\<exists>h. trace s' = h @ trace s \<and> (\<forall>(c, rep) \<in> set h. isRead c)))"

lemma onlyRead_trans:
  assumes "onlyRead s s'" "onlyRead s' s''"
  shows "onlyRead s s''"
proof -
  obtain h1 h2 where "trace s' = h1 @ trace s" "\<forall>(c, rep) \<in> set h1. isRead c"
    "trace s'' = h2 @ trace s'" "\<forall>(c, rep) \<in> set h2. isRead c" "world s'' = world s"
    using assms by (auto simp: onlyRead_def)
  then show ?thesis by (auto simp: onlyRead_def intro!: exI [of _ "h2 @ h1"])
qed

lemma onlyRead_refl [simp]: "onlyRead s s"
  by (simp add: onlyRead_def)

text \<open>From the world \<open>w\<close> the program ends with a value and only reads.\<close>

definition quiet :: "'w \<Rightarrow> ('w, 'a) prog \<Rightarrow> ('a \<Rightarrow> bool) \<Rightarrow> bool" where
  "quiet w m Q = (\<forall>s. world s = w \<longrightarrow> (\<exists>x s'. m s = (Inr x, s') \<and> onlyRead s s' \<and> Q x))"

lemma quietI: "(\<And>s. world s = w \<Longrightarrow> \<exists>x s'. m s = (Inr x, s') \<and> onlyRead s s' \<and> Q x) \<Longrightarrow> quiet w m Q"
  by (simp add: quiet_def)

lemma quietE:
  assumes "quiet w m Q" "world s = w"
  obtains x s' where "m s = (Inr x, s')" "onlyRead s s'" "world s' = w" "Q x"
  using assms unfolding quiet_def onlyRead_def by metis

named_theorems quiet_rules \<open>programs that only read\<close>

lemma quiet_return [quiet_rules]: "Q x \<Longrightarrow> quiet w (returnE x) Q"
  by (simp add: quiet_def returnE_def)

lemma quiet_mono: "quiet w m P \<Longrightarrow> (\<And>x. P x \<Longrightarrow> Q x) \<Longrightarrow> quiet w m Q"
  unfolding quiet_def by blast

lemma quiet_switchE:
  assumes "quiet w m P" "\<And>x. P x \<Longrightarrow> quiet w (f x) Q"
  shows "quiet w (switchE m h f) Q"
proof (rule quietI)
  fix s :: "'a run" assume "world s = w"
  then obtain x s1 where m: "m s = (Inr x, s1)" "onlyRead s s1" "world s1 = w" "P x" by (rule quietE [OF assms(1)])
  obtain y s2 where f: "f x s1 = (Inr y, s2)" "onlyRead s1 s2" "Q y" by (rule quietE [OF assms(2) [OF m(4)] m(3)])
  show "\<exists>y s'. switchE m h f s = (Inr y, s') \<and> onlyRead s s' \<and> Q y"
    using m(1) f(1,3) onlyRead_trans [OF m(2) f(2)] by (simp add: switchE_def)
qed

lemma quiet_bind: "quiet w m P \<Longrightarrow> (\<And>x. P x \<Longrightarrow> quiet w (f x) Q) \<Longrightarrow> quiet w (bindE m f) Q"
  unfolding bindE_switchE by (rule quiet_switchE)

lemma quiet_switchGet: "quiet w m P \<Longrightarrow> (\<And>x. P x \<Longrightarrow> quiet w (f x) Q) \<Longrightarrow> quiet w (switchGet m a f) Q"
  unfolding switchGet_def by (rule quiet_switchE)

lemma quiet_liftPanic: "x = Inr y \<Longrightarrow> quiet w (liftPanic x) (\<lambda>z. z = y)"
  by (simp add: liftPanic_def quiet_return)

text \<open>Total correctness without a change of the world, and a footprint of reads.\<close>

lemma quiet_total:
  assumes "emits isRead m" "\<And>s. world s = w \<Longrightarrow> wp m (\<lambda>x s'. world s' = w \<and> Q x) (\<lambda>_ _. False) s"
  shows "quiet w m Q"
proof (rule quietI)
  fix s :: "'a run" assume w: "world s = w"
  from assms(2) [OF this] obtain x s' where m: "m s = (Inr x, s')" "world s' = w" "Q x"
    by (auto simp: wp_def split: prod.splits sum.splits)
  moreover obtain h where "trace (snd (m s)) = h @ trace s" "\<forall>(c, rep) \<in> set h. isRead c"
    using assms(1) unfolding emits_def by blast
  ultimately show "\<exists>x s'. m s = (Inr x, s') \<and> onlyRead s s' \<and> Q x" using w by (auto simp: onlyRead_def)
qed

lemma emits_reads: "uses R m \<Longrightarrow> list_all (\<lambda>q. fst q \<in> {VGet, VList}) R \<Longrightarrow> emits isRead m"
proof (unfold uses_def, erule emits_mono)
  fix c assume "list_all (\<lambda>q. fst q \<in> {VGet, VList}) R" "requirement c \<in> set R"
  then have "fst (requirement c) \<in> {VGet, VList}" by (auto simp: list_all_iff)
  then show "isRead c" by (cases c) auto
qed

subsection \<open>A settled volume\<close>

definition serverSettled :: "('w, 'b) SharedVolumeReconciler_scheme \<Rightarrow> SharedVolume \<Rightarrow> view \<Rightarrow> bool" where
  "serverSettled r sv v = (v KPVC (backingKey r sv) \<noteq> None
     \<and> (\<exists>c. v KConfigMap (OperatorNamespace r, ConfigMapName sv) = Some (OConfigMap c)
          \<and> mapGet (cmData c) ''ganesha.conf'' = Config)
     \<and> (\<exists>d. v KDeployment (OperatorNamespace r, ServerName sv) = Some (ODeployment d)
          \<and> deploymentDrifted (depTemplate (depSpec d)) (depTemplate (depSpec (BuildServerDeployment sv
              (OperatorNamespace r) (GaneshaImage r) (BuildConfigMap sv (OperatorNamespace r))))) = Inr False)
     \<and> v KService (OperatorNamespace r, ServerName sv) \<noteq> None)"

definition pairSettled :: "SharedVolume \<Rightarrow> view \<Rightarrow> string \<Rightarrow> bool" where
  "pairSettled sv v t = (\<exists>pv pvc. v KPV ('''', PVName sv t) = Some (OPV pv) \<and> \<not> needsRepair pv
     \<and> v KPVC (t, ConsumerPVCName sv) = Some (OPVC pvc)
     \<and> mapGet (omLabels (pvcMeta pvc)) LabelSharedVolume = svName sv)"

text \<open>A PV of the volume in a namespace that is no target waits for its claim, which is on its way out.\<close>

definition outgoing :: "SharedVolume \<Rightarrow> view \<Rightarrow> ObjectReference \<Rightarrow> bool" where
  "outgoing sv v ref = (\<exists>pvc. v KPVC (refNamespace ref, refName ref) = Some (OPVC pvc)
     \<and> mapGet (omLabels (pvcMeta pvc)) LabelSharedVolume = svName sv \<and> \<not> IsZero (omDeletionTimestamp (pvcMeta pvc)))"

definition noneStale :: "SharedVolume \<Rightarrow> (string \<Rightarrow> bool) \<Rightarrow> view \<Rightarrow> bool" where
  "noneStale sv target v = (\<forall>key pv ref. v KPV key = Some (OPV pv) \<longrightarrow>
     omLabels (pvMeta pv) LabelSharedVolume = Some (svName sv) \<longrightarrow> pvClaimRef (pvSpec pv) = Some ref \<longrightarrow>
     target (refNamespace ref) \<or> outgoing sv v ref)"

text \<open>The policy that the targets and the nodes of the cluster ask for.\<close>

definition policySettled :: "('w, 'b) SharedVolumeReconciler_scheme \<Rightarrow> SharedVolume \<Rightarrow> view \<Rightarrow> bool" where
  "policySettled r sv v =
     (if specNetworkPolicy (svSpec sv) = NetworkPolicyDisabled
      then v KNetworkPolicy (OperatorNamespace r, ServerName sv) = None
      else \<exists>p. v KNetworkPolicy (OperatorNamespace r, ServerName sv) = Some (ONetworkPolicy p)
        \<and> (\<forall>targets ips. sorted targets \<longrightarrow> distinct targets \<longrightarrow> (\<forall>t. t \<in> set targets \<longleftrightarrow> wanted r sv v t) \<longrightarrow>
             sorted ips \<longrightarrow> distinct ips \<longrightarrow>
             set ips = (\<Union>n \<in> {n. v KNode ('''', omName (nodeMeta n)) = Some (ONode n)}. nodeSources n) \<longrightarrow>
             semanticDeepEqual r (npSpec p)
               (npSpec (BuildNetworkPolicy sv (OperatorNamespace r) targets ips (AllowCIDRs r)))))"

definition backupSettled :: "('w, 'b) SharedVolumeReconciler_scheme \<Rightarrow> SharedVolume \<Rightarrow> view \<Rightarrow> bool" where
  "backupSettled r sv v =
     (if svBackup sv = None then v KCronJob (OperatorNamespace r, BackupCronJobName sv) = None
      else \<exists>c d. v KCronJob (OperatorNamespace r, BackupCronJobName sv) = Some (OCronJob c)
        \<and> BuildBackupCronJob sv (OperatorNamespace r) (BackupImage r) = Inr d \<and> backupCronJobDrifted c d = Inr False)"

definition settled :: "('w, 'b) SharedVolumeReconciler_scheme \<Rightarrow> SharedVolume \<Rightarrow> view \<Rightarrow> bool" where
  "settled r sv v = (IsZero (omDeletionTimestamp (svMeta sv)) \<and> finalizerName \<in> set (omFinalizers (svMeta sv))
     \<and> selectorParses r sv \<and> seedSettled r sv \<and> serverSettled r sv v
     \<and> (\<forall>t. wanted r sv v t \<longrightarrow> pairSettled sv v t) \<and> noneStale sv (wanted r sv v) v
     \<and> policySettled r sv v \<and> backupSettled r sv v)"

lemma same_builds:
  assumes "svName a = svName b" "svSpec a = svSpec b"
  shows "BuildConfigMap a = BuildConfigMap b" "BuildServerDeployment a = BuildServerDeployment b"
    "BuildNetworkPolicy a = BuildNetworkPolicy b" "BuildBackupCronJob a = BuildBackupCronJob b"
proof -
  have names: "ConfigMapName a = ConfigMapName b" "ServerName a = ServerName b" "BackingPVCName a = BackingPVCName b"
    "BackupCronJobName a = BackupCronJobName b" "managedLabels a = managedLabels b" "serverSelector a = serverSelector b"
    using assms(1) by (simp_all add: object_names managedLabels_def serverSelector_def)
  show "BuildConfigMap a = BuildConfigMap b" "BuildServerDeployment a = BuildServerDeployment b"
    "BuildNetworkPolicy a = BuildNetworkPolicy b"
    by (simp_all add: fun_eq_iff BuildConfigMap_def BuildServerDeployment_def BuildNetworkPolicy_def names)
  have pod: "backupPodSpec a = backupPodSpec b"
    by (intro ext) (unfold backupPodSpec_def names assms, rule refl)
  show "BuildBackupCronJob a = BuildBackupCronJob b"
    by (intro ext) (unfold BuildBackupCronJob_def names assms pod, rule refl)
qed

text \<open>All of this depends on the volume's name, spec, finalizers and deletion, and on other kinds of objects.\<close>

lemma settled_cong:
  assumes "svName a = svName b" "svSpec a = svSpec b" "omFinalizers (svMeta a) = omFinalizers (svMeta b)"
    and "omDeletionTimestamp (svMeta a) = omDeletionTimestamp (svMeta b)" "seedSettled r a = seedSettled r b"
    and view: "\<And>k. k \<noteq> KSharedVolume \<Longrightarrow> v' k = v k"
  shows "settled r a v' = settled r b v"
proof -
  note same = same_builds [OF assms(1,2)]
  have names: "ConfigMapName a = ConfigMapName b" "ServerName a = ServerName b" "backingKey r a = backingKey r b"
    "BackupCronJobName a = BackupCronJobName b" "PVName a = PVName b" "ConsumerPVCName a = ConsumerPVCName b"
    using assms(1) by (simp_all add: object_names backingKey_def fun_eq_iff)
  have wanted: "wanted r a v' = wanted r b v"
    using assms(2) view [of KNamespace] by (simp add: fun_eq_iff wanted_def selectsNamespace_def)
  have "serverSettled r a v' = serverSettled r b v"
    using view by (simp add: serverSettled_def names same)
  moreover have "pairSettled a v' = pairSettled b v" "outgoing a v' = outgoing b v"
    using view assms(1) by (simp_all add: fun_eq_iff pairSettled_def outgoing_def names)
  moreover from this have "noneStale a (wanted r a v') v' = noneStale b (wanted r b v) v"
    using view [of KPV] assms(1) wanted by (simp add: noneStale_def)
  moreover have "policySettled r a v' = policySettled r b v" "backupSettled r a v' = backupSettled r b v"
    using view assms(2) by (simp_all add: policySettled_def backupSettled_def names same wanted)
  ultimately show ?thesis
    using assms wanted by (simp add: settled_def selectorParses_def)
qed

text \<open>Of the status only the conditions count.\<close>

lemma settled_recorded:
  assumes "svMeta a = svMeta b" "svSpec a = svSpec b" "svConditions a = svConditions b"
  shows "settled r a v = settled r b v"
  using assms by (intro settled_cong) (simp_all add: seedSettled_def)

text \<open>What a pass over a settled volume does: reads, and at the end one status update.\<close>

definition atRest ::
  "('w, 'b) SharedVolumeReconciler_scheme \<Rightarrow> SharedVolume \<Rightarrow> view \<Rightarrow> view \<Rightarrow> history \<Rightarrow> bool" where
  "atRest r sv v v' h = (\<exists>u y reads. h = (StatusUpdate (OSharedVolume u), Returned (OSharedVolume y)) # reads
     \<and> (\<forall>(c, rep) \<in> set reads. isRead c) \<and> svMeta u = svMeta sv \<and> svSpec u = svSpec sv \<and> svSpec y = svSpec sv
     \<and> v' = put v KSharedVolume (ObjectKeyFromObject (OSharedVolume sv)) (Some (OSharedVolume y)) \<and> settled r y v')"

lemma atRest_reads:
  "atRest r sv v v' h \<Longrightarrow> \<forall>(c, rep) \<in> set reads. isRead c \<Longrightarrow> atRest r sv v v' (h @ reads)"
  unfolding atRest_def by fastforce

subsection \<open>Every step of a pass only reads\<close>

context api_server
begin

lemma quiet_get [quiet_rules]:
  assumes "inv w" "objs w k key = Some x" "as x = Some y"
  shows "quiet w (getObject r k as key) (\<lambda>z. z = y)"
  using assms by (intro quiet_total emits_api)
    (auto simp: getObject_def wp_simps wp_invoke wp_returnedObject get_reply)

lemma quiet_missing:
  assumes "inv w" "objs w k key = None" "quiet w (h (ApiError NotFound)) Q"
  shows "quiet w (switchE (getObject r k as key) h f) Q"
proof (rule quietI)
  fix s :: "'w run" assume s: "world s = w"
  let ?t = "after s (Get k key) (Failed NotFound) w"
  have "switchE (getObject r k as key) h f s = h (ApiError NotFound) ?t"
    using assms(1,2) s
    by (simp add: switchE_def getObject_def bindE_def invoke_def get_reply throwE_def)
  moreover have "onlyRead s ?t" using s by (simp add: onlyRead_def)
  moreover have "world ?t = w" by simp
  from assms(3) this obtain x s' where "h (ApiError NotFound) ?t = (Inr x, s')" "onlyRead ?t s'" "Q x" by (rule quietE)
  ultimately show "\<exists>x s'. switchE (getObject r k as key) h f s = (Inr x, s') \<and> onlyRead s s' \<and> Q x"
    using onlyRead_trans by fastforce
qed

lemma quiet_list:
  assumes "inv w" "decodes k as" "\<And>x y. as x = Some y \<longleftrightarrow> x = con y"
  shows "quiet w (listObjects r k as opt)
    (\<lambda>ys. \<forall>y. y \<in> set ys \<longleftrightarrow> objs w k (ObjectKeyFromObject (con y)) = Some (con y) \<and> selects opt (con y))"
  by (rule quiet_total, rule emits_api, simp, rule total_listObjects [where con = con]) (use assms in auto)

lemma quiet_targetNamespaces:
  assumes "inv w" "selectorParses r sv"
  shows "quiet w (targetNamespaces r sv) (\<lambda>ts. sorted ts \<and> distinct ts \<and> (\<forall>t. t \<in> set ts \<longleftrightarrow> wanted r sv (objs w) t))"
proof (rule quiet_total)
  show "emits isRead (targetNamespaces r sv)"
    by (rule emits_reads [OF uses_targetNamespaces]) (simp add: writing_def)
  show "total (targetNamespaces r sv) (\<lambda>ts s'. world s' = w \<and> sorted ts \<and> distinct ts
      \<and> (\<forall>t. t \<in> set ts \<longleftrightarrow> wanted r sv (objs w) t)) s" if "world s = w" for s :: "'w run"
    using total_targetNamespaces [of s sv] assms that by simp
qed


lemma quiet_seed: "seedSettled r sv \<Longrightarrow> quiet w (reconcileSeed r sv) (\<lambda>x. x = (True, sv))"
  by (simp add: quiet_def reconcileSeed_settled)

lemma quiet_reconcileServer:
  assumes "inv w" "serverSettled r sv (objs w)" "seedSettled r sv"
  shows "quiet w (reconcileServer r sv) (\<lambda>(ip, ready, sv'). ip \<noteq> '''' \<and> sv' = sv)"
proof -
  let ?ns = "OperatorNamespace r"
  obtain p c d v where objects: "objs w KPVC (backingKey r sv) = Some p"
    "objs w KConfigMap (?ns, ConfigMapName sv) = Some (OConfigMap c)" "mapGet (cmData c) ''ganesha.conf'' = Config"
    "objs w KDeployment (?ns, ServerName sv) = Some (ODeployment d)"
    "deploymentDrifted (depTemplate (depSpec d)) (depTemplate (depSpec (BuildServerDeployment sv ?ns (GaneshaImage r)
      (BuildConfigMap sv ?ns)))) = Inr False"
    "objs w KService (?ns, ServerName sv) = Some v"
    using assms(2) by (auto simp: serverSettled_def)
  obtain q u where kinds: "p = OPVC q" "v = OService u"
    using stored_typed(1) [OF assms(1) objects(1)] stored_typed(1) [OF assms(1) objects(6)] by (cases p; cases v) auto
  have claim: "quiet w (createIfMissing r sv (OPVC (BuildBackingPVC sv ?ns)) asPVC) (\<lambda>_. True)"
    unfolding createIfMissing_def
    by (rule quiet_switchGet [OF quiet_get [OF assms(1)]])
      (use objects(1) kinds in \<open>auto simp: built_keys backingKey_def intro: quiet_return\<close>)
  have conf: "quiet w (ensureConfigMap r sv (BuildConfigMap sv ?ns)) (\<lambda>cm. cm = BuildConfigMap sv ?ns)"
    unfolding ensureConfigMap_def
    by (rule quiet_switchGet [OF quiet_get [OF assms(1)]])
      (use objects(2,3) in \<open>auto simp: built_keys conf_data intro: quiet_return\<close>)
  have server: "quiet w (ensureDeployment r sv (BuildConfigMap sv ?ns)) (\<lambda>_. True)"
    unfolding ensureDeployment_def Let_def
    by (rule quiet_bind [OF quiet_switchGet [OF quiet_get [OF assms(1)]]])
      (use objects(4,5) in \<open>auto simp: built_keys intro!: quiet_return quiet_bind [OF quiet_liftPanic]\<close>)
  have service: "quiet w (ensureService r sv) (\<lambda>ip. ip \<noteq> '''')"
    unfolding ensureService_def Let_def
    by (rule quiet_bind [OF quiet_switchGet [OF quiet_get [OF assms(1)]]])
      (use objects(6) kinds service_address [OF assms(1)] in \<open>auto simp: built_keys intro!: quiet_return\<close>)
  show ?thesis unfolding reconcileServer_def
    by (rule quiet_bind [OF claim], rule quiet_bind [OF conf], rule quiet_bind [OF quiet_seed [OF assms(3)]])
      (auto intro!: quiet_bind [OF server] quiet_bind [OF service] quiet_return)
qed

lemma quiet_reconcileBinding:
  assumes "inv w" "pairSettled sv (objs w) t"
  shows "quiet w (reconcileBinding r sv t ip) (\<lambda>_. True)"
proof -
  obtain pv pvc where pair: "objs w KPV ('''', PVName sv t) = Some (OPV pv)" "\<not> needsRepair pv"
    "objs w KPVC (t, ConsumerPVCName sv) = Some (OPVC pvc)" "mapGet (omLabels (pvcMeta pvc)) LabelSharedVolume = svName sv"
    using assms(2) by (auto simp: pairSettled_def)
  have "quiet w (ensurePV r sv t ip) (\<lambda>_. True)" unfolding ensurePV_def Let_def
    by (rule quiet_switchGet [OF quiet_get [OF assms(1)]])
      (use pair(1,2) in \<open>auto simp: built_keys BuildPV_def ObjectKeyFromObject_def intro: quiet_return\<close>)
  then show ?thesis unfolding reconcileBinding_def Let_def
    by (rule quiet_bind, intro quiet_switchGet [OF quiet_get [OF assms(1)]])
      (use pair(3,4) in \<open>auto simp: built_keys intro: quiet_return\<close>)
qed

lemma quiet_reconcileBindings:
  assumes "inv w" "\<And>t. t \<in> set targets \<Longrightarrow> pairSettled sv (objs w) t"
  shows "quiet w (reconcileBindings r sv targets ip) (\<lambda>_. True)"
  using assms(2)
proof (induction targets)
  case (Cons t targets)
  then show ?case
    by (auto intro!: quiet_bind [OF quiet_reconcileBinding [OF assms(1)]] quiet_bind [OF Cons.IH] quiet_return)
qed (simp add: quiet_return)

lemma quiet_cleanupPVs:
  assumes "inv w" "\<And>pv ref. pv \<in> set pvs \<Longrightarrow> pvClaimRef (pvSpec pv) = Some ref \<Longrightarrow> refNamespace ref \<in> set targets
      \<or> outgoing sv (objs w) ref"
  shows "quiet w (cleanupPVs r sv targets pvs) (\<lambda>_. True)"
  using assms(2)
proof (induction pvs)
  case (Cons pv pvs)
  then have rest: "quiet w (cleanupPVs r sv targets pvs) (\<lambda>_. True)" by (meson list.set_intros(2))
  show ?case
  proof (cases "pvClaimRef (pvSpec pv)")
    case (Some ref)
    then consider "refNamespace ref \<in> set targets" | pvc where
      "refNamespace ref \<notin> set targets" "objs w KPVC (refNamespace ref, refName ref) = Some (OPVC pvc)"
      "mapGet (omLabels (pvcMeta pvc)) LabelSharedVolume = svName sv" "\<not> IsZero (omDeletionTimestamp (pvcMeta pvc))"
      using Cons.prems [of pv ref] by (auto simp: outgoing_def)
    then show ?thesis
    proof cases
      case 2
      have "quiet w (getObject r KPVC asPVC (refNamespace ref, refName ref)) (\<lambda>x. x = pvc)"
        by (rule quiet_get [OF assms(1) 2(2)]) simp
      with 2 Some rest show ?thesis
        by (auto simp: Let_def intro!: quiet_switchE quiet_bind [OF quiet_return])
    qed (use Some rest in simp)
  qed (use rest in simp)
qed (simp add: quiet_return)


lemma quiet_cleanupStaleBindings:
  assumes "inv w" "noneStale sv (\<lambda>t. t \<in> set targets) (objs w)"
  shows "quiet w (cleanupStaleBindings r sv targets) (\<lambda>_. True)"
  unfolding cleanupStaleBindings_def
proof (rule quiet_bind [OF quiet_list [OF assms(1), where con = OPV]])
  fix pvs assume "\<forall>pv. pv \<in> set pvs \<longleftrightarrow> objs w KPV (ObjectKeyFromObject (OPV pv)) = Some (OPV pv)
      \<and> selects (MatchingLabels LabelSharedVolume (svName sv)) (OPV pv)"
  with assms(2) show "quiet w (cleanupPVs r sv targets pvs) (\<lambda>_. True)"
    by (intro quiet_cleanupPVs [OF assms(1)]) (simp add: noneStale_def selects_def del: split_paired_All, blast)
qed simp_all

lemma quiet_bindingsStep:
  assumes "inv w" "\<And>t. t \<in> set targets \<longleftrightarrow> wanted r sv (objs w) t"
    and "\<forall>t. wanted r sv (objs w) t \<longrightarrow> pairSettled sv (objs w) t" "noneStale sv (wanted r sv (objs w)) (objs w)"
  shows "quiet w (bindingsStep r sv targets ip) (\<lambda>_. True)"
proof -
  have "wanted r sv (objs w) = (\<lambda>t. t \<in> set targets)" using assms(2) by auto
  then have "quiet w (cleanupStaleBindings r sv targets) (\<lambda>_. True)"
    using assms(4) by (intro quiet_cleanupStaleBindings [OF assms(1)]) simp
  moreover have "quiet w (reconcileBindings r sv targets ip) (\<lambda>_. True)"
    using assms(2,3) by (intro quiet_reconcileBindings [OF assms(1)]) simp
  ultimately show ?thesis unfolding bindingsStep_def
    by (auto intro!: quiet_bind quiet_return)
qed

lemma quiet_nodeIPs:
  assumes "inv w"
  shows "quiet w (nodeIPs r) (\<lambda>ips. sorted ips \<and> distinct ips
    \<and> set ips = (\<Union>n \<in> {n. objs w KNode ('''', omName (nodeMeta n)) = Some (ONode n)}. nodeSources n))"
  unfolding nodeIPs_def
proof (rule quiet_bind [OF quiet_list [OF assms, where con = ONode]])
  fix nodes assume nodes: "\<forall>n. n \<in> set nodes \<longleftrightarrow> objs w KNode (ObjectKeyFromObject (ONode n)) = Some (ONode n)
      \<and> selects ListAll (ONode n)"
  have key: "ObjectKeyFromObject (ONode n) = ('''', omName (nodeMeta n))" if "objs w KNode k = Some (ONode n)" for k n
    using stored_typed(3) [OF assms that] by (simp add: ObjectKeyFromObject_def)
  have "n \<in> set nodes \<longleftrightarrow> objs w KNode ('''', omName (nodeMeta n)) = Some (ONode n)" for n
    using nodes [rule_format, of n] key [of _ n] unfolding selects_def list_option.case by metis
  then have "set nodes = {n. objs w KNode ('''', omName (nodeMeta n)) = Some (ONode n)}" by auto
  then show "quiet w (returnE (sortedKeys (collectNodes nodes []))) (\<lambda>ips. sorted ips \<and> distinct ips
      \<and> set ips = (\<Union>n \<in> {n. objs w KNode ('''', omName (nodeMeta n)) = Some (ONode n)}. nodeSources n))"
    by (intro quiet_return) (simp add: set_collectNodes distinct_collectNodes)
qed simp_all

lemma quiet_reconcileNetworkPolicy:
  assumes "inv w" "policySettled r sv (objs w)"
    and "sorted targets" "distinct targets" "\<And>t. t \<in> set targets \<longleftrightarrow> wanted r sv (objs w) t"
  shows "quiet w (reconcileNetworkPolicy r sv targets) (\<lambda>_. True)"
proof (cases "specNetworkPolicy (svSpec sv) = NetworkPolicyDisabled")
  case True
  with assms(1,2) show ?thesis unfolding reconcileNetworkPolicy_def Let_def
    by (intro quiet_missing) (auto simp: policySettled_def intro: quiet_return)
next
  case False
  with assms(2) obtain p where p: "objs w KNetworkPolicy (OperatorNamespace r, ServerName sv) = Some (ONetworkPolicy p)"
    and same: "sorted ips \<Longrightarrow> distinct ips \<Longrightarrow>
      set ips = (\<Union>n \<in> {n. objs w KNode ('''', omName (nodeMeta n)) = Some (ONode n)}. nodeSources n) \<Longrightarrow>
      semanticDeepEqual r (npSpec p) (npSpec (BuildNetworkPolicy sv (OperatorNamespace r) targets ips (AllowCIDRs r)))"
    for ips using assms(3-5) by (auto simp: policySettled_def)
  have want: "quiet w (bindE (nodeIPs r) (\<lambda>ips. returnE (BuildNetworkPolicy sv (OperatorNamespace r) targets ips (AllowCIDRs r))))
      (\<lambda>d. semanticDeepEqual r (npSpec p) (npSpec d))"
    by (rule quiet_bind [OF quiet_nodeIPs [OF assms(1)]], rule quiet_return) (simp add: same)
  show ?thesis unfolding reconcileNetworkPolicy_def Let_def if_not_P [OF False]
    by (rule quiet_switchE [OF quiet_get [OF assms(1) p]], simp, rule quiet_bind [OF want]) (auto intro: quiet_return)
qed

lemma quiet_reconcileBackup:
  assumes "inv w" "backupSettled r sv (objs w)"
  shows "quiet w (reconcileBackup r sv) (\<lambda>sv'. svMeta sv' = svMeta sv \<and> svSpec sv' = svSpec sv
    \<and> svConditions sv' = svConditions sv)"
proof (cases "svBackup sv = None")
  case True
  with assms(1,2) show ?thesis unfolding reconcileBackup_def Let_def
    by simp (rule quiet_missing, auto simp: backupSettled_def setLastBackupTime_def intro: quiet_return)
next
  case False
  with assms(2) obtain c d where c: "objs w KCronJob (OperatorNamespace r, BackupCronJobName sv) = Some (OCronJob c)"
    "BuildBackupCronJob sv (OperatorNamespace r) (BackupImage r) = Inr d" "backupCronJobDrifted c d = Inr False"
    by (auto simp: backupSettled_def)
  have "quiet w (bindE (liftPanic (BuildBackupCronJob sv (OperatorNamespace r) (BackupImage r))) (\<lambda>desired.
      bindE (liftPanic (backupCronJobDrifted c desired)) (\<lambda>drifted.
      bindE (if drifted then writeObject r (Update (OCronJob (c\<lparr>cjSpec := cjSpec desired\<rparr>))) asCronJob else returnE c)
      (\<lambda>existing'. returnE (setLastBackupTime sv (cjLastSuccessfulTime existing'))))))
    (\<lambda>sv'. svMeta sv' = svMeta sv \<and> svSpec sv' = svSpec sv \<and> svConditions sv' = svConditions sv)"
    by (rule quiet_bind [OF quiet_liftPanic [OF c(2)]], simp,
        rule quiet_bind [OF quiet_liftPanic [OF c(3)]], simp, rule quiet_bind [where P = "\<lambda>x. x = c"])
      (auto simp: setLastBackupTime_def intro: quiet_return)
  then show ?thesis unfolding reconcileBackup_def Let_def if_not_P [OF False]
    by (intro quiet_switchE [OF quiet_get [OF assms(1) c(1)]]) auto
qed


subsection \<open>A whole pass\<close>

lemma quiet_run: "quiet w m Q \<Longrightarrow> world s = w \<Longrightarrow> total m (\<lambda>x s'. onlyRead s s' \<and> Q x) s"
  by (auto simp: wp_def elim!: quietE)

lemma quiet_seq:
  assumes "quiet w m P" "onlyRead s0 s" "world s0 = w" "\<And>x s'. P x \<Longrightarrow> onlyRead s0 s' \<Longrightarrow> total (f x) Q s'"
  shows "total (bindE m f) Q s"
proof -
  have "world s = w" using assms(2,3) by (simp add: onlyRead_def)
  from wp_seq [OF quiet_run [OF assms(1) this]] assms(4) onlyRead_trans [OF assms(2)] show ?thesis by blast
qed

text \<open>The status update keeps a settled volume settled: it touches neither the spec nor the outcome of the seed.\<close>

lemma rest_status:
  assumes "condition_api r" "inv (world s)" "onlyRead s0 s" "settled r sv (view s)"
    and "view s KSharedVolume (ObjectKeyFromObject (OSharedVolume old)) = Some (OSharedVolume old)"
    and "svMeta sv = svMeta old" "svSpec sv = svSpec old"
  shows "total (switchE (updateStatus r sv ip ready bs)
      (\<lambda>e. if IsConflict e then returnE (doneResult\<lparr>resRequeue := True\<rparr>) else throwE e) (\<lambda>_. returnE doneResult))
    (\<lambda>res s'. res = doneResult \<and> inv (world s')
      \<and> (\<exists>h. trace s' = h @ trace s0 \<and> atRest r old (view s) (view s') h)) s"
proof -
  let ?u = "newStatus r (world s) sv ip ready bs"
  have meta: "svMeta ?u = svMeta old" "svSpec ?u = svSpec old"
    using assms(6,7) by (simp_all add: newStatus_def Let_def split: prod.splits)
  then have key: "ObjectKeyFromObject (OSharedVolume ?u) = ObjectKeyFromObject (OSharedVolume old)"
    by (simp add: ObjectKeyFromObject_def)
  obtain y w where y: "client r (world s) (StatusUpdate (OSharedVolume ?u)) = (Returned (OSharedVolume y), w)"
    "rewritten (OSharedVolume old) (OSharedVolume old) (OSharedVolume y)" "svStatus y = svStatus ?u"
    "objs w = put (view s) KSharedVolume (ObjectKeyFromObject (OSharedVolume old)) (Some (OSharedVolume y))"
    using status_reply [of "world s" ?u old] assms(2,5) meta key by auto
  have seed: "seedSettled r y = seedSettled r sv"
    using y(2,3) assms(7) condition_api.set_lookup [OF assms(1)]
    by (simp add: seedSettled_def svConditions_newStatus serverReadyCondition_def allBoundCondition_def condition_names
        updated_def rewritten_def)
  have "settled r y (objs w) = settled r sv (view s)"
    using y(2,4) seed assms(6,7) by (intro settled_cong) (auto simp: updated_def rewritten_def sameIdentity_def ObjectKeyFromObject_def)
  moreover obtain h where "trace s = h @ trace s0" "\<forall>(c, rep) \<in> set h. isRead c"
    using assms(3) by (auto simp: onlyRead_def)
  ultimately have "\<exists>h. trace (after s (StatusUpdate (OSharedVolume ?u)) (Returned (OSharedVolume y)) w) = h @ trace s0
      \<and> atRest r old (view s) (objs w) h"
    using y meta assms(4) unfolding atRest_def
    by (intro exI [of _ "(StatusUpdate (OSharedVolume ?u), Returned (OSharedVolume y)) # h"]) (auto simp: updated_def rewritten_def)
  then show ?thesis using y(1) client_inv [OF assms(2) y(1)]
    by (simp add: updateStatus_def writeObject_def wp_simps wp_invoke wp_returnedObject)
qed

lemma rest_recorded:
  assumes "condition_api r" "inv (world s0)" "settled r old (view s0)"
    and "view s0 KSharedVolume (ObjectKeyFromObject (OSharedVolume old)) = Some (OSharedVolume old)" "onlyRead s0 s"
    and "svMeta sv = svMeta old \<and> svSpec sv = svSpec old \<and> svConditions sv = svConditions old"
  shows "total (switchE (updateStatus r sv ip ready bs)
      (\<lambda>e. if IsConflict e then returnE (doneResult\<lparr>resRequeue := True\<rparr>) else throwE e) (\<lambda>_. returnE doneResult))
    (\<lambda>res s'. res = doneResult \<and> inv (world s')
      \<and> (\<exists>h. trace s' = h @ trace s0 \<and> atRest r old (view s0) (view s') h)) s"
proof -
  have "world s = world s0" using assms(5) by (simp add: onlyRead_def)
  moreover have "settled r sv (view s0)" using settled_recorded [of sv old] assms(3,6) by blast
  ultimately show ?thesis using rest_status [OF assms(1) _ assms(5), of sv old] assms(2,4,6) by simp
qed

lemma rest_reconcileLive:
  assumes "condition_api r" "inv (world s)" "settled r sv (view s)"
    and "view s KSharedVolume (ObjectKeyFromObject (OSharedVolume sv)) = Some (OSharedVolume sv)"
  shows "total (reconcileLive r sv) (\<lambda>res s'. res = doneResult \<and> inv (world s')
    \<and> (\<exists>h. trace s' = h @ trace s \<and> atRest r sv (view s) (view s') h)) s"
proof -
  let ?w = "world s"
  have parts: "finalizerName \<in> set (omFinalizers (svMeta sv))" "selectorParses r sv" "seedSettled r sv"
    "serverSettled r sv (view s)" "\<forall>t. wanted r sv (view s) t \<longrightarrow> pairSettled sv (view s) t"
    "noneStale sv (wanted r sv (view s)) (view s)" "policySettled r sv (view s)" "backupSettled r sv (view s)"
    using assms(3) by (simp_all add: settled_def)
  have "quiet ?w (ensureFinalizer r sv) (\<lambda>sv'. sv' = sv)"
    using parts(1) by (simp add: ensureFinalizer_def add_finalizer setFinalizers_def quiet_return)
  moreover have start: "onlyRead s s" by (simp add: onlyRead_def)
  ultimately show ?thesis unfolding reconcileLive_def
  proof (rule quiet_seq [OF _ _ refl], goal_cases)
    case (1 sv1 s1)
    note server = quiet_reconcileServer [OF assms(2) parts(4,3)]
    have "total (bindE (reconcileServer r sv) (\<lambda>(clusterIP, serverReady, sv).
        bindE (targetNamespaces r sv) (\<lambda>targets.
        bindE (bindingsStep r sv targets clusterIP) (\<lambda>bindings.
        bindE (reconcileNetworkPolicy r sv targets) (\<lambda>_.
        bindE (reconcileBackup r sv) (\<lambda>sv.
        switchE (updateStatus r sv clusterIP serverReady bindings)
          (\<lambda>e. if IsConflict e then returnE (doneResult\<lparr>resRequeue := True\<rparr>) else throwE e)
          (\<lambda>_. returnE doneResult))))))) (\<lambda>res s'. res = doneResult \<and> inv (world s')
          \<and> (\<exists>h. trace s' = h @ trace s \<and> atRest r sv (view s) (view s') h)) s1"
    proof (rule quiet_seq [OF server 1(2) refl], clarify, goal_cases)
      case (1 ip ready sv2 s2)
      then have read: "onlyRead s s2" by blast
      show ?case
      proof (rule quiet_seq [OF quiet_targetNamespaces [OF assms(2) parts(2)] read refl], goal_cases)
        case t: (1 ts s3)
        have bindings: "quiet ?w (bindingsStep r sv ts ip) (\<lambda>_. True)"
          using t(1) by (intro quiet_bindingsStep [OF assms(2) _ parts(5,6)]) simp
        have policy: "quiet ?w (reconcileNetworkPolicy r sv ts) (\<lambda>_. True)"
          using t(1) by (intro quiet_reconcileNetworkPolicy [OF assms(2) parts(7)]) simp_all
        show ?case
          by (rule quiet_seq [OF bindings t(2) refl], rule quiet_seq [OF policy _ refl], assumption,
              rule quiet_seq [OF quiet_reconcileBackup [OF assms(2) parts(8)] _ refl], assumption)
            (rule wp_mono [OF rest_recorded [OF assms]], auto)
      qed
    qed
    with 1(1) show ?case by simp
  qed
qed

lemma rest_Reconcile:
  assumes "condition_api r" "inv (world s)" "settled r sv (view s)" "view s KSharedVolume req = Some (OSharedVolume sv)"
  shows "total (Reconcile r req) (\<lambda>res s'. res = doneResult \<and> inv (world s')
    \<and> (\<exists>h. trace s' = h @ trace s \<and> atRest r sv (view s) (view s') h)) s"
  unfolding Reconcile_def wp_switchE
proof (rule wp_mono [OF quiet_run [OF quiet_get [OF assms(2,4), of asSharedVolume sv, OF asSharedVolume.simps(1)] refl]], goal_cases)
  case (1 y s1)
  have zero: "IsZero (omDeletionTimestamp (svMeta sv))" using assms(3) by (simp add: settled_def)
  have "ObjectKeyFromObject (OSharedVolume sv) = req" using stored_typed(2) [OF assms(2,4)] .
  moreover obtain h where h: "world s1 = world s" "trace s1 = h @ trace s" "\<forall>(c, rep) \<in> set h. isRead c" "y = sv"
    using 1 by (auto simp: onlyRead_def)
  ultimately have "total (reconcileLive r sv) (\<lambda>res s'. res = doneResult \<and> inv (world s')
      \<and> (\<exists>h. trace s' = h @ trace s1 \<and> atRest r sv (view s) (view s') h)) s1"
    using rest_reconcileLive [OF assms(1), of s1 sv] assms(2-4) by simp
  with zero h show ?case by (auto elim!: wp_mono intro: atRest_reads)
qed simp_all

end

subsection \<open>Any number of passes\<close>

text \<open>Passes one after another over an undisturbed cluster: their results and histories, and the world they leave.\<close>

fun passes :: "('w, 'b) SharedVolumeReconciler_scheme \<Rightarrow> NamespacedName \<Rightarrow> nat \<Rightarrow> 'w
   \<Rightarrow> ((error + Result) \<times> history) list \<times> 'w" where
  "passes r req 0 w = ([], w)"
| "passes r req (Suc n) w = (case Reconcile r req (freshRun w) of (res, s) \<Rightarrow>
     (case passes r req n (world s) of (hs, w') \<Rightarrow> ((res, trace s) # hs, w')))"

text \<open>A pass that reads and then updates the status of one volume, whose spec it leaves alone.\<close>

definition statusOnly :: "SharedVolume \<Rightarrow> history \<Rightarrow> bool" where
  "statusOnly sv h = (\<exists>u rep reads. h = (StatusUpdate (OSharedVolume u), rep) # reads \<and> svName u = svName sv
     \<and> svSpec u = svSpec sv \<and> (\<forall>(c, rep) \<in> set reads. isRead c))"

context api_server
begin

lemma rest_pass:
  assumes "condition_api r" "inv w" "settled r sv (objs w)" "objs w KSharedVolume req = Some (OSharedVolume sv)"
  obtains s y where "Reconcile r req (freshRun w) = (Inr doneResult, s)" "inv (world s)" "statusOnly sv (trace s)"
    "objs (world s) = put (objs w) KSharedVolume req (Some (OSharedVolume y))" "settled r y (objs (world s))"
    "svName y = svName sv" "svSpec y = svSpec sv"
proof -
  have "total (Reconcile r req) (\<lambda>res s. res = doneResult \<and> inv (world s) \<and> atRest r sv (objs w) (view s) (trace s)) (freshRun w)"
    using rest_Reconcile [OF assms(1), of "freshRun w" sv req] assms(2-4) by simp
  then obtain s where s: "Reconcile r req (freshRun w) = (Inr doneResult, s)" "inv (world s)"
    "atRest r sv (objs w) (view s) (trace s)"
    by (auto simp: wp_def split: prod.splits sum.splits)
  have key: "ObjectKeyFromObject (OSharedVolume sv) = req" by (rule stored_typed(2) [OF assms(2,4)])
  from s(3) obtain u y reads where y: "trace s = (StatusUpdate (OSharedVolume u), Returned (OSharedVolume y)) # reads"
    "\<forall>(c, rep) \<in> set reads. isRead c" "svMeta u = svMeta sv" "svSpec u = svSpec sv" "svSpec y = svSpec sv"
    "view s = put (objs w) KSharedVolume req (Some (OSharedVolume y))" "settled r y (view s)"
    unfolding atRest_def key by blast
  have "ObjectKeyFromObject (OSharedVolume y) = req"
    using stored_typed(2) [OF s(2), of KSharedVolume req] y(6) by simp
  then have "svName y = svName sv" using key by (auto simp: ObjectKeyFromObject_def)
  moreover have "statusOnly sv (trace s)" using y by (auto simp: statusOnly_def)
  ultimately show ?thesis using that s y by blast
qed

lemma statusOnly_cong: "svName a = svName b \<Longrightarrow> svSpec a = svSpec b \<Longrightarrow> statusOnly a = statusOnly b"
  by (simp add: fun_eq_iff statusOnly_def)

lemma rest_passes:
  assumes "condition_api r" "inv w" "settled r sv (objs w)" "objs w KSharedVolume req = Some (OSharedVolume sv)"
  shows "(\<forall>(res, h) \<in> set (fst (passes r req n w)). res = Inr doneResult \<and> statusOnly sv h)
    \<and> (\<forall>k. k \<noteq> KSharedVolume \<longrightarrow> objs (snd (passes r req n w)) k = objs w k)"
  using assms(2-4)
proof (induction n arbitrary: w sv)
  case (Suc n)
  obtain s y where s: "Reconcile r req (freshRun w) = (Inr doneResult, s)" "inv (world s)" "statusOnly sv (trace s)"
    "objs (world s) = put (objs w) KSharedVolume req (Some (OSharedVolume y))" "settled r y (objs (world s))"
    "svName y = svName sv" "svSpec y = svSpec sv"
    using rest_pass [OF assms(1) Suc.prems] .
  from Suc.IH [OF s(2,5)] s(4) statusOnly_cong [OF s(6,7)]
  have "(\<forall>(res, h) \<in> set (fst (passes r req n (world s))). res = Inr doneResult \<and> statusOnly sv h)
    \<and> (\<forall>k. k \<noteq> KSharedVolume \<longrightarrow> objs (snd (passes r req n (world s))) k = objs w k)" by simp
  with s(1,3) show ?case by (auto split: prod.splits)
qed simp

end

end
