(* ===== verification/Settling.thy ===== *)
theory Settling
  imports SteadyPass
begin

text \<open>
  How a volume comes to rest. One undisturbed pass over a live volume does not only put every object in place
  (\<open>LivePass\<close>), it repairs whatever has drifted, so that it leaves the volume \<open>settled\<close> in the sense of \<open>SteadyPass\<close>: the
  next pass, and every one after it, only reads and reports. The pass may meet any mixture of missing, present and
  drifted objects; what it cannot settle is named in \<open>undisputed\<close> and \<open>seedDecided\<close>.
\<close>

subsection \<open>Repaired objects\<close>

lemma put_present [simp]: "v k key = x \<Longrightarrow> put v k key x = v"
  using put_same [of v k key] by simp

text \<open>Drift of a Deployment is a matter of \<open>templateFields\<close>.\<close>

lemma drift_fields:
  "templateFields d = templateFields e \<Longrightarrow>
     deploymentDrifted (depTemplate (depSpec d)) t = deploymentDrifted (depTemplate (depSpec e)) t"
  "templateFields d = templateFields e \<Longrightarrow>
     deploymentDrifted t (depTemplate (depSpec d)) = deploymentDrifted t (depTemplate (depSpec e))"
  by (auto simp: templateFields_def deploymentDrifted_def split: list.splits)

lemma drift_refl: "podContainers (ptSpec t) \<noteq> [] \<Longrightarrow> deploymentDrifted t t = Inr False"
  by (auto simp: deploymentDrifted_def split: list.splits)

lemma built_fields:
  "cmData a = cmData b \<Longrightarrow>
     templateFields (BuildServerDeployment sv ns img a) = templateFields (BuildServerDeployment sv ns img b)"
  by (simp add: templateFields_def BuildServerDeployment_def Let_def confHash_def)

lemma built_undrifted:
  assumes "templateFields d = templateFields (BuildServerDeployment sv ns img cm)" "cmData cm = cmData cm'"
  shows "deploymentDrifted (depTemplate (depSpec d)) (depTemplate (depSpec (BuildServerDeployment sv ns img cm'))) = Inr False"
  using drift_fields(1) [OF trans [OF assms(1) built_fields [OF assms(2)]]] by (simp add: drift_refl)

text \<open>A PV whose claim reference carries no UID needs no repair, whatever its phase.\<close>

lemma repaired:
  "pvClaimRef (pvSpec pv) = pvClaimRef (pvSpec (BuildPV sv t ip)) \<Longrightarrow> \<not> needsRepair pv"
  "pvClaimRef (pvSpec pv) = pvClaimRef (pvSpec (repairPV old)) \<Longrightarrow> \<not> needsRepair pv"
  by (auto simp: needsRepair_def BuildPV_def repairPV_def split: option.splits)

subsection \<open>What a pass can settle\<close>

text \<open>No claim that another party made stands under the name of the volume's claim in a target.\<close>

definition ownClaims :: "SharedVolume \<Rightarrow> (string \<Rightarrow> bool) \<Rightarrow> view \<Rightarrow> bool" where
  "ownClaims sv target v = (\<forall>t pvc. target t \<longrightarrow> v KPVC (t, ConsumerPVCName sv) = Some (OPVC pvc) \<longrightarrow>
     mapGet (omLabels (pvcMeta pvc)) LabelSharedVolume = svName sv)"

text \<open>An object that has to go is not held back by finalizers of others.\<close>

definition unheld :: "obj option \<Rightarrow> bool" where
  "unheld x = (case x of None \<Rightarrow> True | Some y \<Rightarrow> omFinalizers (objMeta y) = [])"

definition undisputed :: "('w, 'b) SharedVolumeReconciler_scheme \<Rightarrow> SharedVolume \<Rightarrow> view \<Rightarrow> bool" where
  "undisputed r sv v = (namespaceReady v (OperatorNamespace r) \<and> selectorParses r sv
     \<and> ownVolumes sv v \<and> noneStale sv (wanted r sv v) v \<and> ownClaims sv (wanted r sv v) v
     \<and> (specNetworkPolicy (svSpec sv) = NetworkPolicyDisabled \<longrightarrow>
          unheld (v KNetworkPolicy (OperatorNamespace r, ServerName sv)))
     \<and> (svBackup sv = None \<longrightarrow> unheld (v KCronJob (OperatorNamespace r, BackupCronJobName sv))))"

text \<open>Seeding is decided: out of play, skipped because a server exists, or done by the seed job.\<close>

definition seedDecided :: "('w, 'b) SharedVolumeReconciler_scheme \<Rightarrow> SharedVolume \<Rightarrow> view \<Rightarrow> bool" where
  "seedDecided r sv v = (seedSettled r sv \<or> v KDeployment (OperatorNamespace r, ServerName sv) \<noteq> None
     \<or> (\<exists>job. v KJob (OperatorNamespace r, SeedJobName sv) = Some (OJob job)
          \<and> jobHasCondition (jobConditions job) JobComplete))"

subsection \<open>Pairs\<close>

text \<open>
  What binding the targets does to the view: existing claims stay as they are, new claims are the volume's own, new
  PVs are reserved for a target, settled pairs stay settled and every target has one.
\<close>

definition claimsKept :: "view \<Rightarrow> view \<Rightarrow> bool" where
  "claimsKept v v' = (\<forall>key x. v KPVC key = Some x \<longrightarrow> v' KPVC key = Some x)"

definition paired :: "SharedVolume \<Rightarrow> string list \<Rightarrow> view \<Rightarrow> view \<Rightarrow> bool" where
  "paired sv targets v v' = (only {KPV, KPVC} v v' \<and> claimsKept v v'
     \<and> (\<forall>key pvc. v' KPVC key = Some (OPVC pvc) \<longrightarrow> v KPVC key = Some (OPVC pvc)
          \<or> mapGet (omLabels (pvcMeta pvc)) LabelSharedVolume = svName sv)
     \<and> (\<forall>key pv. v' KPV key = Some (OPV pv) \<longrightarrow> v KPV key = Some (OPV pv) \<or> (\<exists>t \<in> set targets. reservedFor sv t pv))
     \<and> (\<forall>t. pairSettled sv v t \<or> t \<in> set targets \<longrightarrow> pairSettled sv v' t))"

lemma paired_Nil [simp]: "paired sv [] v v"
  by (simp add: paired_def claimsKept_def)

lemma paired_one:
  assumes "reservedFor sv t pv" "\<not> needsRepair pv" "v KPVC (t, ConsumerPVCName sv) \<in> {None, Some (OPVC pvc)}"
    and "mapGet (omLabels (pvcMeta pvc)) LabelSharedVolume = svName sv"
    and "v' = put (put v KPV ('''', PVName sv t) (Some (OPV pv))) KPVC (t, ConsumerPVCName sv) (Some (OPVC pvc))"
  shows "paired sv [t] v v'"
proof -
  have "only {KPV, KPVC} v v'" using assms(5) by (auto simp: only_def)
  moreover have "claimsKept v v'" using assms(3,5) by (auto simp: claimsKept_def)
  ultimately show ?thesis using assms unfolding paired_def by (auto simp: pairSettled_def)
qed

lemma pairedD:
  assumes "paired sv ts v v'"
  shows "only {KPV, KPVC} v v'" "v KPVC key = Some x \<Longrightarrow> v' KPVC key = Some x"
    "v' KPVC key = Some (OPVC pvc) \<Longrightarrow> v KPVC key = Some (OPVC pvc)
       \<or> mapGet (omLabels (pvcMeta pvc)) LabelSharedVolume = svName sv"
    "v' KPV key = Some (OPV pv) \<Longrightarrow> v KPV key = Some (OPV pv) \<or> (\<exists>t \<in> set ts. reservedFor sv t pv)"
    "pairSettled sv v t \<Longrightarrow> pairSettled sv v' t" "t \<in> set ts \<Longrightarrow> pairSettled sv v' t"
  using assms unfolding paired_def claimsKept_def by (simp_all del: split_paired_All)

lemma paired_Cons:
  assumes "paired sv [t] v v'" "paired sv ts v' v''"
  shows "paired sv (t # ts) v v''"
  unfolding paired_def
proof (intro conjI allI impI)
  note first = pairedD [OF assms(1)] and later = pairedD [OF assms(2)]
  show "only {KPV, KPVC} v v''" using first(1) later(1) by (rule only_trans) auto
  show "claimsKept v v''" unfolding claimsKept_def using first(2) later(2) by blast
  show "v KPVC key = Some (OPVC pvc) \<or> mapGet (omLabels (pvcMeta pvc)) LabelSharedVolume = svName sv"
    if "v'' KPVC key = Some (OPVC pvc)" for key pvc
    using later(3) [OF that] first(3) [of key pvc] by blast
  show "v KPV key = Some (OPV pv) \<or> (\<exists>t \<in> set (t # ts). reservedFor sv t pv)" if "v'' KPV key = Some (OPV pv)" for key pv
    using later(4) [OF that] first(4) [of key pv] by auto
  show "pairSettled sv v'' u" if "pairSettled sv v u \<or> u \<in> set (t # ts)" for u
    using that first(5,6) [of u] later(5,6) [of u] by auto
qed

lemma paired_ownClaims: "paired sv ts v v' \<Longrightarrow> ownClaims sv target v \<Longrightarrow> ownClaims sv target v'"
  unfolding ownClaims_def using pairedD(3) by blast

lemma paired_noneStale:
  assumes "paired sv ts v v'" "noneStale sv target v" "\<And>t. t \<in> set ts \<Longrightarrow> target t"
  shows "noneStale sv target v'"
  unfolding noneStale_def
proof (intro allI impI)
  fix key pv ref
  assume pv: "v' KPV key = Some (OPV pv)" "omLabels (pvMeta pv) LabelSharedVolume = Some (svName sv)"
    "pvClaimRef (pvSpec pv) = Some ref"
  have kept: "outgoing sv v ref \<Longrightarrow> outgoing sv v' ref"
    unfolding outgoing_def using pairedD(2) [OF assms(1)] by blast
  have "v KPV key = Some (OPV pv) \<or> (\<exists>t \<in> set ts. reservedFor sv t pv)"
    by (rule pairedD(4) [OF assms(1) pv(1)])
  then show "target (refNamespace ref) \<or> outgoing sv v' ref"
  proof (elim disjE bexE)
    assume "v KPV key = Some (OPV pv)"
    with assms(2) pv(2,3) have "target (refNamespace ref) \<or> outgoing sv v ref" unfolding noneStale_def by blast
    with kept show ?thesis by blast
  qed (use pv(3) assms(3) in \<open>auto simp: reservedFor_def\<close>)
qed

text \<open>The policy is settled when it agrees with the one built from the sorted targets and addresses: these are unique.\<close>

definition askedIPs :: "view \<Rightarrow> string list \<Rightarrow> bool" where
  "askedIPs v ips = (sorted ips \<and> distinct ips
     \<and> set ips = (\<Union>n \<in> {n. v KNode ('''', omName (nodeMeta n)) = Some (ONode n)}. nodeSources n))"

definition askedTargets :: "('w, 'b) SharedVolumeReconciler_scheme \<Rightarrow> SharedVolume \<Rightarrow> view \<Rightarrow> string list \<Rightarrow> bool" where
  "askedTargets r sv v targets = (sorted targets \<and> distinct targets \<and> (\<forall>t. t \<in> set targets \<longleftrightarrow> wanted r sv v t))"

lemma policySettledI:
  assumes "specNetworkPolicy (svSpec sv) \<noteq> NetworkPolicyDisabled" "askedIPs v ips" "askedTargets r sv v targets"
    and "v KNetworkPolicy (OperatorNamespace r, ServerName sv) = Some (ONetworkPolicy p)"
    and "semanticDeepEqual r (npSpec p) (npSpec (BuildNetworkPolicy sv (OperatorNamespace r) targets ips (AllowCIDRs r)))"
  shows "policySettled r sv v"
  unfolding policySettled_def if_not_P [OF assms(1)]
proof (intro exI [of _ p] conjI allI impI)
  fix targets' ips' :: "string list"
  assume same: "sorted targets'" "distinct targets'" "\<forall>t. t \<in> set targets' \<longleftrightarrow> wanted r sv v t" "sorted ips'" "distinct ips'"
    "set ips' = (\<Union>n \<in> {n. v KNode ('''', omName (nodeMeta n)) = Some (ONode n)}. nodeSources n)"
  have "targets' = targets" using same(1-3) assms(3) by (intro sorted_distinct_set_unique) (auto simp: askedTargets_def)
  moreover have "ips' = ips" using same(4-6) assms(2) by (intro sorted_distinct_set_unique) (auto simp: askedIPs_def)
  ultimately show "semanticDeepEqual r (npSpec p)
      (npSpec (BuildNetworkPolicy sv (OperatorNamespace r) targets' ips' (AllowCIDRs r)))" using assms(5) by simp
qed (rule assms(4))

lemma asked_only:
  "only K v v' \<Longrightarrow> KNode \<notin> K \<Longrightarrow> askedIPs v' = askedIPs v"
  "only K v v' \<Longrightarrow> KNamespace \<notin> K \<Longrightarrow> askedTargets r sv v' = askedTargets r sv v"
  by (simp_all add: fun_eq_iff askedIPs_def askedTargets_def only_at wanted_only)

text \<open>The server of \<open>api_server\<close>, with conditions that can be read back and a comparison that holds of equal specs.\<close>

locale settling_server = api_server r inv objs + condition_api r
  for r :: "('w, 'b) SharedVolumeReconciler_scheme" and inv :: "'w \<Rightarrow> bool" and objs :: "'w \<Rightarrow> view" +
  assumes semantic_refl: "semanticDeepEqual r p p"
begin


text \<open>A step that leaves an object with a property under a key and everything else as it was.\<close>

definition puts :: "kind \<Rightarrow> NamespacedName \<Rightarrow> (obj \<Rightarrow> bool) \<Rightarrow> 'w run \<Rightarrow> 'w run \<Rightarrow> bool" where
  "puts k key P s s' = (inv (world s') \<and> (\<exists>x. P x \<and> view s' = put (view s) k key (Some x)))"

lemma puts_written: "view s' = put (view s) k key (Some x) \<Longrightarrow> adds K (world s) (world s') \<Longrightarrow> P x \<Longrightarrow> puts k key P s s'"
  by (auto simp: puts_def adds_inv)

lemma puts_found: "view s k key = Some x \<Longrightarrow> world s' = world s \<Longrightarrow> inv (world s) \<Longrightarrow> P x \<Longrightarrow> puts k key P s s'"
  by (auto simp: puts_def)

lemma puts_only: "puts k key P s s' \<Longrightarrow> k \<in> K \<Longrightarrow> only K (view s) (view s')"
  by (auto simp: puts_def)

lemma puts_inv: "puts k key P s s' \<Longrightarrow> inv (world s')"
  by (simp add: puts_def)

lemma putsE:
  assumes "puts k key P s s'"
  obtains x where "P x" "view s' = put (view s) k key (Some x)" "inv (world s')"
  using assms by (auto simp: puts_def)

lemma settle_ensurePV:
  assumes "inv (world s)" "ownVolumes sv (view s)"
  shows "total (ensurePV r sv ns ip) (\<lambda>_ s'. puts KPV ('''', PVName sv ns)
    (\<lambda>x. \<exists>pv. x = OPV pv \<and> reservedFor sv ns pv \<and> \<not> needsRepair pv) s s') s"
proof -
  have built: "reservedFor sv ns z" if "pvClaimRef (pvSpec z) = pvClaimRef (pvSpec (BuildPV sv ns ip))" for z
    using that reservedFor_build [of sv ns ip] by (simp add: reservedFor_def)
  have own: "reservedFor sv ns x" if "view s KPV ('''', PVName sv ns) = Some (OPV x)" for x
    using assms(2) that by (simp add: ownVolumes_def)
  have kept: "reservedFor sv ns z" if "pvClaimRef (pvSpec z) = pvClaimRef (pvSpec (repairPV x))"
    "view s KPV ('''', PVName sv ns) = Some (OPV x)" for x z
    using that(1) own [OF that(2)] reservedFor_repair [of sv ns x] by (simp add: reservedFor_def)
  have meta: "pvMeta (repairPV x) = pvMeta x" for x by (simp add: repairPV_def)
  show ?thesis
    using assms unfolding ensurePV_def Let_def
    by (auto simp: wp_simps ObjectKeyFromObject_def namespaceReady_def created_def updated_def rewritten_def meta
        intro!: total_getObject total_ensure total_rewrite)
      (auto dest: repaired intro: puts_written puts_found built kept own)
qed

lemma settle_claim:
  assumes "inv (world s)" "namespaceReady (view s) ns"
    and "\<And>pvc. view s KPVC (ns, ConsumerPVCName sv) = Some (OPVC pvc) \<Longrightarrow>
      mapGet (omLabels (pvcMeta pvc)) LabelSharedVolume = svName sv"
  shows "total (let pvc = BuildConsumerPVC sv ns in
     switchGet (getObject r KPVC asPVC (ObjectKeyFromObject (OPVC pvc)))
       (bindE (createOwned r sv (OPVC pvc) asPVC) (\<lambda>_. returnE BindingPending))
       (\<lambda>existingPVC.
         if mapGet (omLabels (pvcMeta existingPVC)) LabelSharedVolume \<noteq> svName sv
         then bindE (eventf r (conflictEvent sv ns (omName (pvcMeta pvc)))) (\<lambda>_. returnE BindingConflict)
         else if \<not> IsZero (omDeletionTimestamp (pvcMeta existingPVC)) then returnE BindingTerminating
         else if pvcPhase existingPVC = ClaimBound then returnE BindingBound
         else returnE BindingPending))
    (\<lambda>_ s'. puts KPVC (ns, ConsumerPVCName sv) (\<lambda>x. \<exists>pvc. x = OPVC pvc
       \<and> view s KPVC (ns, ConsumerPVCName sv) \<in> {None, Some (OPVC pvc)}
       \<and> mapGet (omLabels (pvcMeta pvc)) LabelSharedVolume = svName sv) s s') s"
proof -
  have label: "mapGet (managedLabels sv) LabelSharedVolume = svName sv"
    by (simp add: managedLabels_def mapGet_def LabelSharedVolume_def LabelManagedBy_def)
  show ?thesis using assms
    by (auto simp: wp_simps Let_def ObjectKeyFromObject_def created_def label
        intro!: total_getObject total_ensure)
      (auto simp: label intro: puts_written puts_found)
qed

lemma settle_reconcileBinding:
  assumes "inv (world s)" "namespaceReady (view s) ns" "ownVolumes sv (view s)" "ownClaims sv (\<lambda>t. t = ns) (view s)"
  shows "total (reconcileBinding r sv ns ip) (\<lambda>_ s'. inv (world s') \<and> paired sv [ns] (view s) (view s')
    \<and> ownVolumes sv (view s')) s"
  unfolding reconcileBinding_def
proof (rule wp_seq [OF settle_ensurePV [OF assms(1,3)]], goal_cases)
  case (1 u t)
  then obtain pv where t: "reservedFor sv ns pv" "\<not> needsRepair pv" "inv (world t)"
    "view t = put (view s) KPV ('''', PVName sv ns) (Some (OPV pv))"
    by (auto elim!: putsE)
  have ready: "namespaceReady (view t) ns" using assms(2) t(4) by (simp add: namespaceReady_def)
  have own: "mapGet (omLabels (pvcMeta pvc)) LabelSharedVolume = svName sv"
    if "view t KPVC (ns, ConsumerPVCName sv) = Some (OPVC pvc)" for pvc
    using assms(4) that t(4) by (simp add: ownClaims_def)
  show ?case
  proof (rule wp_mono [OF settle_claim [OF t(3) ready own]], goal_cases)
    case (2 x s')
    then obtain pvc where s': "inv (world s')" "view t KPVC (ns, ConsumerPVCName sv) \<in> {None, Some (OPVC pvc)}"
      "mapGet (omLabels (pvcMeta pvc)) LabelSharedVolume = svName sv"
      "view s' = put (view t) KPVC (ns, ConsumerPVCName sv) (Some (OPVC pvc))"
      by (auto elim!: putsE)
    have "paired sv [ns] (view s) (view s')"
      using t(4) s' by (intro paired_one [OF t(1,2) _ s'(3)]) simp_all
    moreover have "ownVolumes sv (view s')"
      using ownVolumes_put [OF assms(3) t(1)] t(4) s'(4) by (simp add: ownVolumes_def)
    ultimately show ?case using s'(1) by simp
  qed simp_all
qed

lemma settle_reconcileBindings:
  assumes "inv (world s)" "\<forall>t \<in> set targets. namespaceReady (view s) t" "ownVolumes sv (view s)"
    and "ownClaims sv (\<lambda>t. t \<in> set targets) (view s)"
  shows "total (reconcileBindings r sv targets ip) (\<lambda>bs s'. inv (world s') \<and> paired sv targets (view s) (view s')) s"
  using assms
proof (induction targets arbitrary: s)
  case Nil
  then show ?case by (simp add: wp_simps)
next
  case (Cons ns targets)
  have claim: "ownClaims sv (\<lambda>t. t = ns) (view s)" using Cons.prems(4) by (simp add: ownClaims_def)
  show ?case unfolding reconcileBindings.simps
  proof (rule wp_seq [OF settle_reconcileBinding [OF Cons.prems(1) _ Cons.prems(3) claim]], goal_cases)
    case (2 ph t)
    then have t: "inv (world t)" "paired sv [ns] (view s) (view t)" "ownVolumes sv (view t)" by simp_all
    have "\<forall>u \<in> set targets. namespaceReady (view t) u"
      using Cons.prems(2) namespaceReady_only [OF pairedD(1) [OF t(2)]] by simp
    moreover have "ownClaims sv (\<lambda>t. t \<in> set targets) (view t)"
      using paired_ownClaims [OF t(2) Cons.prems(4)] by (simp add: ownClaims_def)
    ultimately show ?case
      by (intro wp_seq [OF Cons.IH [OF t(1) _ t(3)]]) (auto simp: wp_return intro: paired_Cons [OF t(2)])
  qed (use Cons.prems in auto)
qed

lemma settle_bindingsStep:
  assumes "inv (world s)" "\<forall>t \<in> set targets. namespaceReady (view s) t" "ownVolumes sv (view s)" "ip \<noteq> ''''"
    and "ownClaims sv (\<lambda>t. t \<in> set targets) (view s)" "noneStale sv (\<lambda>t. t \<in> set targets) (view s)"
  shows "total (bindingsStep r sv targets ip) (\<lambda>bs s'. inv (world s') \<and> paired sv targets (view s) (view s')
    \<and> noneStale sv (\<lambda>t. t \<in> set targets) (view s')) s"
  unfolding bindingsStep_def if_P [OF assms(4)]
proof (rule wp_seq [OF settle_reconcileBindings [OF assms(1-3,5)]], goal_cases)
  case (1 bs t)
  then have t: "inv (world t)" "paired sv targets (view s) (view t)" by simp_all
  have none: "noneStale sv (\<lambda>t. t \<in> set targets) (view t)" using paired_noneStale [OF t(2) assms(6)] by simp
  show ?case
    by (rule wp_seq [OF quiet_run [OF quiet_cleanupStaleBindings [OF t(1) none] refl]])
      (use t none in \<open>auto simp: wp_return onlyRead_def\<close>)
qed

subsection \<open>The server stack\<close>

lemma settle_backing:
  assumes "inv (world s)" "namespaceReady (view s) (OperatorNamespace r)"
  shows "total (createIfMissing r sv (OPVC (BuildBackingPVC sv (OperatorNamespace r))) asPVC)
    (\<lambda>_ s'. puts KPVC (backingKey r sv) (\<lambda>x. view s KPVC (backingKey r sv) \<in> {None, Some x}) s s') s"
  using assms unfolding createIfMissing_def
  by (auto simp: wp_simps ObjectKeyFromObject_def backingKey_def intro!: total_getObject total_ensure)
    (auto intro: puts_written puts_found)

lemma settle_ensureConfigMap:
  assumes "inv (world s)" "namespaceReady (view s) (OperatorNamespace r)"
  shows "total (ensureConfigMap r sv (BuildConfigMap sv (OperatorNamespace r)))
    (\<lambda>cm s'. cmData cm = cmData (BuildConfigMap sv (OperatorNamespace r))
      \<and> puts KConfigMap (OperatorNamespace r, ConfigMapName sv)
          (\<lambda>x. \<exists>c. x = OConfigMap c \<and> mapGet (cmData c) ''ganesha.conf'' = Config) s s') s"
  using assms unfolding ensureConfigMap_def
  by (auto simp: wp_simps ObjectKeyFromObject_def created_def updated_def rewritten_def conf_data
      intro!: total_getObject total_ensure total_rewrite)
    (auto simp: conf_data intro: puts_written puts_found)

lemma settle_ensureDeployment:
  assumes "inv (world s)" "namespaceReady (view s) (OperatorNamespace r)"
    and "cmData cm = cmData (BuildConfigMap sv (OperatorNamespace r))"
  shows "total (ensureDeployment r sv cm) (\<lambda>_ s'. puts KDeployment (OperatorNamespace r, ServerName sv)
    (\<lambda>x. \<exists>d. x = ODeployment d \<and> deploymentDrifted (depTemplate (depSpec d)) (depTemplate (depSpec (BuildServerDeployment sv
       (OperatorNamespace r) (GaneshaImage r) (BuildConfigMap sv (OperatorNamespace r))))) = Inr False) s s') s"
proof -
  let ?build = "BuildServerDeployment sv (OperatorNamespace r) (GaneshaImage r)"
  let ?cm = "BuildConfigMap sv (OperatorNamespace r)"
  note same = drift_fields(2) [OF built_fields [OF assms(3)], of _ sv "OperatorNamespace r" "GaneshaImage r"]
  have new: "deploymentDrifted (depTemplate (depSpec d)) (depTemplate (depSpec (?build ?cm))) = Inr False"
    if "templateFields d = templateFields (?build cm)" for d
    using built_undrifted [OF that assms(3)] .
  have over: "templateFields (e\<lparr>depSpec := (depSpec e)\<lparr>depTemplate := depTemplate (depSpec d)\<rparr>\<rparr>) = templateFields d" for e d
    by (simp add: templateFields_def)
  show ?thesis
    using assms(1,2) drift_panic unfolding ensureDeployment_def Let_def
    by (auto simp: wp_simps ObjectKeyFromObject_def created_def updated_def rewritten_def over split: sum.splits
        intro!: total_getObject total_ensure total_rewrite)
      (auto simp: same intro: puts_written puts_found new)
qed

text \<open>What the stack leaves of the claims: all that were there, and nothing new but the backing claim.\<close>

definition stacked :: "SharedVolume \<Rightarrow> view \<Rightarrow> view \<Rightarrow> bool" where
  "stacked sv v v' = (only stackKinds v v' \<and> serverSettled r sv v' \<and> claimsKept v v'
     \<and> (\<forall>key. key \<noteq> backingKey r sv \<longrightarrow> v' KPVC key = v KPVC key))"

lemma stacked_steps:
  assumes "v1 = put v KPVC (backingKey r sv) (Some x)" "v KPVC (backingKey r sv) \<in> {None, Some x}"
    and "v2 = put v1 KConfigMap (OperatorNamespace r, ConfigMapName sv) (Some (OConfigMap c))"
    and "mapGet (cmData c) ''ganesha.conf'' = Config"
    and "v3 = put v2 KDeployment (OperatorNamespace r, ServerName sv) (Some (ODeployment d))"
    and "deploymentDrifted (depTemplate (depSpec d)) (depTemplate (depSpec (BuildServerDeployment sv
      (OperatorNamespace r) (GaneshaImage r) (BuildConfigMap sv (OperatorNamespace r))))) = Inr False"
    and "only {KService} v3 v4" "v4 KService (OperatorNamespace r, ServerName sv) \<noteq> None"
  shows "stacked sv v v4"
proof -
  have kinds: "v4 KPVC = v1 KPVC" "v4 KConfigMap = v2 KConfigMap" "v4 KDeployment = v3 KDeployment"
    using assms(3,5,7) by (simp_all add: only_def fun_eq_iff)
  have "serverSettled r sv v4"
    unfolding serverSettled_def kinds using assms(1,3-6,8) by simp
  moreover have "only stackKinds v v4"
    using assms(1,3,5,7) by (auto simp: only_def stackKinds_def)
  moreover have "claimsKept v v4" unfolding claimsKept_def kinds using assms(1,2) by auto
  ultimately show ?thesis unfolding stacked_def kinds using assms(1) by simp
qed

lemma stacked_cong:
  assumes "svName a = svName b" "svSpec a = svSpec b"
  shows "stacked a = stacked b"
  using assms by (simp add: fun_eq_iff stacked_def serverSettled_def backingKey_def object_names same_builds [OF assms])

text \<open>A decided seed opens the gate, and the volume records it.\<close>

lemma settle_reconcileSeed:
  assumes "inv (world s)" "seedDecided r sv (view s)" "backup_admitted sv"
  shows "total (reconcileSeed r sv) (\<lambda>(seeded, sv') s'. seeded \<and> world s' = world s \<and> svMeta sv' = svMeta sv
    \<and> svSpec sv' = svSpec sv \<and> seedSettled r sv') s"
proof (cases "seedSettled r sv")
  case True
  then show ?thesis by (simp add: wp_def reconcileSeed_settled)
next
  case False
  then have play: "svBackup sv \<noteq> None" "\<not> (case svBackup sv of None \<Rightarrow> True | Some b \<Rightarrow> bsRestorePolicy b = RestoreNever)"
    "\<not> isStatusConditionTrue r (svConditions sv) ConditionRestored"
    by (auto simp: seedSettled_def split: option.splits)
  then obtain job where job: "BuildSeedJob sv (OperatorNamespace r) (BackupImage r) = Inr job"
    using backup_built_total(2) [OF assms(3), of "OperatorNamespace r" "BackupImage r"] by auto
  note recorded = seedSettled_restored [OF condition_api_axioms]
  show ?thesis
    using assms(1,2) False unfolding reconcileSeed_def if_not_P [OF play(2)] if_not_P [OF play(3)] job liftPanic_def sum.case
    by (auto simp: wp_simps seedDecided_def ObjectKeyFromObject_def backup_meta(2) [OF job] recorded intro!: total_getObject)
qed

lemma settle_reconcileServer:
  assumes "inv (world s)" "namespaceReady (view s) (OperatorNamespace r)" "seedDecided r sv (view s)" "backup_admitted sv"
  shows "total (reconcileServer r sv) (\<lambda>(ip, ready, sv') s'. ip \<noteq> '''' \<and> svMeta sv' = svMeta sv \<and> svSpec sv' = svSpec sv
    \<and> seedSettled r sv' \<and> inv (world s') \<and> stacked sv (view s) (view s')) s"
  unfolding reconcileServer_def
proof (rule wp_seq [OF settle_backing [OF assms(1,2)]], elim putsE, goal_cases)
  case s1: (1 u s1 x)
  have "namespaceReady (view s1) (OperatorNamespace r)" using assms(2) s1(2) by (simp add: namespaceReady_def)
  from settle_ensureConfigMap [OF s1(3) this] show ?case
  proof (rule wp_seq, elim conjE putsE exE, hypsubst_thin, goal_cases)
    case s2: (1 cm s2 x2 c)
    have ready: "inv (world s2)" "namespaceReady (view s2) (OperatorNamespace r)" "seedDecided r sv (view s2)"
      using assms(2,3) s1(2) s2 by (simp_all add: namespaceReady_def seedDecided_def)
    show ?case
    proof (rule wp_seq [OF settle_reconcileSeed [OF ready(1,3) assms(4), unfolded split_beta]], goal_cases)
      case (1 y s3)
      then obtain sv' where y: "y = (True, sv')" "svMeta sv' = svMeta sv" "svSpec sv' = svSpec sv" "seedSettled r sv'"
        "world s3 = world s2" by (cases y) auto
      note same = same_builds [of sv' sv, OF _ y(3)] stacked_cong [of sv' sv, OF _ y(3)]
      have cm: "cmData cm = cmData (BuildConfigMap sv' (OperatorNamespace r))" using s2 same y(2) by simp
      have names: "backingKey r sv' = backingKey r sv" "ConfigMapName sv' = ConfigMapName sv"
        using y(2) by (simp_all add: backingKey_def object_names)
      show ?case unfolding y(1) prod.case if_True
      proof (rule wp_seq [OF settle_ensureDeployment [OF _ _ cm]], goal_cases)
        case (3 b s4)
        then obtain d where d: "inv (world s4)" "view s4 = put (view s2) KDeployment (OperatorNamespace r, ServerName sv') (Some (ODeployment d))"
          "deploymentDrifted (depTemplate (depSpec d)) (depTemplate (depSpec (BuildServerDeployment sv' (OperatorNamespace r)
             (GaneshaImage r) (BuildConfigMap sv' (OperatorNamespace r))))) = Inr False"
          using y(5) by (auto elim!: putsE)
        have "stacked sv (view s) (view t)" if "adds {KService} (world s4) (world t)"
          "view t KService (OperatorNamespace r, ServerName sv') \<noteq> None" for t :: "'w run"
          using stacked_steps [of _ "view s" sv' x _ c _ d] s1 s2 d that names same(5) y(2) by (simp add: adds_def)
        moreover have "namespaceReady (view s4) (OperatorNamespace r)" using ready(2) d(2) by (simp add: namespaceReady_def)
        ultimately show ?case
          by (intro wp_seq [OF total_ensureService [OF d(1)]]) (use y in \<open>auto simp: wp_return adds_def\<close>)
      qed (use ready y(5) in simp_all)
    qed
  qed
qed

subsection \<open>Policy and backup\<close>

lemma settle_policy:
  assumes "inv (world s)" "namespaceReady (view s) (OperatorNamespace r)" "askedTargets r sv (view s) targets"
    and "specNetworkPolicy (svSpec sv) = NetworkPolicyDisabled \<longrightarrow>
      unheld (view s KNetworkPolicy (OperatorNamespace r, ServerName sv))"
  shows "total (reconcileNetworkPolicy r sv targets) (\<lambda>_ s'. inv (world s') \<and> only {KNetworkPolicy} (view s) (view s')
    \<and> policySettled r sv (view s')) s"
proof (cases "specNetworkPolicy (svSpec sv) = NetworkPolicyDisabled")
  case True
  with assms show ?thesis unfolding reconcileNetworkPolicy_def Let_def
    by (auto simp: wp_simps policySettled_def unheld_def ObjectKeyFromObject_def
        intro!: total_getObject total_deleteObject)
next
  case False
  let ?key = "(OperatorNamespace r, ServerName sv)"
  let ?build = "\<lambda>ips. BuildNetworkPolicy sv (OperatorNamespace r) targets ips (AllowCIDRs r)"
  have ips: "wp (nodeIPs r) Q E t" if "world t = world s"
    "\<And>ips t'. askedIPs (view s) ips \<Longrightarrow> world t' = world s \<Longrightarrow> Q ips t'" for t Q E
    using quiet_run [OF quiet_nodeIPs [OF assms(1)] that(1)] that
    by (auto simp: askedIPs_def onlyRead_def elim!: wp_mono)
  have fit: "policySettled r sv v" if "v = put (view s) KNetworkPolicy ?key (Some (ONetworkPolicy p))"
    "askedIPs (view s) ips" "semanticDeepEqual r (npSpec p) (npSpec (?build ips))" for v p ips
  proof (rule policySettledI [OF False _ _ _ that(3)])
    have "only {KNetworkPolicy} (view s) v" using that(1) by simp
    from asked_only(1) [OF this] asked_only(2) [OF this, of r sv] show "askedIPs v ips" "askedTargets r sv v targets" using that(2) assms(3) by simp_all
  qed (use that(1) in simp)
  have exact: "policySettled r sv (put (view s) KNetworkPolicy ?key (Some (ONetworkPolicy p)))"
    if "npSpec p = npSpec (?build ips)" "askedIPs (view s) ips" for p ips
    using that(1) semantic_refl by (intro fit [OF refl that(2)]) simp
  from False show ?thesis
    using assms(1,2) unfolding reconcileNetworkPolicy_def Let_def
    by (auto simp: wp_simps ObjectKeyFromObject_def created_def updated_def rewritten_def
        intro!: total_getObject ips total_ensure total_rewrite)
      (auto simp: adds_def intro: exact fit [OF put_present [symmetric]])
qed

lemma settle_backup:
  assumes "inv (world s)" "namespaceReady (view s) (OperatorNamespace r)" "backup_admitted sv"
    and "svBackup sv = None \<longrightarrow> unheld (view s KCronJob (OperatorNamespace r, BackupCronJobName sv))"
  shows "total (reconcileBackup r sv) (\<lambda>sv' s'. inv (world s') \<and> only {KCronJob} (view s) (view s')
    \<and> svMeta sv' = svMeta sv \<and> svSpec sv' = svSpec sv \<and> svConditions sv' = svConditions sv
    \<and> backupSettled r sv (view s')) s"
proof (cases "svBackup sv = None")
  case True
  with assms show ?thesis unfolding reconcileBackup_def Let_def
    by (auto simp: wp_simps backupSettled_def unheld_def ObjectKeyFromObject_def setLastBackupTime_def
        intro!: total_getObject total_deleteObject)
next
  case False
  let ?key = "(OperatorNamespace r, BackupCronJobName sv)"
  obtain d where d: "BuildBackupCronJob sv (OperatorNamespace r) (BackupImage r) = Inr d"
    using backup_built_total(1) [OF assms(3), of "OperatorNamespace r" "BackupImage r"] False by auto
  note drift = backupCronJobDrifted_owned [OF d]
  have fit: "backupSettled r sv v" if "v = put (view s) KCronJob ?key (Some (OCronJob c))" "ownedFields c = ownedFields d" for v c
    unfolding backupSettled_def if_not_P [OF False] using that d drift by simp
  have over: "ownedFields (c\<lparr>cjSpec := cjSpec d\<rparr>) = ownedFields d" for c by (simp add: ownedFields_def)
  from False show ?thesis
    using assms(1,2) unfolding reconcileBackup_def Let_def d liftPanic_def sum.case
    by (auto simp: wp_simps drift ObjectKeyFromObject_def backup_meta(1) [OF d] created_def updated_def rewritten_def over
        setLastBackupTime_def intro!: total_getObject total_ensure total_rewrite)
      (auto simp: adds_def intro: fit [OF refl] fit [OF put_present [symmetric]])
qed

subsection \<open>A whole pass\<close>

lemma undisputed_finalized:
  assumes "undisputed r a v" "ObjectKeyFromObject (OSharedVolume b) = ObjectKeyFromObject (OSharedVolume a)"
    and "svSpec b = svSpec a" "only {KSharedVolume} v v'"
  shows "undisputed r b v'"
proof -
  have name: "svName b = svName a" using assms(2) by (simp add: ObjectKeyFromObject_def)
  have names: "ServerName b = ServerName a" "BackupCronJobName b = BackupCronJobName a" "PVName b = PVName a"
    "ConsumerPVCName b = ConsumerPVCName a"
    using name by (simp_all add: object_names fun_eq_iff)
  have kinds: "v' k = v k" if "k \<noteq> KSharedVolume" for k using assms(4) that by (simp add: only_def)
  have wanted: "wanted r b v' = wanted r a v" using kinds [of KNamespace] assms(3) by (simp add: fun_eq_iff wanted_def selectsNamespace_def)
  show ?thesis
    using assms(1,3) name names kinds wanted unfolding undisputed_def
    by (simp add: namespaceReady_def selectorParses_def ownVolumes_def reservedFor_def noneStale_def
        outgoing_def ownClaims_def)
qed

lemma undisputed_stacked:
  assumes "undisputed r sv v" "stacked sv v v'"
  shows "undisputed r sv v'"
proof -
  have kinds: "v' k = v k" if "k \<notin> stackKinds" for k using assms(2) that by (simp add: stacked_def only_def)
  have claims: "v' KPVC (t, ConsumerPVCName sv) = v KPVC (t, ConsumerPVCName sv)" for t
    using assms(2) by (simp add: stacked_def backingKey_def object_names)
  have "outgoing sv v ref \<Longrightarrow> outgoing sv v' ref" for ref
    using assms(2) unfolding stacked_def claimsKept_def outgoing_def by blast
  then have "noneStale sv target v \<Longrightarrow> noneStale sv target v'" for target
    using kinds [of KPV] unfolding noneStale_def stackKinds_def by simp blast
  moreover have "wanted r sv v' = wanted r sv v" using kinds [of KNamespace] by (simp add: fun_eq_iff wanted_def stackKinds_def)
  ultimately show ?thesis
    using assms(1) kinds claims unfolding undisputed_def
    by (simp add: namespaceReady_def ownVolumes_def ownClaims_def stackKinds_def)
qed

lemma settled_steps:
  assumes "undisputed r sv v" "serverSettled r sv v" "askedTargets r sv v targets"
    and "IsZero (omDeletionTimestamp (svMeta sv))" "finalizerName \<in> set (omFinalizers (svMeta sv))" "seedSettled r sv"
    and "paired sv targets v v1" "noneStale sv (\<lambda>t. t \<in> set targets) v1"
    and "only {KNetworkPolicy} v1 v2" "policySettled r sv v2" "only {KCronJob} v2 v3" "backupSettled r sv v3"
  shows "settled r sv v3"
proof -
  have late: "v3 k = v1 k" if "k \<notin> {KNetworkPolicy, KCronJob}" for k using assms(9,11) that by (simp add: only_def)
  have kinds: "v3 k = v k" if "k \<notin> {KPV, KPVC, KNetworkPolicy, KCronJob}" for k
    using pairedD(1) [OF assms(7)] late that by (simp add: only_def)
  have wanted: "wanted r sv v3 t \<longleftrightarrow> t \<in> set targets" for t
    using kinds [of KNamespace] assms(3) by (simp add: askedTargets_def wanted_def)
  have "v1 KPVC (backingKey r sv) \<noteq> None" using assms(2) pairedD(2) [OF assms(7), of "backingKey r sv"] by (auto simp: serverSettled_def)
  then have "serverSettled r sv v3" using assms(2) kinds late [of KPVC] by (simp add: serverSettled_def)
  moreover have "pairSettled sv v3 t" if "t \<in> set targets" for t
    using pairedD(6) [OF assms(7) that] late by (simp add: pairSettled_def)
  moreover have "noneStale sv (wanted r sv v3) v3"
    using assms(8) late [of KPV] late [of KPVC] wanted by (simp add: noneStale_def outgoing_def)
  moreover have "policySettled r sv v3 = policySettled r sv v2"
    using assms(11) wanted_only [OF assms(11), of r sv] by (simp add: policySettled_def only_def)
  ultimately show ?thesis using assms(1,4-6,10,12) wanted by (simp add: settled_def undisputed_def)
qed

text \<open>A volume that came to rest: the pass ended, and the stored volume, its spec unchanged, is settled.\<close>

definition rests :: "SharedVolume \<Rightarrow> Result \<Rightarrow> 'w run \<Rightarrow> bool" where
  "rests sv res s' = (res = doneResult \<and> inv (world s')
     \<and> (\<exists>y. view s' KSharedVolume (ObjectKeyFromObject (OSharedVolume sv)) = Some (OSharedVolume y)
          \<and> svSpec y = svSpec sv \<and> settled r y (view s')))"

text \<open>The steps from the bindings on.\<close>

lemma settle_liveEnd:
  assumes "inv (world s)" "undisputed r sv (view s)" "serverSettled r sv (view s)" "askedTargets r sv (view s) targets"
    and "ip \<noteq> ''''" "IsZero (omDeletionTimestamp (svMeta sv))" "finalizerName \<in> set (omFinalizers (svMeta sv))"
    and "seedSettled r sv" "view s KSharedVolume (ObjectKeyFromObject (OSharedVolume old)) = Some (OSharedVolume old)"
    and "svMeta sv = svMeta old" "svSpec sv = svSpec old" "backup_admitted sv"
  shows "total (bindE (bindingsStep r sv targets ip) (\<lambda>bindings.
     bindE (reconcileNetworkPolicy r sv targets) (\<lambda>_.
     bindE (reconcileBackup r sv) (\<lambda>sv.
     switchE (updateStatus r sv ip serverReady bindings)
       (\<lambda>e. if IsConflict e then returnE (doneResult\<lparr>resRequeue := True\<rparr>) else throwE e)
       (\<lambda>_. returnE doneResult))))) (rests sv) s"
proof -
  have wanted: "wanted r sv (view s) = (\<lambda>t. t \<in> set targets)" using assms(4) by (auto simp: askedTargets_def)
  then have targets: "\<forall>t \<in> set targets. namespaceReady (view s) t" using wanted_live liveNamespace_ready by metis
  have parts: "namespaceReady (view s) (OperatorNamespace r)" "ownVolumes sv (view s)"
    "ownClaims sv (\<lambda>t. t \<in> set targets) (view s)" "noneStale sv (\<lambda>t. t \<in> set targets) (view s)"
    using assms(2) wanted by (simp_all add: undisputed_def)
  show ?thesis
  proof (rule wp_seq [OF settle_bindingsStep [OF assms(1) targets parts(2) assms(5) parts(3,4)]], goal_cases)
    case b: (1 bs s1)
    then have o1: "only {KPV, KPVC} (view s) (view s1)" using pairedD(1) by blast
    then have k1: "view s1 k = view s k" if "k \<notin> {KPV, KPVC}" for k using that by (simp add: only_def)
    have pre1: "inv (world s1)" "namespaceReady (view s1) (OperatorNamespace r)" "askedTargets r sv (view s1) targets"
      "specNetworkPolicy (svSpec sv) = NetworkPolicyDisabled \<longrightarrow> unheld (view s1 KNetworkPolicy (OperatorNamespace r, ServerName sv))"
      using b parts(1) assms(2,4) k1 namespaceReady_only [OF o1] asked_only(2) [OF o1, of r sv] by (simp_all add: undisputed_def)
    show ?case
    proof (rule wp_seq [OF settle_policy [OF pre1]], goal_cases)
      case p: (1 u s2)
      then have k2: "view s2 k = view s k" if "k \<notin> {KPV, KPVC, KNetworkPolicy}" for k using k1 that by (simp add: only_def)
      have pre2: "inv (world s2)" "namespaceReady (view s2) (OperatorNamespace r)"
        "svBackup sv = None \<longrightarrow> unheld (view s2 KCronJob (OperatorNamespace r, BackupCronJobName sv))"
        using p parts(1) assms(2) k2 by (simp_all add: undisputed_def namespaceReady_def)
      show ?case
      proof (rule wp_seq [OF settle_backup [OF pre2(1,2) assms(12) pre2(3)]], goal_cases)
        case c: (1 sv' s3)
        then have "settled r sv (view s3)"
          using b p by (intro settled_steps [OF assms(2-4,6-8)]) auto
        then have "settled r sv' (view s3)" using settled_recorded [of sv' sv] c by blast
        moreover have "view s3 KSharedVolume (ObjectKeyFromObject (OSharedVolume old)) = Some (OSharedVolume old)"
          using assms(9) k2 c by (simp add: only_def)
        moreover have "ObjectKeyFromObject (OSharedVolume sv) = ObjectKeyFromObject (OSharedVolume old)"
          using assms(10) by (simp add: ObjectKeyFromObject_def)
        ultimately show ?case
          by (intro wp_mono [OF rest_status [OF condition_api_axioms, of s3 s3 sv' old]])
            (use c assms(10,11) in \<open>auto simp: rests_def atRest_def\<close>)
      qed
    qed
  qed
qed

lemma settle_reconcileLive:
  assumes "inv (world s)" "view s KSharedVolume (ObjectKeyFromObject (OSharedVolume sv)) = Some (OSharedVolume sv)"
    and "IsZero (omDeletionTimestamp (svMeta sv))" "undisputed r sv (view s)" "seedDecided r sv (view s)"
  shows "total (reconcileLive r sv) (rests sv) s"
  unfolding reconcileLive_def
proof (rule wp_seq [OF total_ensureFinalizer [OF assms(1-3)]], goal_cases)
  case f: (1 sv1 s1)
  then have key: "ObjectKeyFromObject (OSharedVolume sv1) = ObjectKeyFromObject (OSharedVolume sv)" "svSpec sv1 = svSpec sv" by simp_all
  have s1: "inv (world s1)" "only {KSharedVolume} (view s) (view s1)" using f by (simp_all add: adds_def)
  have way: "undisputed r sv1 (view s1)" using undisputed_finalized [OF assms(4) key s1(2)] .
  have "svName sv1 = svName sv" using key(1) by (simp add: ObjectKeyFromObject_def)
  then have seed: "seedDecided r sv1 (view s1)"
    using assms(5) f s1(2) by (simp add: seedDecided_def seedSettled_def object_names only_def)
  have admitted: "backup_admitted sv1" using stored_typed(3) [OF s1(1)] f by fastforce
  have pre: "namespaceReady (view s1) (OperatorNamespace r)" "selectorParses r sv1" using way by (simp_all add: undisputed_def)
  have server: "total (reconcileServer r sv1) (\<lambda>x s'. case x of (ip, ready, sv') \<Rightarrow> ip \<noteq> '''' \<and> svMeta sv' = svMeta sv1
      \<and> svSpec sv' = svSpec sv1 \<and> seedSettled r sv' \<and> inv (world s') \<and> stacked sv1 (view s1) (view s')) s1"
    using settle_reconcileServer [OF s1(1) pre(1) seed admitted] by (simp add: split_def)
  show ?case
  proof (rule wp_seq [OF server], clarify, goal_cases)
    case st: (1 ip ready sv2 s2)
    have same: "rests sv2 = rests sv" using key st(2,3) by (simp add: fun_eq_iff rests_def ObjectKeyFromObject_def)
    have key2: "ObjectKeyFromObject (OSharedVolume sv2) = ObjectKeyFromObject (OSharedVolume sv1)"
      using st(2) by (simp add: ObjectKeyFromObject_def)
    have "stacked sv2 (view s1) (view s2)" using stacked_cong [OF _ st(3)] st(2,6) by simp
    then have s2: "undisputed r sv2 (view s2)" "serverSettled r sv2 (view s2)" "view s2 KSharedVolume = view s1 KSharedVolume"
      using undisputed_stacked [OF undisputed_finalized [OF way key2 st(3) only_refl]]
      by (simp_all add: stacked_def only_def stackKinds_def)
    have rest: "selectorParses r sv2" "backup_admitted sv2" "IsZero (omDeletionTimestamp (svMeta sv2))"
      "finalizerName \<in> set (omFinalizers (svMeta sv2))"
      using pre(2) admitted st(2,3) f by (simp_all add: selectorParses_def backup_admitted_def)
    show ?case unfolding same [symmetric]
    proof (rule wp_seq [OF total_targetNamespaces [OF st(5) rest(1)]], goal_cases)
      case (1 ts s3)
      with st s2 rest f key show ?case by (intro settle_liveEnd [where old = sv1]) (simp_all add: askedTargets_def)
    qed
  qed
qed

lemma settle_Reconcile:
  assumes "inv (world s)" "view s KSharedVolume req = Some (OSharedVolume sv)"
    and "IsZero (omDeletionTimestamp (svMeta sv))" "undisputed r sv (view s)" "seedDecided r sv (view s)"
  shows "total (Reconcile r req) (rests sv) s"
  unfolding Reconcile_def wp_switchE
proof (rule total_getObject, goal_cases)
  case (3 x y t)
  then have "view t KSharedVolume (ObjectKeyFromObject (OSharedVolume sv)) = Some (OSharedVolume sv)" "y = sv"
    using assms(2) by auto
  with 3 assms settle_reconcileLive [of t sv] show ?case by simp
qed (use assms in auto)

text \<open>From then on every pass is quiet.\<close>

lemma settle_passes:
  assumes "inv w" "objs w KSharedVolume req = Some (OSharedVolume sv)"
    and "IsZero (omDeletionTimestamp (svMeta sv))" "undisputed r sv (objs w)" "seedDecided r sv (objs w)"
  shows "\<exists>s y. Reconcile r req (freshRun w) = (Inr doneResult, s)
    \<and> objs (world s) KSharedVolume req = Some (OSharedVolume y) \<and> svSpec y = svSpec sv \<and> settled r y (objs (world s))
    \<and> (\<forall>n. list_all (\<lambda>(res, h). res = Inr doneResult \<and> statusOnly sv h) (fst (passes r req n (world s))))"
proof -
  have "total (Reconcile r req) (rests sv) (freshRun w)" using settle_Reconcile [of "freshRun w"] assms by simp
  then obtain res s where s: "Reconcile r req (freshRun w) = (Inr res, s)" "rests sv res s"
    by (auto simp: wp_def split: prod.splits sum.splits)
  have key: "ObjectKeyFromObject (OSharedVolume sv) = req" by (rule stored_typed(2) [OF assms(1,2)])
  from s(2) obtain y where y: "res = doneResult" "inv (world s)" "view s KSharedVolume req = Some (OSharedVolume y)"
    "svSpec y = svSpec sv" "settled r y (view s)" unfolding rests_def key by blast
  have "ObjectKeyFromObject (OSharedVolume y) = ObjectKeyFromObject (OSharedVolume sv)"
    using stored_typed(2) [OF y(2,3)] key by simp
  then have "svName y = svName sv" by (simp add: ObjectKeyFromObject_def)
  with rest_passes [OF condition_api_axioms y(2,5,3)] statusOnly_cong [OF _ y(4)]
  have "list_all (\<lambda>(res, h). res = Inr doneResult \<and> statusOnly sv h) (fst (passes r req n (world s)))" for n
    by (simp add: list_all_iff)
  with s(1) y show ?thesis by (intro exI [of _ s] exI [of _ y]) simp
qed

end

end
