(* ===== verification/Store.thy ===== *)
theory Store
  imports Compliance TeardownPass Settling
begin

text \<open>
  A reference environment: an in-memory API server with the documented behaviour of the Kubernetes API
  for the calls the operator makes, and reference versions of the apimachinery and controller-runtime
  helpers it calls. It interprets the locales \<open>operator_env\<close>, \<open>condition_api\<close>, \<open>typed_api\<close> and \<open>api_server\<close>,
  so the assumptions made of the outside are consistent, and it is the environment the witnesses run the operator in. Nothing that is proved of
  the operator for every environment depends on it.
\<close>

subsection \<open>The API server\<close>

record cluster =
  clObjects :: "obj list"
  clEvents :: "Event list"
  clNow :: Time

definition isObject :: "kind \<Rightarrow> NamespacedName \<Rightarrow> obj \<Rightarrow> bool" where
  "isObject k key x = (objKind x = k \<and> ObjectKeyFromObject x = key)"

definition storeLookup :: "cluster \<Rightarrow> kind \<Rightarrow> NamespacedName \<Rightarrow> obj option" where
  "storeLookup w k key = find (isObject k key) (clObjects w)"

definition storeRemove :: "cluster \<Rightarrow> kind \<Rightarrow> NamespacedName \<Rightarrow> cluster" where
  "storeRemove w k key = w\<lparr>clObjects := filter (\<lambda>x. \<not> isObject k key x) (clObjects w)\<rparr>"

definition storePut :: "cluster \<Rightarrow> obj \<Rightarrow> cluster" where
  "storePut w x =
     (let w' = storeRemove w (objKind x) (ObjectKeyFromObject x)
      in w'\<lparr>clObjects := clObjects w' @ [x]\<rparr>)"

text \<open>A new Service gets a cluster address from the service range.\<close>

fun allocate :: "nat \<Rightarrow> obj \<Rightarrow> obj" where
  "allocate n (OService x) =
     OService (if svcClusterIP x = '''' then x\<lparr>svcClusterIP := ''10.96.0.'' @ dec n\<rparr> else x)"
| "allocate n x = x"

definition markDeleted :: "Time \<Rightarrow> obj \<Rightarrow> obj" where
  "markDeleted t x = (if IsZero (omDeletionTimestamp (objMeta x))
     then setMeta x ((objMeta x)\<lparr>omDeletionTimestamp := Some t\<rparr>) else x)"

definition clearDeletion :: "obj \<Rightarrow> obj" where
  "clearDeletion x = setMeta x ((objMeta x)\<lparr>omDeletionTimestamp := None\<rparr>)"

text \<open>A write keeps the stored deletion timestamp and bumps the resource version; the status has its own endpoint.\<close>

definition restamp :: "obj \<Rightarrow> obj \<Rightarrow> obj" where
  "restamp old x = setMeta x ((objMeta x)\<lparr>omDeletionTimestamp := omDeletionTimestamp (objMeta old),
     omResourceVersion := CHR ''1'' # omResourceVersion (objMeta old)\<rparr>)"

fun keepStatus :: "obj \<Rightarrow> obj \<Rightarrow> obj" where
  "keepStatus (OSharedVolume old) (OSharedVolume x) = OSharedVolume (x\<lparr>svStatus := svStatus old\<rparr>)"
| "keepStatus old x = x"

definition stale :: "obj \<Rightarrow> obj \<Rightarrow> bool" where
  "stale old x = (omResourceVersion (objMeta x) \<noteq> omResourceVersion (objMeta old))"

text \<open>
  Invalid objects and objects in a namespace that is not there or is terminating are refused, stale writes
  conflict. An object with finalizers is only marked; one whose last finalizer an update drops goes away.
\<close>

fun storeCall :: "cluster \<Rightarrow> call \<Rightarrow> reply \<times> cluster" where
  "storeCall w (Get k key) =
     (case storeLookup w k key of None \<Rightarrow> (Failed NotFound, w) | Some x \<Rightarrow> (Returned x, w))"
| "storeCall w (ListObjects k opt) =
     (Items (filter (\<lambda>x. objKind x = k \<and> selects opt x) (clObjects w)), w)"
| "storeCall w (Create x) =
     (if \<not> admissible x then (Failed (OtherReason ''Invalid''), w)
      else case storeLookup w (objKind x) (ObjectKeyFromObject x) of
        Some _ \<Rightarrow> (Failed AlreadyExists, w)
      | None \<Rightarrow>
          if \<not> namespaceReady (storeLookup w) (omNamespace (objMeta x)) then (Failed (OtherReason ''Forbidden''), w)
          else (let y = allocate (Suc (length (clObjects w))) (clearDeletion x) in (Returned y, storePut w y)))"
| "storeCall w (Update x) =
     (if \<not> admissible x then (Failed (OtherReason ''Invalid''), w)
      else case storeLookup w (objKind x) (ObjectKeyFromObject x) of
        None \<Rightarrow> (Failed NotFound, w)
      | Some old \<Rightarrow>
          if stale old x then (Failed Conflict, w)
          else (let y = allocate (length (clObjects w)) (keepStatus old (restamp old x))
                in (Returned y, if leaving y then storeRemove w (objKind x) (ObjectKeyFromObject x) else storePut w y)))"
| "storeCall w (StatusUpdate x) =
     (case x of
        OSharedVolume u \<Rightarrow>
          (case storeLookup w KSharedVolume (ObjectKeyFromObject x) of
             Some (OSharedVolume old) \<Rightarrow>
               if stale (OSharedVolume old) x then (Failed Conflict, w)
               else (let y = restamp (OSharedVolume old) (OSharedVolume (old\<lparr>svStatus := svStatus u\<rparr>))
                     in (Returned y, storePut w y))
           | _ \<Rightarrow> (Failed NotFound, w))
      | _ \<Rightarrow> (Failed (OtherReason ''MethodNotAllowed''), w))"
| "storeCall w (Delete k key p) =
     (case storeLookup w k key of
        None \<Rightarrow> (Failed NotFound, w)
      | Some x \<Rightarrow> if omFinalizers (objMeta x) = [] then (Accepted, storeRemove w k key)
                  else (Accepted, storePut w (markDeleted (clNow w) x)))"
| "storeCall w (Eventf ev) = (Failed (OtherReason ''MethodNotAllowed''), w)"

definition storeRecord :: "cluster \<Rightarrow> Event \<Rightarrow> cluster" where
  "storeRecord w ev = w\<lparr>clEvents := clEvents w @ [ev]\<rparr>"

subsection \<open>The helper libraries\<close>

definition refOwner :: "SharedVolume \<Rightarrow> OwnerReference" where
  "refOwner sv = \<lparr>orKind = ''SharedVolume'', orName = svName sv, orUID = omUID (svMeta sv),
     orController = True\<rparr>"

definition refSetControllerReference :: "SharedVolume \<Rightarrow> ObjectMeta \<Rightarrow> string + ObjectMeta" where
  "refSetControllerReference sv m =
     (if \<exists>o' \<in> set (omOwnerReferences m). orController o' \<and> orUID o' \<noteq> omUID (svMeta sv)
      then Inl ''already owned by another controller''
      else Inr (m\<lparr>omOwnerReferences :=
        filter (\<lambda>o'. orUID o' \<noteq> omUID (svMeta sv)) (omOwnerReferences m) @ [refOwner sv]\<rparr>))"

definition refAddFinalizer :: "string list \<Rightarrow> string \<Rightarrow> bool \<times> string list" where
  "refAddFinalizer fs f = (if f \<in> set fs then (False, fs) else (True, fs @ [f]))"

definition refRemoveFinalizer :: "string list \<Rightarrow> string \<Rightarrow> string list" where
  "refRemoveFinalizer fs f = filter (\<lambda>x. x \<noteq> f) fs"

fun refSetCondition :: "Time \<Rightarrow> Condition list \<Rightarrow> Condition \<Rightarrow> bool \<times> Condition list" where
  "refSetCondition t [] c = (True, [c\<lparr>cLastTransitionTime := t\<rparr>])"
| "refSetCondition t (d # ds) c =
     (if cType d = cType c
      then (let e = c\<lparr>cLastTransitionTime := (if cStatus d = cStatus c then cLastTransitionTime d else t)\<rparr>
            in (e \<noteq> d, e # ds))
      else (case refSetCondition t ds c of (ch, ds') \<Rightarrow> (ch, d # ds')))"

definition refIsConditionTrue :: "Condition list \<Rightarrow> string \<Rightarrow> bool" where
  "refIsConditionTrue cs t =
     (case find (\<lambda>c. cType c = t) cs of None \<Rightarrow> False | Some c \<Rightarrow> cStatus c = ConditionTrue)"

fun refRequirement :: "labels \<Rightarrow> LabelSelectorRequirement \<Rightarrow> bool" where
  "refRequirement ls q =
     (if lsrOperator q = ''In'' then (case ls (lsrKey q) of None \<Rightarrow> False | Some v \<Rightarrow> v \<in> set (lsrValues q))
      else if lsrOperator q = ''NotIn'' then (case ls (lsrKey q) of None \<Rightarrow> True | Some v \<Rightarrow> v \<notin> set (lsrValues q))
      else if lsrOperator q = ''Exists'' then ls (lsrKey q) \<noteq> None
      else ls (lsrKey q) = None)"

definition refSelector :: "LabelSelector \<Rightarrow> string + Selector" where
  "refSelector sel =
     (if \<exists>q \<in> set (lsMatchExpressions sel).
           lsrOperator q \<notin> {''In'', ''NotIn'', ''Exists'', ''DoesNotExist''}
      then Inl ''not a valid label selector operator''
      else Inr (\<lambda>ls. lsMatchLabels sel \<subseteq>\<^sub>m ls \<and> (\<forall>q \<in> set (lsMatchExpressions sel). refRequirement ls q)))"

definition refReconciler :: "cluster SharedVolumeReconciler" where
  "refReconciler = \<lparr>
     client = storeCall,
     recorder = storeRecord,
     setControllerReference = refSetControllerReference,
     addFinalizer = refAddFinalizer,
     containsFinalizer = (\<lambda>fs f. f \<in> set fs),
     removeFinalizer = refRemoveFinalizer,
     setStatusCondition = (\<lambda>w. refSetCondition (clNow w)),
     isStatusConditionTrue = refIsConditionTrue,
     labelSelectorAsSelector = refSelector,
     semanticDeepEqual = (=),
     OperatorNamespace = ''nfsz-system'',
     GaneshaImage = ''ganesha:1'',
     BackupImage = ''rsync:1'',
     AllowCIDRs = []\<rparr>"

lemma refReconciler_simps [simp]:
  "client refReconciler = storeCall" "recorder refReconciler = storeRecord"
  "setControllerReference refReconciler = refSetControllerReference"
  "addFinalizer refReconciler = refAddFinalizer"
  "containsFinalizer refReconciler = (\<lambda>fs f. f \<in> set fs)"
  "removeFinalizer refReconciler = refRemoveFinalizer"
  "setStatusCondition refReconciler = (\<lambda>w. refSetCondition (clNow w))"
  "isStatusConditionTrue refReconciler = refIsConditionTrue"
  "labelSelectorAsSelector refReconciler = refSelector"
  "semanticDeepEqual refReconciler = (=)"
  "OperatorNamespace refReconciler = ''nfsz-system''" "GaneshaImage refReconciler = ''ganesha:1''"
  "BackupImage refReconciler = ''rsync:1''" "AllowCIDRs refReconciler = []"
  by (simp_all add: refReconciler_def)

subsection \<open>The laws hold\<close>

lemma storeLookup_Some: "storeLookup w k key = Some x \<Longrightarrow> isObject k key x"
  by (auto simp: storeLookup_def find_Some_iff)

lemma allocate_simps [simp]: "objKind (allocate n x) = objKind x" "objMeta (allocate n x) = objMeta x"
  "admissible (allocate n x) = admissible x"
  by (cases x; simp)+

lemma keepStatus_simps [simp]: "objKind (keepStatus old x) = objKind x" "objMeta (keepStatus old x) = objMeta x"
  "admissible (keepStatus old x) = admissible x"
  by (cases old; cases x; simp add: backup_admitted_def)+

text \<open>Rewriting the metadata of an object.\<close>

lemma setMeta_kept [simp]: "omNamespace m = omNamespace (objMeta x) \<Longrightarrow> admissible (setMeta x m) = admissible x"
  by (cases x; simp add: backup_admitted_def)

lemma rewrite_simps [simp]:
  "objKind (clearDeletion x) = objKind x" "objKind (restamp old x) = objKind x" "objKind (markDeleted t x) = objKind x"
  "ObjectKeyFromObject (allocate n x) = ObjectKeyFromObject x"
  "ObjectKeyFromObject (keepStatus old x) = ObjectKeyFromObject x"
  "ObjectKeyFromObject (clearDeletion x) = ObjectKeyFromObject x"
  "ObjectKeyFromObject (restamp old x) = ObjectKeyFromObject x"
  "ObjectKeyFromObject (markDeleted t x) = ObjectKeyFromObject x"
  "admissible (clearDeletion x) = admissible x" "admissible (restamp old x) = admissible x"
  "admissible (markDeleted t x) = admissible x"
  by (simp_all add: clearDeletion_def restamp_def markDeleted_def ObjectKeyFromObject_def)

lemma specKept_setMeta [simp]: "specKept x (setMeta x m)"
  by (cases x; simp)

lemma specKept_written [simp]: "specKept x (allocate n (keepStatus old (setMeta x m)))" "specKept x (allocate n (setMeta x m))"
  by (cases x; cases old; simp)+

lemma allocated_service: "allocate n x = OService y \<Longrightarrow> svcClusterIP y \<noteq> ''''"
  by (cases x) (auto split: if_splits)

lemma storeLookup_put:
  "storeLookup (storePut w x) k key =
     (if isObject k key x then Some x else storeLookup w k key)"
proof -
  have "find P (filter (\<lambda>y. \<not> isObject (objKind x) (ObjectKeyFromObject x) y) ys @ [x])
      = (if P x then Some x else find P ys)" if "P = isObject k key" for P ys
    using that by (induction ys) (auto simp: isObject_def)
  then show ?thesis by (simp add: storeLookup_def storePut_def storeRemove_def Let_def)
qed

lemma view_put: "storeLookup (storePut w x) = put (storeLookup w) (objKind x) (ObjectKeyFromObject x) (Some x)"
  by (intro ext) (simp add: storeLookup_put isObject_def)

lemma view_remove: "storeLookup (storeRemove w k key) = put (storeLookup w) k key None"
proof -
  have "find P (filter (\<lambda>x. \<not> isObject k key x) xs) = (if k' = k \<and> key' = key then None else find P xs)"
    if "P = isObject k' key'" for P xs k' key'
    using that by (induction xs) (auto simp: isObject_def)
  then show ?thesis by (intro ext) (simp add: storeLookup_def storeRemove_def)
qed

text \<open>
  The clusters the server maintains: one object per kind and key, each admitted, held if it is on its way out,
  and a Service with its address.
\<close>

fun addressed :: "obj \<Rightarrow> bool" where
  "addressed (OService x) = (svcClusterIP x \<noteq> '''')"
| "addressed x = True"

definition sound :: "obj \<Rightarrow> bool" where
  "sound x = (admissible x \<and> \<not> leaving x \<and> addressed x)"

definition consistent :: "cluster \<Rightarrow> bool" where
  "consistent w = (distinct (map (\<lambda>x. (objKind x, ObjectKeyFromObject x)) (clObjects w))
     \<and> list_all sound (clObjects w) \<and> clNow w \<noteq> 0)"

lemma consistent_remove: "consistent w \<Longrightarrow> consistent (storeRemove w k key)"
  by (auto simp: consistent_def storeRemove_def distinct_map list_all_iff inj_on_def)

lemma consistent_put: "consistent w \<Longrightarrow> sound x \<Longrightarrow> consistent (storePut w x)"
  using consistent_remove [of w "objKind x" "ObjectKeyFromObject x"]
  by (auto simp: consistent_def storePut_def storeRemove_def Let_def isObject_def)

lemma lookup_listed:
  assumes "consistent w"
  shows "x \<in> set (clObjects w) \<longleftrightarrow> storeLookup w (objKind x) (ObjectKeyFromObject x) = Some x"
proof -
  have "distinct (map (\<lambda>x. (objKind x, ObjectKeyFromObject x)) xs) \<Longrightarrow>
      x \<in> set xs \<longleftrightarrow> find (isObject (objKind x) (ObjectKeyFromObject x)) xs = Some x" for xs
    by (induction xs) (auto simp: isObject_def rev_image_eqI)
  with assms show ?thesis by (simp add: storeLookup_def consistent_def)
qed

lemma lookup_sound:
  assumes "consistent w" "storeLookup w k key = Some x"
  shows "sound x" "objKind x = k" "ObjectKeyFromObject x = key"
  using assms storeLookup_Some [OF assms(2)]
  by (auto simp: storeLookup_def consistent_def list_all_iff find_Some_iff isObject_def)

lemma addressed_allocate [simp]: "addressed (allocate n x)"
  by (cases x) auto

lemma addressed_other: "objKind x \<noteq> KService \<Longrightarrow> addressed x"
  by (cases x) auto

lemma addressed_setMeta [simp]: "addressed (setMeta x m) = addressed x"
  by (cases x) auto

text \<open>What the writes store.\<close>

lemma created_stored: "created x (allocate n (clearDeletion x))"
  by (simp add: created_def clearDeletion_def ObjectKeyFromObject_def)

lemma keepStatus_status: "allocate n (keepStatus (OSharedVolume a) x) = OSharedVolume b \<Longrightarrow> svStatus b = svStatus a"
  by (cases x) auto

lemma updated_stored: "updated old x (allocate n (keepStatus old (restamp old x)))"
  using keepStatus_status
  by (auto simp: updated_def rewritten_def sameIdentity_def restamp_def ObjectKeyFromObject_def)

lemma marked_stored:
  assumes "t \<noteq> 0"
  shows "marked x (markDeleted t x)"
proof (cases "IsZero (omDeletionTimestamp (objMeta x))")
  case True
  with assms show ?thesis by (simp add: marked_def sameIdentity_def markDeleted_def ObjectKeyFromObject_def)
next
  case False
  then show ?thesis by (cases x) (simp_all add: marked_def sameIdentity_def markDeleted_def)
qed

lemma sound_written:
  "admissible x \<Longrightarrow> sound (allocate n (clearDeletion x))"
  "sound x \<Longrightarrow> omFinalizers (objMeta x) \<noteq> [] \<Longrightarrow> sound (markDeleted t x)"
  by (auto simp: sound_def leaving_def clearDeletion_def markDeleted_def)

lemma sound_status:
  "sound (OSharedVolume old) \<Longrightarrow> sound (restamp (OSharedVolume old) (OSharedVolume (old\<lparr>svStatus := st\<rparr>)))"
  by (auto simp: sound_def leaving_def restamp_def backup_admitted_def)

interpretation ref: operator_env refReconciler
proof
  show "setControllerReference refReconciler sv m = Inr m' \<Longrightarrow>
      omName m' = omName m \<and> omNamespace m' = omNamespace m \<and> omLabels m' = omLabels m" for sv m m'
    by (auto simp: refSetControllerReference_def split: if_splits)
  show "client refReconciler w (Get k key) = (Returned x, w') \<Longrightarrow> ObjectKeyFromObject x = key" for w k key x w'
    by (auto dest: storeLookup_Some simp: isObject_def split: option.splits)
  show "client refReconciler w (Update x) = (Returned y, w') \<Longrightarrow>
      ObjectKeyFromObject y = ObjectKeyFromObject x" for w x y w'
    by (auto simp: Let_def split: option.splits if_splits)
  show "client refReconciler w (StatusUpdate x) = (Returned y, w') \<Longrightarrow>
      ObjectKeyFromObject y = ObjectKeyFromObject x" for w x y w'
    by (auto simp: Let_def isObject_def ObjectKeyFromObject_def restamp_def dest!: storeLookup_Some
        split: obj.splits option.splits if_splits)
qed

interpretation ref: condition_api refReconciler
proof
  have find_set: "refIsConditionTrue (snd (refSetCondition t cs c)) ty =
      (if ty = cType c then cStatus c = ConditionTrue else refIsConditionTrue cs ty)" for t cs c ty
    by (induction cs) (auto simp: refIsConditionTrue_def Let_def split: prod.splits)
  show "isStatusConditionTrue refReconciler (snd (setStatusCondition refReconciler w cs c)) (cType c)
      = (cStatus c = ConditionTrue)" for w cs c
    by (simp add: find_set)
  show "isStatusConditionTrue refReconciler (snd (setStatusCondition refReconciler w cs c)) t
      = isStatusConditionTrue refReconciler cs t" if "t \<noteq> cType c" for t w cs c
    using that by (simp add: find_set)
qed

lemma store_typed:
  assumes "consistent w" "storeCall w c = (rep, w')"
  shows "typedReply c rep \<and> consistent w'"
proof (cases c)
  case (Get k key)
  with assms lookup_sound [OF assms(1), of k key] show ?thesis by (auto simp: sound_def split: option.splits)
next
  case (ListObjects k opt)
  with assms show ?thesis by (auto simp: consistent_def list_all_iff sound_def)
next
  case (Create x)
  with assms show ?thesis
    by (auto simp: Let_def sound_written intro: consistent_put split: if_splits option.splits)
next
  case (Update x)
  with assms show ?thesis
    by (auto simp: Let_def sound_def intro: consistent_put consistent_remove split: if_splits option.splits)
next
  case (StatusUpdate x)
  show ?thesis
  proof (cases x)
    case (OSharedVolume u)
    have old: "admissible (OSharedVolume old) \<and> consistent (storePut w (restamp (OSharedVolume old)
        (OSharedVolume (old\<lparr>svStatus := st\<rparr>))))"
      if "storeLookup w KSharedVolume key = Some (OSharedVolume old)" for key old st
    proof
      have s: "sound (OSharedVolume old)" using lookup_sound(1) [OF assms(1) that] .
      then show "admissible (OSharedVolume old)" by (simp only: sound_def)
      from consistent_put [OF assms(1) sound_status [OF s]]
      show "consistent (storePut w (restamp (OSharedVolume old) (OSharedVolume (old\<lparr>svStatus := st\<rparr>))))" .
    qed
    have status: "backup_admitted (y\<lparr>svStatus := st\<rparr>) = backup_admitted y" for y st by (simp add: backup_admitted_def)
    from OSharedVolume StatusUpdate assms old [of "ObjectKeyFromObject (OSharedVolume u)"] show ?thesis
      by (auto simp: Let_def status split: if_splits option.splits obj.splits)
  qed (use StatusUpdate assms in auto)
next
  case (Delete k key p)
  with assms show ?thesis
    by (auto intro: consistent_put consistent_remove sound_written dest: lookup_sound(1) [OF assms(1)]
        split: if_splits option.splits)
qed (use assms in auto)

interpretation live: typed_api refReconciler consistent
proof
  show "client refReconciler w c = (rep, w') \<Longrightarrow> typedReply c rep \<and> consistent w'" if "consistent w" for w c rep w'
    using store_typed [OF that] by simp
  show "consistent w \<Longrightarrow> consistent (recorder refReconciler w ev)" for w ev
    by (simp add: storeRecord_def consistent_def)
qed

interpretation live: api_server refReconciler consistent storeLookup
proof
  fix w assume w: "consistent w"
  note sound = lookup_sound [OF w]
  show "client refReconciler w (Get k key) =
      (case storeLookup w k key of None \<Rightarrow> (Failed NotFound, w) | Some x \<Rightarrow> (Returned x, w))" for k key
    by simp
  show "\<exists>xs. client refReconciler w (ListObjects k opt) = (Items xs, w)
      \<and> (\<forall>x. x \<in> set xs \<longleftrightarrow> storeLookup w k (ObjectKeyFromObject x) = Some x \<and> selects opt x)" for k opt
  proof -
    have "x \<in> set (clObjects w) \<and> objKind x = k \<longleftrightarrow> storeLookup w k (ObjectKeyFromObject x) = Some x" for x
      using lookup_listed [OF w, of x] sound(2) [of k "ObjectKeyFromObject x" x] by auto
    then show ?thesis by (simp add: conj_assoc [symmetric])
  qed
  show "\<exists>y w'. client refReconciler w (Create x) = (Returned y, w') \<and> created x y
      \<and> storeLookup w' = put (storeLookup w) (objKind x) (ObjectKeyFromObject x) (Some y)"
    if "admissible x" "storeLookup w (objKind x) (ObjectKeyFromObject x) = None"
      "namespaceReady (storeLookup w) (omNamespace (objMeta x))" for x
    using that by (simp add: Let_def created_stored view_put)
  show "\<exists>y w'. client refReconciler w (Update x) = (Returned y, w') \<and> updated old x y \<and> storeLookup w'
      = put (storeLookup w) (objKind x) (ObjectKeyFromObject x) (if leaving y then None else Some y)"
    if "admissible x" "storeLookup w (objKind x) (ObjectKeyFromObject x) = Some old"
      "omResourceVersion (objMeta x) = omResourceVersion (objMeta old)" for x old
    using that by (simp add: Let_def stale_def updated_stored view_put view_remove)
  show "\<exists>u1 w'. client refReconciler w (StatusUpdate (OSharedVolume u)) = (Returned (OSharedVolume u1), w')
      \<and> rewritten (OSharedVolume u0) (OSharedVolume u0) (OSharedVolume u1) \<and> svStatus u1 = svStatus u
      \<and> omGeneration (svMeta u1) = omGeneration (svMeta u0)
      \<and> storeLookup w' = put (storeLookup w) KSharedVolume (ObjectKeyFromObject (OSharedVolume u)) (Some (OSharedVolume u1))"
    if "storeLookup w KSharedVolume (ObjectKeyFromObject (OSharedVolume u)) = Some (OSharedVolume u0)"
      "omResourceVersion (svMeta u) = omResourceVersion (svMeta u0)" for u u0
    using that sound(3) [OF that(1)]
    by (simp add: Let_def stale_def restamp_def view_put updated_def rewritten_def sameIdentity_def ObjectKeyFromObject_def)
  show "\<exists>w'. client refReconciler w (Delete k key p) = (Accepted, w')
      \<and> (if omFinalizers (objMeta x) = [] then storeLookup w' = put (storeLookup w) k key None
         else \<exists>y. marked x y \<and> storeLookup w' = put (storeLookup w) k key (Some y))"
    if "storeLookup w k key = Some x" for k key x p
    using that sound(2,3) [OF that] w marked_stored [of "clNow w" x]
    by (auto simp: view_put view_remove consistent_def)
  show "client refReconciler w (Delete k key p) = (Failed NotFound, w)" if "storeLookup w k key = None" for k key p
    using that by simp
  show "\<not> leaving x" if "storeLookup w k key = Some x" for k key x
    using sound(1) [OF that] by (simp add: sound_def)
  show "svcClusterIP svc \<noteq> ''''" if "storeLookup w KService key = Some (OService svc)" for key svc
    using sound(1) [OF that] by (simp add: sound_def)
  show "storeLookup (recorder refReconciler w ev) = storeLookup w" for ev
    by (intro ext) (simp add: storeRecord_def storeLookup_def)
next
  show "\<exists>os. setControllerReference refReconciler sv m = Inr (m\<lparr>omOwnerReferences := os\<rparr>)"
    if "omOwnerReferences m = []" for sv m
    using that by (auto simp: refSetControllerReference_def)
qed (simp_all add: refAddFinalizer_def refRemoveFinalizer_def)

interpretation live: settling_server refReconciler consistent storeLookup
  by unfold_locales simp

subsection \<open>A small cluster\<close>

text \<open>A volume for one namespace, and a cluster that holds it, its namespace and one node.\<close>

definition demoVolume :: SharedVolume where
  "demoVolume = (let v = namedVolume ''data'' in
     v\<lparr>svSpec := (svSpec v)\<lparr>specNamespaces := \<lparr>selNames = [''team-a''], selSelector = None\<rparr>\<rparr>\<rparr>)"

definition demoNamespace :: Namespace where
  "demoNamespace = \<lparr>nsMeta = objectMeta ''team-a'' '''' [LabelMetadataName \<mapsto> ''team-a'']\<rparr>"

definition operatorNamespace :: Namespace where
  "operatorNamespace = \<lparr>nsMeta = objectMeta ''nfsz-system'' '''' [LabelMetadataName \<mapsto> ''nfsz-system'']\<rparr>"

definition demoNode :: Node where
  "demoNode = \<lparr>nodeMeta = objectMeta ''node-1'' '''' Map.empty, nodePodCIDR = '''', nodePodCIDRs = [],
     nodeAddresses = [\<lparr>naType = NodeInternalIP, naAddress = ''192.0.2.7''\<rparr>]\<rparr>"

definition demoCluster :: cluster where
  "demoCluster = \<lparr>clObjects = [OSharedVolume demoVolume, ONamespace demoNamespace, ONamespace operatorNamespace,
     ONode demoNode],
     clEvents = [], clNow = 1\<rparr>"

text \<open>The same volume being deleted, with one consumer claim still there.\<close>

definition deletedVolume :: SharedVolume where
  "deletedVolume = demoVolume\<lparr>svMeta := (svMeta demoVolume)\<lparr>omDeletionTimestamp := Some 7,
     omFinalizers := [finalizerName]\<rparr>\<rparr>"

definition drainingCluster :: cluster where
  "drainingCluster = \<lparr>clObjects = [OSharedVolume deletedVolume, ONamespace demoNamespace, ONamespace operatorNamespace,
     OPV (BuildPV demoVolume ''team-a'' ''10.96.0.9''), OPVC (BuildConsumerPVC demoVolume ''team-a'')],
     clEvents = [], clNow = 8\<rparr>"

end
