(* ===== verification/Witnesses.thy ===== *)
theory Witnesses
  imports Store Settling Schedule Effects Manager
begin

text \<open>
  Runs of the operator's components in the reference environment of \<open>Store\<close>, at which the properties that
  have hypotheses are applied: each witness discharges the hypotheses of one property on a concrete input.
\<close>

lemmas prog_defs = bindE_def switchE_def switchGet_def ignoring_def liftPanic_def readWorld_def returnE_def
  throwE_def invoke_def getObject_def writeObject_def listObjects_def deleteObject_def eventf_def after_def

lemmas store_defs = storeLookup_def storeRemove_def storePut_def isObject_def ObjectKeyFromObject_def
  selects_def storeRecord_def namespaceReady_def clearDeletion_def restamp_def stale_def markDeleted_def leaving_def

lemmas demo_defs = demoCluster_def demoVolume_def demoNamespace_def operatorNamespace_def demoNode_def namedVolume_def
  objectMeta_def zeroMeta_def deletedVolume_def drainingCluster_def

lemmas build_defs = BuildBackingPVC_def BuildConfigMap_def BuildServerDeployment_def BuildService_def
  BuildPV_def BuildConsumerPVC_def managedLabels_def label_names object_names

lemma demo_names [simp]: "svName demoVolume = ''data''" "svName deletedVolume = ''data''"
  by (simp_all add: demo_defs)

lemma demo_consistent: "consistent demoCluster" "consistent drainingCluster"
  by (simp_all add: consistent_def sound_def leaving_def backup_admitted_def ObjectKeyFromObject_def demo_defs build_defs)

text \<open>A pass keeps the cluster consistent.\<close>

lemma Reconcile_consistent:
  assumes "consistent w"
  shows "consistent (world (snd (Reconcile refReconciler req (freshRun w))))"
proof -
  have "wp (Reconcile refReconciler req) (\<lambda>_ s. consistent (world s) \<and> True) (\<lambda>e s. consistent (world s) \<and> reported e)
      (freshRun w)"
    using live.safe_Reconcile [of req] assms unfolding live.safe_def by simp
  then show ?thesis by (auto simp: wp_def split: prod.splits sum.splits)
qed

subsection \<open>A steady server stack\<close>

definition steadyBacking :: PersistentVolumeClaim where
  "steadyBacking = BuildBackingPVC demoVolume ''nfsz-system''"

definition steadyConf :: ConfigMap where
  "steadyConf = BuildConfigMap demoVolume ''nfsz-system''"

definition steadyServer :: Deployment where
  "steadyServer = (BuildServerDeployment demoVolume ''nfsz-system'' ''ganesha:1'' steadyConf)\<lparr>depReadyReplicas := 1\<rparr>"

definition steadyService :: Service where
  "steadyService = (BuildService demoVolume ''nfsz-system'')\<lparr>svcClusterIP := ''10.96.0.9''\<rparr>"

definition steadyCluster :: cluster where
  "steadyCluster = demoCluster\<lparr>clObjects := clObjects demoCluster @ [OPVC steadyBacking, OConfigMap steadyConf,
     ODeployment steadyServer, OService steadyService]\<rparr>"

lemma steady_replies:
  "storeCall steadyCluster (Get KPVC (''nfsz-system'', BackingPVCName demoVolume)) = (Returned (OPVC steadyBacking), steadyCluster)"
  "storeCall steadyCluster (Get KConfigMap (''nfsz-system'', ConfigMapName demoVolume)) = (Returned (OConfigMap steadyConf), steadyCluster)"
  "mapGet (cmData steadyConf) ''ganesha.conf'' = Config"
  "seedSettled refReconciler demoVolume"
  "storeCall steadyCluster (Get KDeployment (''nfsz-system'', ServerName demoVolume)) = (Returned (ODeployment steadyServer), steadyCluster)"
  "deploymentDrifted (depTemplate (depSpec steadyServer)) (depTemplate (depSpec (BuildServerDeployment demoVolume
     ''nfsz-system'' ''ganesha:1'' (BuildConfigMap demoVolume ''nfsz-system'')))) = Inr False"
  "storeCall steadyCluster (Get KService (''nfsz-system'', ServerName demoVolume)) = (Returned (OService steadyService), steadyCluster)"
  "svcClusterIP steadyService = ''10.96.0.9''" "depReadyReplicas steadyServer = 1"
  by (simp_all add: steadyCluster_def steadyBacking_def steadyConf_def steadyServer_def steadyService_def
      store_defs demo_defs build_defs Let_def seedSettled_def deploymentDrifted_def)

subsection \<open>A volume with a backup\<close>

definition backupVolume :: SharedVolume where
  "backupVolume = demoVolume\<lparr>svSpec := (svSpec demoVolume)\<lparr>specBackup := Some \<lparr>bsSchedule = ''0 3 * * *'',
     bsDestination = \<lparr>bdHostPath = Some \<lparr>hpdPath = ''/srv/backup''\<rparr>\<rparr>, bsSuspend = None,
     bsRestorePolicy = RestoreAuto\<rparr>\<rparr>\<rparr>"

text \<open>The cluster holds the server of the volume already, so the seed is skipped.\<close>

definition restoredRun :: "SharedVolume \<times> cluster run" where
  "restoredRun = (case reconcileSeed refReconciler backupVolume (freshRun steadyCluster) of
     (Inr (_, sv), s) \<Rightarrow> (sv, s) | (Inl _, s) \<Rightarrow> (backupVolume, s))"

lemma restoredRun_eq:
  "reconcileSeed refReconciler backupVolume (freshRun steadyCluster) = (Inr (True, fst restoredRun), snd restoredRun)"
proof -
  have name: "ServerName backupVolume = ServerName demoVolume" by (simp add: backupVolume_def object_names)
  have "\<exists>sv s. reconcileSeed refReconciler backupVolume (freshRun steadyCluster) = (Inr (True, sv), s)"
    using steady_replies(5) unfolding reconcileSeed_def name
    by (simp add: backupVolume_def demo_defs refIsConditionTrue_def prog_defs freshRun_def)
  then show ?thesis by (auto simp: restoredRun_def)
qed

definition backupCron :: CronJob where
  "backupCron = projr (BuildBackupCronJob backupVolume ''nfsz-system'' ''rsync:1'')"

definition backupSeed :: Job where
  "backupSeed = projr (BuildSeedJob backupVolume ''nfsz-system'' ''rsync:1'')"

lemma backup_built:
  "BuildBackupCronJob backupVolume ''nfsz-system'' ''rsync:1'' = Inr backupCron"
  "BuildSeedJob backupVolume ''nfsz-system'' ''rsync:1'' = Inr backupSeed"
  by (simp_all add: backupCron_def backupSeed_def BuildBackupCronJob_def BuildSeedJob_def backupPodSpec_def
      backupVolume_def Let_def)

subsection \<open>Backup and seed\<close>

theorem selector_spares_backup_pods_witness:
  "\<not> serverSelector demoVolume \<subseteq>\<^sub>m omLabels (ptMeta (jobTemplate (cjJobSpec (cjSpec backupCron))))"
  using selector_spares_backup_pods [OF backup_built] by simp

theorem backup_mounts_witness:
  "mountsOf (ptSpec (jobTemplate (cjJobSpec (cjSpec backupCron)))) ''backing'' = [(''/data'', True)]"
  using backup_mounts [OF backup_built] by (simp add: Let_def)

theorem backup_drift_exact_witness:
  "backupCronJobDrifted (backupCron\<lparr>cjSpec := (cjSpec backupCron)\<lparr>cjSchedule := ''@daily''\<rparr>\<rparr>) backupCron = Inr True"
proof -
  have "cjSchedule (cjSpec backupCron) = ''0 3 * * *''"
    by (simp add: backupCron_def BuildBackupCronJob_def backupPodSpec_def backupVolume_def Let_def)
  then show ?thesis
    using backup_drift_exact [OF backup_built(1)] by (simp add: ownedFields_def Let_def)
qed

theorem reconcileServer_gated_witness:
  "obeys (seedGate refReconciler backupVolume)
     (trace (snd (reconcileServer refReconciler backupVolume (freshRun demoCluster))))"
  by (rule reconcileServer_gated) simp

subsection \<open>Targets and bindings\<close>

lemma demo_targets:
  "targetNamespaces refReconciler demoVolume (freshRun demoCluster) = (Inr [''team-a''], (freshRun demoCluster)
     \<lparr>trace := [(Get KNamespace ('''', ''team-a''), Returned (ONamespace demoNamespace))]\<rparr>)"
  by (simp add: targetNamespaces_def prog_defs store_defs demo_defs freshRun_def setInsert_def sortedKeys_def)


definition boundCluster :: cluster where
  "boundCluster = \<lparr>clObjects = [ONamespace operatorNamespace, OPV (BuildPV demoVolume ''team-a'' ''10.96.0.9''),
     OPVC ((BuildConsumerPVC demoVolume ''team-a'')\<lparr>pvcPhase := ClaimBound\<rparr>)], clEvents = [], clNow = 1\<rparr>"

lemma demo_binding:
  "reconcileBinding refReconciler demoVolume ''team-a'' ''10.96.0.9'' (freshRun boundCluster)
     = (Inr BindingBound, snd (reconcileBinding refReconciler demoVolume ''team-a'' ''10.96.0.9'' (freshRun boundCluster)))"
  by (simp add: reconcileBinding_def ensurePV_def needsRepair_def prog_defs store_defs demo_defs boundCluster_def
      build_defs freshRun_def Let_def)

lemma demo_bindings:
  "reconcileBindings refReconciler demoVolume [''team-a''] ''10.96.0.9'' (freshRun boundCluster)
     = (Inr [\<lparr>nbNamespace = ''team-a'', nbPVCName = ''data'', nbPhase = BindingBound\<rparr>],
        snd (reconcileBindings refReconciler demoVolume [''team-a''] ''10.96.0.9'' (freshRun boundCluster)))"
  by (simp add: reconcileBinding_def ensurePV_def needsRepair_def prog_defs store_defs demo_defs boundCluster_def
      build_defs freshRun_def Let_def)

theorem reconcileBinding_phase_witness:
  "\<exists>rep. (Get KPVC (''team-a'', ''data''), rep) \<in> set (trace (snd (reconcileBinding refReconciler demoVolume
       ''team-a'' ''10.96.0.9'' (freshRun boundCluster)))) \<and> phaseOf demoVolume rep = Some BindingBound"
  using reconcileBinding_phase [OF demo_binding] by (simp add: ConsumerPVCName_def)

theorem reconcileBindings_targets_witness:
  "map nbNamespace [\<lparr>nbNamespace = ''team-a'', nbPVCName = ''data'', nbPhase = BindingBound\<rparr>] = [''team-a'']"
  using reconcileBindings_targets [OF demo_bindings] by blast

subsection \<open>Network policy\<close>


lemma demo_nodeIPs:
  "nodeIPs refReconciler (freshRun demoCluster) = (Inr [''192.0.2.7''], (freshRun demoCluster)
     \<lparr>trace := [(ListObjects KNode ListAll, Items [ONode demoNode])]\<rparr>)"
  by (simp add: nodeIPs_def podCIDRsOf_def prog_defs store_defs demo_defs freshRun_def setInsert_def sortedKeys_def)

theorem nodeIPs_exact_witness:
  "\<exists>nodes. [(ListObjects KNode ListAll, Items [ONode demoNode])] = [(ListObjects KNode ListAll, Items (map ONode nodes))]
     \<and> {''192.0.2.7''} = \<Union> (nodeSources ` set nodes)"
  using nodeIPs_exact [OF _ demo_nodeIPs] by auto

theorem cidrSources_ipv4_witness:
  "cidrSources (string4 0x0A2A0300 @ ''/'' @ dec 24) = {string4 0x0A2A0300, string4 0x0A2A0301}"
  using cidrSources_ipv4 [of 24 "0x0A2A0300"] by simp

subsection \<open>Deletion and events\<close>

lemma draining_pass:
  "reconcileDelete refReconciler deletedVolume (freshRun drainingCluster) =
     (Inr (doneResult\<lparr>resRequeueAfter := 5000000000\<rparr>),
      snd (reconcileDelete refReconciler deletedVolume (freshRun drainingCluster)))"
  by (simp add: reconcileDelete_def markTerminating_def teardown_def prog_defs store_defs demo_defs freshRun_def
      setPhase_def build_defs Let_def requeueDelay_def)

lemma draining_volume:
  "storeLookup drainingCluster KSharedVolume ('''', ''data'') = Some (OSharedVolume deletedVolume)"
  "\<not> IsZero (omDeletionTimestamp (svMeta deletedVolume))"
  "finalizerName \<in> set (omFinalizers (svMeta deletedVolume))"
  "claimsLeft deletedVolume (storeLookup drainingCluster)"
proof -
  let ?pv = "BuildPV demoVolume ''team-a'' ''10.96.0.9''"
  have "ownPV deletedVolume (storeLookup drainingCluster) ?pv" "held deletedVolume (storeLookup drainingCluster) ?pv"
    by (simp_all add: ownPV_def held_def ownClaim_def store_defs demo_defs build_defs Let_def)
  then show "claimsLeft deletedVolume (storeLookup drainingCluster)" by (auto simp: claimsLeft_def)
qed (simp_all add: store_defs demo_defs)

lemma draining_collected:
  "find (isObject KPVC key) (clObjects (world (snd (Reconcile refReconciler ('''', ''data'') (freshRun drainingCluster))))) = None"
  by (simp add: Reconcile_def reconcileDelete_def markTerminating_def teardown_def prog_defs store_defs demo_defs freshRun_def
      setPhase_def build_defs Let_def requeueDelay_def)

theorem reconcileDelete_waits_witness:
  "list_all (\<lambda>(c, _). requirement c \<in> set waitFootprint)
     (trace (snd (reconcileDelete refReconciler deletedVolume (freshRun drainingCluster))))"
  using reconcileDelete_waits [OF _ draining_pass] by (simp add: doneResult_def)

theorem mapNamespace_exact_witness:
  "fst (mapNamespace refReconciler (nsMeta demoNamespace) (freshRun demoCluster)) = Inr [('''', ''data'')]"
proof -
  have "client refReconciler (world (freshRun demoCluster)) (ListObjects KSharedVolume ListAll)
      = (Items (map OSharedVolume [demoVolume]), demoCluster)"
    by (simp add: store_defs demoCluster_def)
  from mapNamespace_exact [OF this] show ?thesis by (simp add: selectsNamespace_def demo_defs)
qed

subsection \<open>A lost Service and a conflicting claim\<close>

definition newService :: Service where
  "newService = (BuildService demoVolume ''nfsz-system'')\<lparr>svcMeta :=
     projr (refSetControllerReference demoVolume (svcMeta (BuildService demoVolume ''nfsz-system'')))\<rparr>"

lemma recreate_replies:
  "client refReconciler boundCluster (Get KService (OperatorNamespace refReconciler, ServerName demoVolume))
     = (Failed NotFound, boundCluster)"
  "setControllerReference refReconciler demoVolume (svcMeta (BuildService demoVolume (OperatorNamespace refReconciler)))
     = Inr (svcMeta newService)"
  "client refReconciler boundCluster (Create (OService ((BuildService demoVolume (OperatorNamespace refReconciler))
       \<lparr>svcMeta := svcMeta newService\<rparr>))) =
     (Returned (OService (newService\<lparr>svcClusterIP := ''10.96.0.4''\<rparr>)),
      storePut boundCluster (OService (newService\<lparr>svcClusterIP := ''10.96.0.4''\<rparr>)))"
  "client refReconciler (storePut boundCluster (OService (newService\<lparr>svcClusterIP := ''10.96.0.4''\<rparr>)))
     (Get KService (ObjectKeyFromObject (OService (newService\<lparr>svcClusterIP := ''10.96.0.4''\<rparr>)))) =
     (Returned (OService (newService\<lparr>svcClusterIP := ''10.96.0.4''\<rparr>)),
      storePut boundCluster (OService (newService\<lparr>svcClusterIP := ''10.96.0.4''\<rparr>)))"
  by (simp_all add: newService_def refSetControllerReference_def boundCluster_def store_defs demo_defs build_defs
      Let_def dec.simps digit_table numeral_3_eq_3 [symmetric])

definition foreignClaim :: PersistentVolumeClaim where
  "foreignClaim = (BuildConsumerPVC demoVolume ''team-a'')\<lparr>pvcMeta := objectMeta ''data'' ''team-a'' Map.empty\<rparr>"

definition conflictCluster :: cluster where
  "conflictCluster = \<lparr>clObjects = [OPVC foreignClaim], clEvents = [], clNow = 1\<rparr>"

definition reservedPV :: PersistentVolume where
  "reservedPV = (BuildPV demoVolume ''team-a'' ''10.96.0.9'')\<lparr>pvMeta :=
     projr (refSetControllerReference demoVolume (pvMeta (BuildPV demoVolume ''team-a'' ''10.96.0.9'')))\<rparr>"

lemma conflict_replies:
  "client refReconciler conflictCluster (Get KPV ('''', PVName demoVolume ''team-a'')) = (Failed NotFound, conflictCluster)"
  "setControllerReference refReconciler demoVolume (pvMeta (BuildPV demoVolume ''team-a'' ''10.96.0.9'')) = Inr (pvMeta reservedPV)"
  "client refReconciler conflictCluster (Create (OPV ((BuildPV demoVolume ''team-a'' ''10.96.0.9'')\<lparr>pvMeta := pvMeta reservedPV\<rparr>)))
     = (Returned (OPV reservedPV), storePut conflictCluster (OPV reservedPV))"
  "client refReconciler (storePut conflictCluster (OPV reservedPV)) (Get KPVC (''team-a'', ConsumerPVCName demoVolume))
     = (Returned (OPVC foreignClaim), storePut conflictCluster (OPV reservedPV))"
  "mapGet (omLabels (pvcMeta foreignClaim)) LabelSharedVolume \<noteq> svName demoVolume"
  by (simp_all add: reservedPV_def foreignClaim_def conflictCluster_def refSetControllerReference_def store_defs
      demo_defs build_defs Let_def)

subsection \<open>A settled volume\<close>

definition restedVolume :: SharedVolume where
  "restedVolume = demoVolume\<lparr>svMeta := (svMeta demoVolume)\<lparr>omFinalizers := [finalizerName]\<rparr>\<rparr>"

definition settledCluster :: cluster where
  "settledCluster = demoCluster\<lparr>clObjects := [OSharedVolume restedVolume, ONamespace demoNamespace,
     ONamespace operatorNamespace, ONode demoNode, OPVC steadyBacking, OConfigMap steadyConf, ODeployment steadyServer,
     OService steadyService, OPV (BuildPV demoVolume ''team-a'' ''10.96.0.9''), OPVC (BuildConsumerPVC demoVolume ''team-a''),
     ONetworkPolicy (BuildNetworkPolicy demoVolume ''nfsz-system'' [''team-a''] [''192.0.2.7''] [])]\<rparr>"

lemmas settled_defs = settledCluster_def restedVolume_def steadyBacking_def steadyConf_def steadyServer_def
  steadyService_def

lemma settled_wanted: "wanted refReconciler restedVolume (storeLookup settledCluster) = (\<lambda>t. t = ''team-a'')"
  by (auto simp: fun_eq_iff wanted_def selectsNamespace_def settled_defs store_defs demo_defs build_defs
      BuildNetworkPolicy_def Let_def split: if_splits)

lemma settled_nodes:
  "{n. storeLookup settledCluster KNode ('''', omName (nodeMeta n)) = Some (ONode n)} = {demoNode}"
  by (auto simp: settled_defs store_defs demo_defs build_defs BuildNetworkPolicy_def Let_def split: if_splits)

lemma settled_parts:
  "storeLookup settledCluster KSharedVolume ('''', ''data'') = Some (OSharedVolume restedVolume)"
  "serverSettled refReconciler restedVolume (storeLookup settledCluster)"
  "pairSettled restedVolume (storeLookup settledCluster) ''team-a''"
  "noneStale restedVolume (\<lambda>t. t = ''team-a'') (storeLookup settledCluster)"
  "backupSettled refReconciler restedVolume (storeLookup settledCluster)"
  by (simp_all add: serverSettled_def pairSettled_def noneStale_def backupSettled_def backingKey_def needsRepair_def settled_defs
      store_defs demo_defs build_defs BuildNetworkPolicy_def deploymentDrifted_def Let_def)

lemma settled_policy: "policySettled refReconciler restedVolume (storeLookup settledCluster)"
proof -
  have sources: "nodeSources demoNode = {''192.0.2.7''}"
    by (auto simp: nodeSources_def demoNode_def podCIDRsOf_def)
  have policy: "storeLookup settledCluster KNetworkPolicy (''nfsz-system'', ServerName restedVolume) =
      Some (ONetworkPolicy (BuildNetworkPolicy demoVolume ''nfsz-system'' [''team-a''] [''192.0.2.7''] []))"
    by (simp add: settled_defs store_defs demo_defs build_defs BuildNetworkPolicy_def Let_def)
  have same: "BuildNetworkPolicy restedVolume = BuildNetworkPolicy demoVolume"
    by (rule same_builds(3)) (simp_all add: restedVolume_def)
  show ?thesis
  proof (rule policySettledI)
    show "askedIPs (storeLookup settledCluster) [''192.0.2.7'']"
      unfolding askedIPs_def settled_nodes by (simp add: sources)
    show "askedTargets refReconciler restedVolume (storeLookup settledCluster) [''team-a'']"
      by (simp add: askedTargets_def settled_wanted)
    show "specNetworkPolicy (svSpec restedVolume) \<noteq> NetworkPolicyDisabled" by (simp add: restedVolume_def demo_defs)
  qed (use policy in \<open>simp_all add: same\<close>)
qed

lemma settled_volume: "settled refReconciler restedVolume (storeLookup settledCluster)" "consistent settledCluster"
proof -
  have "seedSettled refReconciler restedVolume" "selectorParses refReconciler restedVolume"
    by (simp_all add: seedSettled_def selectorParses_def restedVolume_def demo_defs)
  then show "settled refReconciler restedVolume (storeLookup settledCluster)"
    using settled_parts settled_policy unfolding settled_def settled_wanted by (simp add: restedVolume_def demo_defs)
  show "consistent settledCluster"
    by (simp add: consistent_def sound_def leaving_def backup_admitted_def ObjectKeyFromObject_def settled_defs demo_defs
        build_defs BuildNetworkPolicy_def Let_def)
qed

subsection \<open>A volume that has drifted\<close>

text \<open>
  An old configuration, an old server image and a PV that was released by a deleted claim; the backing claim, the
  Service, the consumer claim, the policy and the finalizer are missing.
\<close>

definition releasedPV :: PersistentVolume where
  "releasedPV = (let pv = BuildPV demoVolume ''team-a'' ''10.96.0.9'' in pv\<lparr>pvPhase := VolumeReleased,
     pvSpec := (pvSpec pv)\<lparr>pvClaimRef := map_option (\<lambda>ref. ref\<lparr>refUID := ''u-1''\<rparr>) (pvClaimRef (pvSpec pv))\<rparr>\<rparr>)"

definition driftedCluster :: cluster where
  "driftedCluster = demoCluster\<lparr>clObjects := [OSharedVolume demoVolume, ONamespace demoNamespace,
     ONamespace operatorNamespace, ONode demoNode, OConfigMap (steadyConf\<lparr>cmData := [''ganesha.conf'' \<mapsto> ''old'']\<rparr>),
     ODeployment (BuildServerDeployment demoVolume ''nfsz-system'' ''ganesha:0'' steadyConf), OPV releasedPV]\<rparr>"

lemma drifted_volume:
  "consistent driftedCluster" "storeLookup driftedCluster KSharedVolume ('''', ''data'') = Some (OSharedVolume demoVolume)"
  "IsZero (omDeletionTimestamp (svMeta demoVolume))" "needsRepair releasedPV"
  by (simp_all add: driftedCluster_def releasedPV_def needsRepair_def consistent_def sound_def leaving_def
      backup_admitted_def steadyConf_def store_defs demo_defs build_defs Let_def)

lemma drifted_wanted: "wanted refReconciler demoVolume (storeLookup driftedCluster) = (\<lambda>t. t = ''team-a'')"
  by (auto simp: fun_eq_iff wanted_def selectsNamespace_def driftedCluster_def releasedPV_def steadyConf_def store_defs
      demo_defs build_defs Let_def split: if_splits)

lemma drifted_undisputed: "undisputed refReconciler demoVolume (storeLookup driftedCluster)"
  "seedDecided refReconciler demoVolume (storeLookup driftedCluster)"
proof -
  show "seedDecided refReconciler demoVolume (storeLookup driftedCluster)"
    by (simp add: seedDecided_def seedSettled_def demo_defs)
  have "selectorParses refReconciler demoVolume" by (simp add: selectorParses_def demo_defs)
  moreover have "namespaceReady (storeLookup driftedCluster) ''nfsz-system''"
    by (simp add: driftedCluster_def releasedPV_def steadyConf_def store_defs demo_defs build_defs Let_def)
  moreover have "ownVolumes demoVolume (storeLookup driftedCluster)"
    by (auto simp: ownVolumes_def reservedFor_def driftedCluster_def releasedPV_def steadyConf_def store_defs demo_defs
        build_defs Let_def split: if_splits)
  moreover have "noneStale demoVolume (\<lambda>t. t = ''team-a'') (storeLookup driftedCluster)"
    by (auto simp: noneStale_def driftedCluster_def releasedPV_def steadyConf_def store_defs demo_defs
        build_defs Let_def split: if_splits)
  moreover have "ownClaims demoVolume (\<lambda>t. t = ''team-a'') (storeLookup driftedCluster)"
    "unheld (storeLookup driftedCluster KCronJob (''nfsz-system'', BackupCronJobName demoVolume))"
    "unheld (storeLookup driftedCluster KNetworkPolicy (''nfsz-system'', ServerName demoVolume))"
    by (simp_all add: ownClaims_def unheld_def driftedCluster_def releasedPV_def steadyConf_def store_defs demo_defs
        build_defs Let_def)
  ultimately show "undisputed refReconciler demoVolume (storeLookup driftedCluster)"
    by (simp add: undisputed_def drifted_wanted)
qed

end
