(* ===== verification/GoHeap.thy ===== *)
theory GoHeap
  imports SharedVolumeTypes
begin

text \<open>
  Go memory as far as the generated deep copies see it: structs as they are laid out, with addresses where the
  source has pointers and slice headers, a heap of typed cells, and the statements the generated code is made
  of (assign a struct, allocate and fill a pointer, allocate and fill a slice). \<open>deep_copier\<close> is their
  contract: a copy reads back as the same value, shares no cell with what was there before, and changes none
  of it. Each statement keeps it.
\<close>

subsection \<open>Layout\<close>

type_synonym addr = nat

text \<open>A pointer or a slice is \<open>None\<close> when it is nil.\<close>

record slice =
  slArray :: addr
  slOffset :: nat
  slLen :: nat

record GoBackupDestination =
  gdHostPath :: "addr option"

record GoBackupSpec =
  gbSchedule :: string
  gbDestination :: GoBackupDestination
  gbSuspend :: "addr option"
  gbRestorePolicy :: RestorePolicy

record GoNamespaceSelection =
  gnNames :: "slice option"
  gnSelector :: "addr option"

text \<open>\<open>'x\<close> stands for the struct values of library types (ObjectMeta, ListMeta, LabelSelector, Condition, Quantity).\<close>

record 'x GoSharedVolumeSpec =
  gsCapacity :: 'x
  gsStorageClassName :: "addr option"
  gsNamespaces :: GoNamespaceSelection
  gsReclaimPolicy :: ReclaimPolicy
  gsNetworkPolicy :: NetworkPolicyMode
  gsBackup :: "addr option"

record GoSharedVolumeStatus =
  gtPhase :: SharedVolumePhase
  gtServerEndpoint :: string
  gtBackingPVC :: string
  gtBoundSummary :: string
  gtBindings :: "slice option"
  gtLastBackupTime :: "addr option"
  gtObservedGeneration :: int
  gtConditions :: "slice option"

record 'x GoSharedVolume =
  gvTypeMeta :: "string \<times> string"
  gvMeta :: 'x
  gvSpec :: "'x GoSharedVolumeSpec"
  gvStatus :: GoSharedVolumeStatus

record 'x GoSharedVolumeList =
  glTypeMeta :: "string \<times> string"
  glMeta :: 'x
  glItems :: "slice option"

subsection \<open>The heap\<close>

datatype 'x cell = StringCell string | BoolCell bool | HostPathCell HostPathDestination | BindingCell NamespaceBinding
  | DestinationCell GoBackupDestination | BackupCell GoBackupSpec | SelectionCell GoNamespaceSelection
  | SpecCell "'x GoSharedVolumeSpec" | StatusCell GoSharedVolumeStatus | VolumeCell "'x GoSharedVolume"
  | ListCell "'x GoSharedVolumeList" | ExternalCell 'x | StringArray "string list" | BindingArray "NamespaceBinding list"
  | ExternalArray "'x list" | VolumeArray "'x GoSharedVolume list"

type_synonym 'x cells = "addr \<Rightarrow> 'x cell option"

record 'x heap =
  hpCells :: "'x cells"
  hpNext :: addr

definition well_formed :: "'x heap \<Rightarrow> bool" where
  "well_formed h = (\<forall>a. hpCells h a \<noteq> None \<longrightarrow> a < hpNext h)"

definition allocate :: "'x cell \<Rightarrow> 'x heap \<Rightarrow> addr \<times> 'x heap" where
  "allocate c h = (hpNext h, h\<lparr>hpCells := (hpCells h)(hpNext h \<mapsto> c), hpNext := Suc (hpNext h)\<rparr>)"

definition store :: "addr \<Rightarrow> 'x cell \<Rightarrow> 'x heap \<Rightarrow> 'x heap" where
  "store a c h = h\<lparr>hpCells := (hpCells h)(a \<mapsto> c)\<rparr>"

text \<open>The heap grew: what was there is untouched.\<close>

definition extends :: "'x heap \<Rightarrow> 'x heap \<Rightarrow> bool" where
  "extends h h' = (well_formed h' \<and> hpNext h \<le> hpNext h' \<and> (\<forall>a < hpNext h. hpCells h' a = hpCells h a))"

lemma extends_refl [simp]: "extends h h = well_formed h"
  by (simp add: extends_def)

lemma extends_trans: "extends h h' \<Longrightarrow> extends h' h'' \<Longrightarrow> extends h h''"
  by (auto simp: extends_def)

lemma extends_allocate: "well_formed h \<Longrightarrow> extends h (snd (allocate c h))"
  by (auto simp: extends_def allocate_def well_formed_def less_Suc_eq)

lemma extends_store: "extends h h' \<Longrightarrow> hpNext h \<le> a \<Longrightarrow> a < hpNext h' \<Longrightarrow> extends h (store a c h')"
  by (auto simp: extends_def store_def well_formed_def)

lemma extends_well_formed: "extends h h' \<Longrightarrow> well_formed h'"
  by (simp add: extends_def)

subsection \<open>Statements of the generated code\<close>

type_synonym ('x, 'g) copier = "'g \<Rightarrow> 'x heap \<Rightarrow> ('g \<times> 'x heap) option"

text \<open>\<^verbatim>\<open>*out = *in\<close> of a type without pointers, and of the strings of a slice.\<close>

definition copyPlain :: "('x, 'g) copier" where
  "copyPlain g h = Some (g, h)"

text \<open>Two copies in a row, of different fields.\<close>

definition copyBoth :: "('x, 'f) copier \<Rightarrow> ('x, 'g) copier \<Rightarrow> ('x, 'f \<times> 'g) copier" where
  "copyBoth c d = (\<lambda>(f, g) h. case c f h of None \<Rightarrow> None
     | Some (f', h1) \<Rightarrow> (case d g h1 of None \<Rightarrow> None | Some (g', h2) \<Rightarrow> Some ((f', g'), h2)))"

text \<open>\<^verbatim>\<open>*out = *in\<close> followed by the copies of the fields that hold pointers.\<close>

definition copyStruct :: "('s \<Rightarrow> 'f) \<Rightarrow> ('f \<Rightarrow> 's \<Rightarrow> 's) \<Rightarrow> ('x, 'f) copier \<Rightarrow> ('x, 's) copier" where
  "copyStruct get upd c s h = (case c (get s) h of None \<Rightarrow> None | Some (f, h') \<Rightarrow> Some (upd f s, h'))"

text \<open>
  \<^verbatim>\<open>if in != nil { *out = new(T); (*in).DeepCopyInto(*out) }\<close>, where \<open>un\<close> and \<open>mk\<close> read and make cells of \<^verbatim>\<open>T\<close>. The
  new cell first holds the struct as assigned and then its copy. A dangling or ill-typed pointer, which Go
  excludes, is \<open>None\<close>.
\<close>

definition copyPointer :: "('x cell \<Rightarrow> 's option) \<Rightarrow> ('s \<Rightarrow> 'x cell) \<Rightarrow> ('x, 's) copier \<Rightarrow> ('x, addr option) copier" where
  "copyPointer un mk c p h = (case p of None \<Rightarrow> Some (None, h)
     | Some a \<Rightarrow> (case Option.bind (hpCells h a) un of None \<Rightarrow> None
         | Some s \<Rightarrow> (case allocate (mk s) h of (b, h1) \<Rightarrow>
             (case c s h1 of None \<Rightarrow> None | Some (t, h2) \<Rightarrow> Some (Some b, store b (mk t) h2)))))"

text \<open>\<^verbatim>\<open>if in != nil { *out = (*in).DeepCopy() }\<close>\<close>

definition copyUnlessNil :: "('x, addr) copier \<Rightarrow> ('x, addr option) copier" where
  "copyUnlessNil c p h = (case p of None \<Rightarrow> Some (None, h)
     | Some a \<Rightarrow> (case c a h of None \<Rightarrow> None | Some (b, h') \<Rightarrow> Some (Some b, h')))"

fun copyEach :: "('x, 's) copier \<Rightarrow> ('x, 's list) copier" where
  "copyEach c [] h = Some ([], h)"
| "copyEach c (s # ss) h = (case c s h of None \<Rightarrow> None
     | Some (t, h1) \<Rightarrow> (case copyEach c ss h1 of None \<Rightarrow> None | Some (ts, h2) \<Rightarrow> Some (t # ts, h2)))"

definition elements :: "('x cell \<Rightarrow> 's list option) \<Rightarrow> 'x cells \<Rightarrow> slice \<Rightarrow> 's list option" where
  "elements un m s = (case Option.bind (m (slArray s)) un of None \<Rightarrow> None
     | Some xs \<Rightarrow> if slOffset s + slLen s \<le> length xs then Some (take (slLen s) (drop (slOffset s) xs)) else None)"

text \<open>\<^verbatim>\<open>if in != nil { *out = make([]T, len(*in)); for i := range *in { (*in)[i].DeepCopyInto(&(*out)[i]) } }\<close>\<close>

definition copySlice :: "('x cell \<Rightarrow> 's list option) \<Rightarrow> ('s list \<Rightarrow> 'x cell) \<Rightarrow> ('x, 's) copier \<Rightarrow> ('x, slice option) copier" where
  "copySlice un mk c p h = (case p of None \<Rightarrow> Some (None, h)
     | Some s \<Rightarrow> (case elements un (hpCells h) s of None \<Rightarrow> None
         | Some xs \<Rightarrow> (case allocate (mk xs) h of (b, h1) \<Rightarrow>
             (case copyEach c xs h1 of None \<Rightarrow> None
              | Some (ys, h2) \<Rightarrow> Some (Some \<lparr>slArray = b, slOffset = 0, slLen = length ys\<rparr>, store b (mk ys) h2)))))"

subsection \<open>What a struct in the heap stands for\<close>

text \<open>A reader gives the value of a struct and the addresses it is made of.\<close>

type_synonym ('x, 'g, 'v) reader = "'x cells \<Rightarrow> 'g \<Rightarrow> ('v \<times> addr list) option"

definition readPlain :: "('x, 'g, 'g) reader" where
  "readPlain m g = Some (g, [])"

definition readBoth :: "('x, 'f, 'v) reader \<Rightarrow> ('x, 'g, 'u) reader \<Rightarrow> ('x, 'f \<times> 'g, 'v \<times> 'u) reader" where
  "readBoth r q m = (\<lambda>(f, g). case r m f of None \<Rightarrow> None
     | Some (v, as) \<Rightarrow> (case q m g of None \<Rightarrow> None | Some (u, bs) \<Rightarrow> Some ((v, u), as @ bs)))"

definition readStruct :: "('s \<Rightarrow> 'f) \<Rightarrow> ('s \<Rightarrow> 'v \<Rightarrow> 'u) \<Rightarrow> ('x, 'f, 'v) reader \<Rightarrow> ('x, 's, 'u) reader" where
  "readStruct get build r m s = (case r m (get s) of None \<Rightarrow> None | Some (v, as) \<Rightarrow> Some (build s v, as))"

definition readPointer :: "('x cell \<Rightarrow> 's option) \<Rightarrow> ('x, 's, 'v) reader \<Rightarrow> ('x, addr option, 'v option) reader" where
  "readPointer un r m p = (case p of None \<Rightarrow> Some (None, [])
     | Some a \<Rightarrow> (case Option.bind (m a) un of None \<Rightarrow> None
         | Some s \<Rightarrow> (case r m s of None \<Rightarrow> None | Some (v, as) \<Rightarrow> Some (Some v, a # as))))"

definition readUnlessNil :: "('x, addr, 'v) reader \<Rightarrow> ('x, addr option, 'v option) reader" where
  "readUnlessNil r m p = (case p of None \<Rightarrow> Some (None, [])
     | Some a \<Rightarrow> (case r m a of None \<Rightarrow> None | Some (v, as) \<Rightarrow> Some (Some v, as)))"

fun readEach :: "('x, 's, 'v) reader \<Rightarrow> ('x, 's list, 'v list) reader" where
  "readEach r m [] = Some ([], [])"
| "readEach r m (s # ss) = (case r m s of None \<Rightarrow> None
     | Some (v, as) \<Rightarrow> (case readEach r m ss of None \<Rightarrow> None | Some (vs, bs) \<Rightarrow> Some (v # vs, as @ bs)))"

definition readSlice :: "('x cell \<Rightarrow> 's list option) \<Rightarrow> ('x, 's, 'v) reader \<Rightarrow> ('x, slice option, 'v list option) reader" where
  "readSlice un r m p = (case p of None \<Rightarrow> Some (None, [])
     | Some s \<Rightarrow> (case elements un m s of None \<Rightarrow> None
         | Some xs \<Rightarrow> (case readEach r m xs of None \<Rightarrow> None | Some (vs, as) \<Rightarrow> Some (Some vs, slArray s # as))))"

subsection \<open>The contract\<close>

locale deep_copier =
  fixes copy :: "('x, 'g) copier" and reads :: "('x, 'g, 'v) reader"
  assumes reads_frame: "reads m g = Some (v, as) \<Longrightarrow> (\<And>a. a \<in> set as \<Longrightarrow> m' a = m a) \<Longrightarrow> reads m' g = Some (v, as)"
    and reads_dom: "reads m g = Some (v, as) \<Longrightarrow> a \<in> set as \<Longrightarrow> m a \<noteq> None"
    and copies: "well_formed h \<Longrightarrow> reads (hpCells h) g = Some (v, as) \<Longrightarrow>
      \<exists>g' h' bs. copy g h = Some (g', h') \<and> extends h h' \<and> reads (hpCells h') g' = Some (v, bs)
        \<and> (\<forall>b \<in> set bs. hpNext h \<le> b)"
begin

lemma reads_extends:
  assumes "well_formed h" "extends h h'" "reads (hpCells h) g = Some (v, as)"
  shows "reads (hpCells h') g = Some (v, as)"
  using assms reads_dom [OF assms(3)] by (intro reads_frame [OF assms(3)]) (auto simp: extends_def well_formed_def)

text \<open>
  The copy and the original live apart: whatever is later written into cells of the one leaves the value of
  the other.
\<close>

lemma apart:
  assumes "well_formed h" "reads (hpCells h) g = Some (v, as)" "copy g h = Some (g', h')"
  obtains bs where "reads (hpCells h') g = Some (v, as)" "reads (hpCells h') g' = Some (v, bs)" "set as \<inter> set bs = {}"
    "extends h h'" "\<And>b. b \<in> set bs \<Longrightarrow> hpCells h b = None"
proof -
  obtain bs where c: "extends h h'" "reads (hpCells h') g' = Some (v, bs)" "\<forall>b \<in> set bs. hpNext h \<le> b"
    using copies [OF assms(1,2)] assms(3) by auto
  have new: "hpCells h b = None" if "b \<in> set bs" for b
    using c(3) that assms(1) by (fastforce simp: well_formed_def)
  then have "set as \<inter> set bs = {}" using reads_dom [OF assms(2)] by blast
  with c new reads_extends [OF assms(1) c(1) assms(2)] that show ?thesis by blast
qed

lemma independent:
  assumes "well_formed h" "reads (hpCells h) g = Some (v, as)" "copy g h = Some (g', h')"
  shows "(\<And>a. hpCells h a \<noteq> None \<Longrightarrow> m a = hpCells h' a) \<Longrightarrow> reads m g = Some (v, as)"
    and "(\<And>a. hpCells h a = None \<Longrightarrow> m a = hpCells h' a) \<Longrightarrow> \<exists>bs. reads m g' = Some (v, bs)"
proof -
  obtain bs where bs: "reads (hpCells h') g = Some (v, as)" "reads (hpCells h') g' = Some (v, bs)"
    "\<And>b. b \<in> set bs \<Longrightarrow> hpCells h b = None"
    using apart [OF assms] by metis
  show "reads m g = Some (v, as)" if "\<And>a. hpCells h a \<noteq> None \<Longrightarrow> m a = hpCells h' a"
    by (rule reads_frame [OF bs(1)]) (use that reads_dom [OF assms(2)] in blast)
  show "\<exists>bs. reads m g' = Some (v, bs)" if "\<And>a. hpCells h a = None \<Longrightarrow> m a = hpCells h' a"
    using reads_frame [OF bs(2), of m] that bs(3) by blast
qed

end

subsection \<open>Every statement keeps it\<close>

lemma readBoth_iff: "readBoth r q m g = Some (v, as) \<longleftrightarrow> (\<exists>x xs y ys. v = (x, y) \<and> as = xs @ ys
    \<and> r m (fst g) = Some (x, xs) \<and> q m (snd g) = Some (y, ys))"
  by (cases g) (auto simp: readBoth_def split: option.splits prod.splits)

lemma readStruct_iff: "readStruct get build r m s = Some (v, as) \<longleftrightarrow> (\<exists>x. v = build s x \<and> r m (get s) = Some (x, as))"
  by (auto simp: readStruct_def split: option.splits prod.splits)

lemma deep_copier_plain: "deep_copier copyPlain readPlain"
  by unfold_locales (auto simp: readPlain_def copyPlain_def)

lemma deep_copier_both:
  assumes "deep_copier c r" "deep_copier d q"
  shows "deep_copier (copyBoth c d) (readBoth r q)"
proof -
  show ?thesis
  proof
    fix m m' g v as
    assume "readBoth r q m g = Some (v, as)" and same: "\<And>a. a \<in> set as \<Longrightarrow> m' a = m a"
    then obtain x xs y ys where v: "v = (x, y)" "as = xs @ ys" "r m (fst g) = Some (x, xs)" "q m (snd g) = Some (y, ys)"
      by (auto simp: readBoth_iff)
    have "r m' (fst g) = Some (x, xs)" by (rule deep_copier.reads_frame [OF assms(1) v(3)]) (simp add: same v(2))
    moreover have "q m' (snd g) = Some (y, ys)" by (rule deep_copier.reads_frame [OF assms(2) v(4)]) (simp add: same v(2))
    ultimately show "readBoth r q m' g = Some (v, as)" by (simp add: readBoth_iff v(1,2))
  next
    fix m g v as a
    assume "readBoth r q m g = Some (v, as)" "a \<in> set as"
    then show "m a \<noteq> None"
      using deep_copier.reads_dom [OF assms(1)] deep_copier.reads_dom [OF assms(2)]
      by (clarsimp simp: readBoth_iff) blast
  next
    fix h g v as
    assume h: "well_formed h" and "readBoth r q (hpCells h) g = Some (v, as)"
    then obtain f e x y xs ys where g: "g = (f, e)" "v = (x, y)" "as = xs @ ys"
      "r (hpCells h) f = Some (x, xs)" "q (hpCells h) e = Some (y, ys)"
      by (cases g) (auto simp: readBoth_iff)
    obtain f' h1 us where f: "c f h = Some (f', h1)" "extends h h1" "r (hpCells h1) f' = Some (x, us)"
      "\<forall>b \<in> set us. hpNext h \<le> b"
      using deep_copier.copies [OF assms(1) h g(4)] by blast
    obtain e' h2 vs where e: "d e h1 = Some (e', h2)" "extends h1 h2" "q (hpCells h2) e' = Some (y, vs)"
      "\<forall>b \<in> set vs. hpNext h1 \<le> b"
      using deep_copier.copies [OF assms(2) _ deep_copier.reads_extends [OF assms(2) h f(2) g(5)]]
        extends_well_formed [OF f(2)] by blast
    have "r (hpCells h2) f' = Some (x, us)"
      using deep_copier.reads_extends [OF assms(1) extends_well_formed [OF f(2)] e(2) f(3)] .
    moreover have "\<forall>b \<in> set (us @ vs). hpNext h \<le> b"
      using f(2,4) e(4) by (auto simp: extends_def)
    moreover have "extends h h2" using f(2) e(2) by (rule extends_trans)
    ultimately show "\<exists>g' h' bs. copyBoth c d g h = Some (g', h') \<and> extends h h'
        \<and> readBoth r q (hpCells h') g' = Some (v, bs) \<and> (\<forall>b \<in> set bs. hpNext h \<le> b)"
      using g f e by (simp add: copyBoth_def readBoth_def)
  qed
qed

lemma deep_copier_struct:
  assumes "deep_copier c r" "\<And>f s. get (upd f s) = f" "\<And>f s. build (upd f s) = build s"
  shows "deep_copier (copyStruct get upd c) (readStruct get build r)"
proof
  fix m m' g v as
  assume "readStruct get build r m g = Some (v, as)" and same: "\<And>a. a \<in> set as \<Longrightarrow> m' a = m a"
  then obtain x where x: "v = build g x" "r m (get g) = Some (x, as)" by (auto simp: readStruct_iff)
  have "r m' (get g) = Some (x, as)" by (rule deep_copier.reads_frame [OF assms(1) x(2)]) (rule same)
  then show "readStruct get build r m' g = Some (v, as)" by (simp add: readStruct_iff x(1))
next
  fix m g v as a
  assume "readStruct get build r m g = Some (v, as)" "a \<in> set as"
  then show "m a \<noteq> None"
    using deep_copier.reads_dom [OF assms(1)] by (auto simp: readStruct_iff)
next
  fix h g v as
  assume h: "well_formed h" and "readStruct get build r (hpCells h) g = Some (v, as)"
  then obtain x where "r (hpCells h) (get g) = Some (x, as)" "v = build g x"
    by (auto simp: readStruct_iff)
  with deep_copier.copies [OF assms(1) h this(1)] assms(2,3)
  show "\<exists>g' h' bs. copyStruct get upd c g h = Some (g', h') \<and> extends h h'
      \<and> readStruct get build r (hpCells h') g' = Some (v, bs) \<and> (\<forall>b \<in> set bs. hpNext h \<le> b)"
    by (fastforce simp: copyStruct_def readStruct_iff)
qed

lemma readPointer_iff: "readPointer un r m p = Some (u, as) \<longleftrightarrow> (case p of None \<Rightarrow> u = None \<and> as = []
    | Some a \<Rightarrow> \<exists>s v bs. Option.bind (m a) un = Some s \<and> r m s = Some (v, bs) \<and> u = Some v \<and> as = a # bs)"
  by (auto simp: readPointer_def split: option.splits prod.splits)

lemma fresh_cell:
  assumes "well_formed h" "allocate c h = (b, h1)"
  shows "well_formed h1" "extends h h1" "b = hpNext h" "hpNext h1 = Suc b"
proof -
  show ext: "extends h h1" using extends_allocate [OF assms(1), of c] assms(2) by simp
  then show "well_formed h1" by (rule extends_well_formed)
  show "b = hpNext h" "hpNext h1 = Suc b" using assms(2) by (auto simp: allocate_def)
qed

text \<open>Filling the new cell last keeps what was copied meanwhile.\<close>

lemma fill_cell:
  assumes "extends h h1" "b = hpNext h" "hpNext h1 = Suc b" "extends h1 h2"
  shows "extends h (store b c h2)" "hpCells (store b c h2) b = Some c"
    "hpNext h1 \<le> a \<Longrightarrow> hpCells (store b c h2) a = hpCells h2 a"
proof -
  have "extends h h2" "b < hpNext h2" using extends_trans [OF assms(1,4)] assms by (auto simp: extends_def)
  then show "extends h (store b c h2)" using assms(2) by (intro extends_store) auto
qed (use assms(3) in \<open>auto simp: store_def\<close>)

lemma deep_copier_pointer:
  assumes "deep_copier c r" "\<And>s. un (mk s) = Some s"
  shows "deep_copier (copyPointer un mk c) (readPointer un r)"
proof
  fix m m' p u as
  assume read: "readPointer un r m p = Some (u, as)" and same: "\<And>a. a \<in> set as \<Longrightarrow> m' a = m a"
  show "readPointer un r m' p = Some (u, as)"
  proof (cases p)
    case (Some a)
    with read obtain s v bs where s: "Option.bind (m a) un = Some s" "r m s = Some (v, bs)" "u = Some v" "as = a # bs"
      by (auto simp: readPointer_iff)
    have "r m' s = Some (v, bs)" by (rule deep_copier.reads_frame [OF assms(1) s(2)]) (simp add: same s(4))
    then show ?thesis using s Some same [of a] by (simp add: readPointer_iff)
  qed (use read in \<open>simp add: readPointer_iff\<close>)
next
  fix m p u as a
  assume "readPointer un r m p = Some (u, as)" "a \<in> set as"
  then show "m a \<noteq> None"
    using deep_copier.reads_dom [OF assms(1)] by (auto simp: readPointer_iff bind_eq_Some_conv split: option.splits)
next
  fix h p u as
  assume h: "well_formed h" and read: "readPointer un r (hpCells h) p = Some (u, as)"
  show "\<exists>q h' bs. copyPointer un mk c p h = Some (q, h') \<and> extends h h'
      \<and> readPointer un r (hpCells h') q = Some (u, bs) \<and> (\<forall>b \<in> set bs. hpNext h \<le> b)"
  proof (cases p)
    case None
    then show ?thesis using h read by (auto simp: copyPointer_def readPointer_iff)
  next
    case (Some a)
    with read obtain s v xs where s: "Option.bind (hpCells h a) un = Some s" "r (hpCells h) s = Some (v, xs)" "u = Some v"
      by (auto simp: readPointer_iff)
    obtain b h1 where b: "allocate (mk s) h = (b, h1)" by fastforce
    note f = fresh_cell [OF h b]
    obtain t h2 ys where t: "c s h1 = Some (t, h2)" "extends h1 h2" "r (hpCells h2) t = Some (v, ys)"
      "\<forall>b \<in> set ys. hpNext h1 \<le> b"
      using deep_copier.copies [OF assms(1) f(1) deep_copier.reads_extends [OF assms(1) h f(2) s(2)]] by blast
    note g = fill_cell [OF f(2-4) t(2), where c = "mk t"]
    have "r (hpCells (store b (mk t) h2)) t = Some (v, ys)"
      by (rule deep_copier.reads_frame [OF assms(1) t(3)]) (use t(4) g(3) in blast)
    moreover have "\<forall>x \<in> set (b # ys). hpNext h \<le> x" using t(4) f(3,4) by auto
    ultimately show ?thesis
      using Some s b t(1) g(1,2) assms(2) by (auto simp: copyPointer_def readPointer_iff)
  qed
qed

lemma readEach_Cons: "readEach r m (s # ss) = Some (vs, cs) \<longleftrightarrow> (\<exists>v as us bs. vs = v # us \<and> cs = as @ bs
    \<and> r m s = Some (v, as) \<and> readEach r m ss = Some (us, bs))"
  by (auto split: option.splits prod.splits)

lemma deep_copier_each:
  assumes "deep_copier c r"
  shows "deep_copier (copyEach c) (readEach r)"
proof -
  have frame: "readEach r m' ss = Some (vs, as)"
    if "readEach r m ss = Some (vs, as)" "\<And>a. a \<in> set as \<Longrightarrow> m' a = m a" for m m' ss vs as
    using that
  proof (induction ss arbitrary: vs as)
    case (Cons s ss)
    then obtain v xs us ys where v: "vs = v # us" "as = xs @ ys" "r m s = Some (v, xs)" "readEach r m ss = Some (us, ys)"
      by (auto simp: readEach_Cons simp del: readEach.simps)
    have "r m' s = Some (v, xs)" by (rule deep_copier.reads_frame [OF assms v(3)]) (simp add: Cons.prems(2) v(2))
    with Cons.IH [OF v(4)] Cons.prems(2) v show ?case by simp
  qed simp
  have dom: "m a \<noteq> None" if "readEach r m ss = Some (vs, as)" "a \<in> set as" for m ss vs as a
    using that
  proof (induction ss arbitrary: vs as)
    case (Cons s ss)
    then show ?case using deep_copier.reads_dom [OF assms] by (fastforce simp: readEach_Cons simp del: readEach.simps)
  qed simp
  have copies: "\<exists>ts h' bs. copyEach c ss h = Some (ts, h') \<and> extends h h'
      \<and> readEach r (hpCells h') ts = Some (vs, bs) \<and> (\<forall>b \<in> set bs. hpNext h \<le> b)"
    if "well_formed h" "readEach r (hpCells h) ss = Some (vs, as)" for h ss vs as
    using that
  proof (induction ss arbitrary: h vs as)
    case (Cons s ss)
    then obtain v xs us ys where v: "vs = v # us" "r (hpCells h) s = Some (v, xs)" "readEach r (hpCells h) ss = Some (us, ys)"
      by (auto simp: readEach_Cons simp del: readEach.simps)
    obtain t h1 ps where t: "c s h = Some (t, h1)" "extends h h1" "r (hpCells h1) t = Some (v, ps)"
      "\<forall>b \<in> set ps. hpNext h \<le> b"
      using deep_copier.copies [OF assms Cons.prems(1) v(2)] by blast
    have "readEach r (hpCells h1) ss = Some (us, ys)"
      by (rule frame [OF v(3)]) (use dom [OF v(3)] t(2) Cons.prems(1) in \<open>auto simp: extends_def well_formed_def\<close>)
    from Cons.IH [OF extends_well_formed [OF t(2)] this] obtain ts h2 qs where u: "copyEach c ss h1 = Some (ts, h2)"
      "extends h1 h2" "readEach r (hpCells h2) ts = Some (us, qs)" "\<forall>b \<in> set qs. hpNext h1 \<le> b"
      by blast
    have "r (hpCells h2) t = Some (v, ps)"
      by (rule deep_copier.reads_extends [OF assms extends_well_formed [OF t(2)] u(2) t(3)])
    moreover have "\<forall>b \<in> set (ps @ qs). hpNext h \<le> b" using t(2,4) u(4) by (auto simp: extends_def)
    ultimately show ?case using t(1) u v(1) extends_trans [OF t(2) u(2)] by simp
  qed simp
  show ?thesis
    by (rule deep_copier.intro) (fact frame dom copies)+
qed


lemma elements_frame: "m' (slArray s) = m (slArray s) \<Longrightarrow> elements un m' s = elements un m s"
  by (simp add: elements_def)

lemma readSlice_iff: "readSlice un r m p = Some (u, as) \<longleftrightarrow> (case p of None \<Rightarrow> u = None \<and> as = []
    | Some s \<Rightarrow> \<exists>xs vs bs. elements un m s = Some xs \<and> readEach r m xs = Some (vs, bs) \<and> u = Some vs \<and> as = slArray s # bs)"
  by (auto simp: readSlice_def split: option.splits prod.splits)

lemma deep_copier_slice:
  assumes "deep_copier c r" "\<And>xs. un (mk xs) = Some xs"
  shows "deep_copier (copySlice un mk c) (readSlice un r)"
proof
  note each = deep_copier_each [OF assms(1)]
  {
    fix m m' p u as
    assume read: "readSlice un r m p = Some (u, as)" and same: "\<And>a. a \<in> set as \<Longrightarrow> m' a = m a"
    show "readSlice un r m' p = Some (u, as)"
    proof (cases p)
      case (Some s)
      with read obtain xs vs bs where s: "elements un m s = Some xs" "readEach r m xs = Some (vs, bs)" "u = Some vs"
        "as = slArray s # bs" by (auto simp: readSlice_iff)
      have "readEach r m' xs = Some (vs, bs)" by (rule deep_copier.reads_frame [OF each s(2)]) (simp add: same s(4))
      then show ?thesis using s Some elements_frame [of m' s m un] same by (simp add: readSlice_iff)
    qed (use read in \<open>simp add: readSlice_iff\<close>)
  }
  {
    fix m p u as a
    assume "readSlice un r m p = Some (u, as)" "a \<in> set as"
    then show "m a \<noteq> None"
      using deep_copier.reads_dom [OF each]
      by (auto simp: readSlice_iff elements_def bind_eq_Some_conv split: option.splits if_splits)
  }
  fix h p u as
  assume h: "well_formed h" and read: "readSlice un r (hpCells h) p = Some (u, as)"
  show "\<exists>q h' bs. copySlice un mk c p h = Some (q, h') \<and> extends h h'
      \<and> readSlice un r (hpCells h') q = Some (u, bs) \<and> (\<forall>b \<in> set bs. hpNext h \<le> b)"
  proof (cases p)
    case None
    then show ?thesis using h read by (auto simp: copySlice_def readSlice_iff)
  next
    case (Some s)
    with read obtain xs vs ps where s: "elements un (hpCells h) s = Some xs" "readEach r (hpCells h) xs = Some (vs, ps)"
      "u = Some vs" by (auto simp: readSlice_iff)
    obtain b h1 where b: "allocate (mk xs) h = (b, h1)" by fastforce
    note f = fresh_cell [OF h b]
    obtain ys h2 qs where y: "copyEach c xs h1 = Some (ys, h2)" "extends h1 h2" "readEach r (hpCells h2) ys = Some (vs, qs)"
      "\<forall>b \<in> set qs. hpNext h1 \<le> b"
      using deep_copier.copies [OF each f(1) deep_copier.reads_extends [OF each h f(2) s(2)]] by blast
    let ?h = "store b (mk ys) h2" and ?s = "\<lparr>slArray = b, slOffset = 0, slLen = length ys\<rparr>"
    note g = fill_cell [OF f(2-4) y(2), where c = "mk ys"]
    have "readEach r (hpCells ?h) ys = Some (vs, qs)"
      by (rule deep_copier.reads_frame [OF each y(3)]) (use y(4) g(3) in blast)
    moreover have "elements un (hpCells ?h) ?s = Some ys" using g(2) assms(2) by (simp add: elements_def)
    moreover have "\<forall>x \<in> set (b # qs). hpNext h \<le> x" using y(4) f(3,4) by auto
    ultimately show ?thesis
      using Some s b y(1) g(1) by (auto simp: copySlice_def readSlice_iff)
  qed
qed

lemma readUnlessNil_iff: "readUnlessNil r m p = Some (u, as) \<longleftrightarrow> (case p of None \<Rightarrow> u = None \<and> as = []
    | Some a \<Rightarrow> \<exists>v. r m a = Some (v, as) \<and> u = Some v)"
  by (auto simp: readUnlessNil_def split: option.splits prod.splits)

lemma deep_copier_unless_nil:
  assumes "deep_copier c r"
  shows "deep_copier (copyUnlessNil c) (readUnlessNil r)"
proof
  {
    fix m m' p u as
    assume read: "readUnlessNil r m p = Some (u, as)" and same: "\<And>a. a \<in> set as \<Longrightarrow> m' a = m a"
    show "readUnlessNil r m' p = Some (u, as)"
    proof (cases p)
      case (Some a)
      with read obtain v where v: "r m a = Some (v, as)" "u = Some v" by (auto simp: readUnlessNil_iff)
      have "r m' a = Some (v, as)" by (rule deep_copier.reads_frame [OF assms v(1)]) (rule same)
      then show ?thesis using v Some by (simp add: readUnlessNil_iff)
    qed (use read in \<open>simp add: readUnlessNil_iff\<close>)
  }
  {
    fix m p u as a
    assume "readUnlessNil r m p = Some (u, as)" "a \<in> set as"
    then show "m a \<noteq> None" using deep_copier.reads_dom [OF assms] by (auto simp: readUnlessNil_iff split: option.splits)
  }
  fix h p u as
  assume h: "well_formed h" and read: "readUnlessNil r (hpCells h) p = Some (u, as)"
  then show "\<exists>q h' bs. copyUnlessNil c p h = Some (q, h') \<and> extends h h'
      \<and> readUnlessNil r (hpCells h') q = Some (u, bs) \<and> (\<forall>b \<in> set bs. hpNext h \<le> b)"
    using deep_copier.copies [OF assms h]
    by (cases p) (fastforce simp: copyUnlessNil_def readUnlessNil_iff)+
qed

lemmas deep_copier_rules = deep_copier_plain deep_copier_both deep_copier_pointer deep_copier_slice deep_copier_unless_nil

end
