(* ===== verification/DeepCopies.thy ===== *)
theory DeepCopies
  imports GoHeap
begin

text \<open>
  The generated deep copies of \<^verbatim>\<open>api/v1alpha1/zz_generated.deepcopy.go\<close>, statement by statement, and what makes
  them correct: every copy reads back as the value of the SharedVolume types it was made from, shares no memory
  with the original and leaves it alone. This is what allows the rest of the development to treat an object
  as a value. The deep copies of the library types are parameters.
\<close>

subsection \<open>The library's copies and meanings\<close>

record 'x library =
  libObjectMeta :: "('x, 'x) copier"
  libListMeta :: "('x, 'x) copier"
  libLabelSelector :: "('x, 'x) copier"
  libCondition :: "('x, 'x) copier"
  libQuantity :: "('x, 'x) copier"
  libTime :: "('x, addr) copier"

text \<open>What the library's structs stand for; a ListMeta is read as its resource version.\<close>

record 'x meanings =
  rdObjectMeta :: "('x, 'x, ObjectMeta) reader"
  rdListMeta :: "('x, 'x, string) reader"
  rdLabelSelector :: "('x, 'x, LabelSelector) reader"
  rdCondition :: "('x, 'x, Condition) reader"
  rdQuantity :: "('x, 'x, Quantity) reader"
  rdTime :: "('x, addr, Time) reader"

text \<open>Documented of every \<^verbatim>\<open>DeepCopy\<close> and \<^verbatim>\<open>DeepCopyInto\<close> of apimachinery: it makes a deep copy.\<close>

locale library_copies =
  fixes L :: "'x library" and M :: "'x meanings"
  assumes library: "deep_copier (libObjectMeta L) (rdObjectMeta M)" "deep_copier (libListMeta L) (rdListMeta M)"
    "deep_copier (libLabelSelector L) (rdLabelSelector M)" "deep_copier (libCondition L) (rdCondition M)"
    "deep_copier (libQuantity L) (rdQuantity M)" "deep_copier (libTime L) (rdTime M)"

subsection \<open>Cells by type\<close>

definition unString :: "'x cell \<Rightarrow> string option" where
  "unString c = (case c of StringCell x \<Rightarrow> Some x | _ \<Rightarrow> None)"

definition unBool :: "'x cell \<Rightarrow> bool option" where
  "unBool c = (case c of BoolCell x \<Rightarrow> Some x | _ \<Rightarrow> None)"

definition unHostPath :: "'x cell \<Rightarrow> HostPathDestination option" where
  "unHostPath c = (case c of HostPathCell x \<Rightarrow> Some x | _ \<Rightarrow> None)"

definition unBinding :: "'x cell \<Rightarrow> NamespaceBinding option" where
  "unBinding c = (case c of BindingCell x \<Rightarrow> Some x | _ \<Rightarrow> None)"

definition unDestination :: "'x cell \<Rightarrow> GoBackupDestination option" where
  "unDestination c = (case c of DestinationCell x \<Rightarrow> Some x | _ \<Rightarrow> None)"

definition unBackup :: "'x cell \<Rightarrow> GoBackupSpec option" where
  "unBackup c = (case c of BackupCell x \<Rightarrow> Some x | _ \<Rightarrow> None)"

definition unSelection :: "'x cell \<Rightarrow> GoNamespaceSelection option" where
  "unSelection c = (case c of SelectionCell x \<Rightarrow> Some x | _ \<Rightarrow> None)"

definition unSpec :: "'x cell \<Rightarrow> 'x GoSharedVolumeSpec option" where
  "unSpec c = (case c of SpecCell x \<Rightarrow> Some x | _ \<Rightarrow> None)"

definition unStatus :: "'x cell \<Rightarrow> GoSharedVolumeStatus option" where
  "unStatus c = (case c of StatusCell x \<Rightarrow> Some x | _ \<Rightarrow> None)"

definition unVolume :: "'x cell \<Rightarrow> 'x GoSharedVolume option" where
  "unVolume c = (case c of VolumeCell x \<Rightarrow> Some x | _ \<Rightarrow> None)"

definition unList :: "'x cell \<Rightarrow> 'x GoSharedVolumeList option" where
  "unList c = (case c of ListCell x \<Rightarrow> Some x | _ \<Rightarrow> None)"

definition unExternal :: "'x cell \<Rightarrow> 'x option" where
  "unExternal c = (case c of ExternalCell x \<Rightarrow> Some x | _ \<Rightarrow> None)"

definition unStrings :: "'x cell \<Rightarrow> string list option" where
  "unStrings c = (case c of StringArray x \<Rightarrow> Some x | _ \<Rightarrow> None)"

definition unBindings :: "'x cell \<Rightarrow> NamespaceBinding list option" where
  "unBindings c = (case c of BindingArray x \<Rightarrow> Some x | _ \<Rightarrow> None)"

definition unExternals :: "'x cell \<Rightarrow> 'x list option" where
  "unExternals c = (case c of ExternalArray x \<Rightarrow> Some x | _ \<Rightarrow> None)"

definition unVolumes :: "'x cell \<Rightarrow> 'x GoSharedVolume list option" where
  "unVolumes c = (case c of VolumeArray x \<Rightarrow> Some x | _ \<Rightarrow> None)"

lemma un_cells [simp]:
  "unString (StringCell s) = Some s" "unBool (BoolCell b) = Some b" "unHostPath (HostPathCell p) = Some p"
  "unBinding (BindingCell n) = Some n" "unDestination (DestinationCell d) = Some d" "unBackup (BackupCell k) = Some k"
  "unSelection (SelectionCell sel) = Some sel" "unSpec (SpecCell sp) = Some sp" "unStatus (StatusCell st) = Some st"
  "unVolume (VolumeCell v) = Some v" "unList (ListCell l) = Some l" "unExternal (ExternalCell x) = Some x"
  "unStrings (StringArray ss) = Some ss" "unBindings (BindingArray ns) = Some ns"
  "unExternals (ExternalArray xs) = Some xs" "unVolumes (VolumeArray vs) = Some vs"
  by (simp_all add: unString_def unBool_def unHostPath_def unBinding_def unDestination_def unBackup_def unSelection_def
      unSpec_def unStatus_def unVolume_def unList_def unExternal_def unStrings_def unBindings_def unExternals_def
      unVolumes_def)

subsection \<open>The generated functions\<close>

text \<open>Each \<^verbatim>\<open>DeepCopyInto\<close> takes \<^verbatim>\<open>*in\<close> and returns the final \<^verbatim>\<open>*out\<close>; each \<^verbatim>\<open>DeepCopy\<close> takes and returns a pointer.\<close>

definition HostPathDestination_DeepCopyInto :: "('x, HostPathDestination) copier" where
  "HostPathDestination_DeepCopyInto = copyPlain"

definition HostPathDestination_DeepCopy :: "('x, addr option) copier" where
  "HostPathDestination_DeepCopy = copyPointer unHostPath HostPathCell HostPathDestination_DeepCopyInto"

definition BackupDestination_DeepCopyInto :: "('x, GoBackupDestination) copier" where
  "BackupDestination_DeepCopyInto = copyStruct gdHostPath (\<lambda>p d. d\<lparr>gdHostPath := p\<rparr>)
     (copyPointer unHostPath HostPathCell copyPlain)"

definition BackupDestination_DeepCopy :: "('x, addr option) copier" where
  "BackupDestination_DeepCopy = copyPointer unDestination DestinationCell BackupDestination_DeepCopyInto"

definition BackupSpec_DeepCopyInto :: "('x, GoBackupSpec) copier" where
  "BackupSpec_DeepCopyInto = copyStruct (\<lambda>b. (gbDestination b, gbSuspend b))
     (\<lambda>(d, p) b. b\<lparr>gbDestination := d, gbSuspend := p\<rparr>)
     (copyBoth BackupDestination_DeepCopyInto (copyPointer unBool BoolCell copyPlain))"

definition BackupSpec_DeepCopy :: "('x, addr option) copier" where
  "BackupSpec_DeepCopy = copyPointer unBackup BackupCell BackupSpec_DeepCopyInto"

definition NamespaceBinding_DeepCopyInto :: "('x, NamespaceBinding) copier" where
  "NamespaceBinding_DeepCopyInto = copyPlain"

definition NamespaceBinding_DeepCopy :: "('x, addr option) copier" where
  "NamespaceBinding_DeepCopy = copyPointer unBinding BindingCell NamespaceBinding_DeepCopyInto"

definition NamespaceSelection_DeepCopyInto :: "'x library \<Rightarrow> ('x, GoNamespaceSelection) copier" where
  "NamespaceSelection_DeepCopyInto L = copyStruct (\<lambda>n. (gnNames n, gnSelector n))
     (\<lambda>(s, p) n. n\<lparr>gnNames := s, gnSelector := p\<rparr>)
     (copyBoth (copySlice unStrings StringArray copyPlain)
               (copyPointer unExternal ExternalCell (libLabelSelector L)))"

definition NamespaceSelection_DeepCopy :: "'x library \<Rightarrow> ('x, addr option) copier" where
  "NamespaceSelection_DeepCopy L = copyPointer unSelection SelectionCell (NamespaceSelection_DeepCopyInto L)"

definition SharedVolumeSpec_DeepCopyInto :: "'x library \<Rightarrow> ('x, 'x GoSharedVolumeSpec) copier" where
  "SharedVolumeSpec_DeepCopyInto L =
     copyStruct (\<lambda>s. (gsCapacity s, gsStorageClassName s, gsNamespaces s, gsBackup s))
       (\<lambda>(q, p, n, b) s. s\<lparr>gsCapacity := q, gsStorageClassName := p, gsNamespaces := n, gsBackup := b\<rparr>)
       (copyBoth (libQuantity L)
       (copyBoth (copyPointer unString StringCell copyPlain)
       (copyBoth (NamespaceSelection_DeepCopyInto L)
                 (copyPointer unBackup BackupCell BackupSpec_DeepCopyInto))))"

definition SharedVolumeSpec_DeepCopy :: "'x library \<Rightarrow> ('x, addr option) copier" where
  "SharedVolumeSpec_DeepCopy L = copyPointer unSpec SpecCell (SharedVolumeSpec_DeepCopyInto L)"

definition SharedVolumeStatus_DeepCopyInto :: "'x library \<Rightarrow> ('x, GoSharedVolumeStatus) copier" where
  "SharedVolumeStatus_DeepCopyInto L =
     copyStruct (\<lambda>s. (gtBindings s, gtLastBackupTime s, gtConditions s))
       (\<lambda>(b, t, c) s. s\<lparr>gtBindings := b, gtLastBackupTime := t, gtConditions := c\<rparr>)
       (copyBoth (copySlice unBindings BindingArray copyPlain)
       (copyBoth (copyUnlessNil (libTime L))
                 (copySlice unExternals ExternalArray (libCondition L))))"

definition SharedVolumeStatus_DeepCopy :: "'x library \<Rightarrow> ('x, addr option) copier" where
  "SharedVolumeStatus_DeepCopy L = copyPointer unStatus StatusCell (SharedVolumeStatus_DeepCopyInto L)"

definition SharedVolume_DeepCopyInto :: "'x library \<Rightarrow> ('x, 'x GoSharedVolume) copier" where
  "SharedVolume_DeepCopyInto L =
     copyStruct (\<lambda>v. (gvMeta v, gvSpec v, gvStatus v)) (\<lambda>(m, s, t) v. v\<lparr>gvMeta := m, gvSpec := s, gvStatus := t\<rparr>)
       (copyBoth (libObjectMeta L)
       (copyBoth (SharedVolumeSpec_DeepCopyInto L) (SharedVolumeStatus_DeepCopyInto L)))"

definition SharedVolume_DeepCopy :: "'x library \<Rightarrow> ('x, addr option) copier" where
  "SharedVolume_DeepCopy L = copyPointer unVolume VolumeCell (SharedVolume_DeepCopyInto L)"

definition SharedVolumeList_DeepCopyInto :: "'x library \<Rightarrow> ('x, 'x GoSharedVolumeList) copier" where
  "SharedVolumeList_DeepCopyInto L =
     copyStruct (\<lambda>l. (glMeta l, glItems l)) (\<lambda>(m, s) l. l\<lparr>glMeta := m, glItems := s\<rparr>)
       (copyBoth (libListMeta L) (copySlice unVolumes VolumeArray (SharedVolume_DeepCopyInto L)))"

definition SharedVolumeList_DeepCopy :: "'x library \<Rightarrow> ('x, addr option) copier" where
  "SharedVolumeList_DeepCopy L = copyPointer unList ListCell (SharedVolumeList_DeepCopyInto L)"

text \<open>\<^verbatim>\<open>runtime.Object\<close>: a nil copy must become the nil interface, not an interface that holds a nil pointer.\<close>

datatype runtimeObject = NilObject | VolumeObject "addr option" | ListObject "addr option"

definition SharedVolume_DeepCopyObject :: "'x library \<Rightarrow> addr option \<Rightarrow> 'x heap \<Rightarrow> (runtimeObject \<times> 'x heap) option" where
  "SharedVolume_DeepCopyObject L p h = (case SharedVolume_DeepCopy L p h of None \<Rightarrow> None
     | Some (c, h') \<Rightarrow> Some (if c \<noteq> None then VolumeObject c else NilObject, h'))"

definition SharedVolumeList_DeepCopyObject :: "'x library \<Rightarrow> addr option \<Rightarrow> 'x heap \<Rightarrow> (runtimeObject \<times> 'x heap) option" where
  "SharedVolumeList_DeepCopyObject L p h = (case SharedVolumeList_DeepCopy L p h of None \<Rightarrow> None
     | Some (c, h') \<Rightarrow> Some (if c \<noteq> None then ListObject c else NilObject, h'))"

subsection \<open>What the structs stand for\<close>

definition goList :: "'a list option \<Rightarrow> 'a list" where
  "goList xs = (case xs of None \<Rightarrow> [] | Some ys \<Rightarrow> ys)"

definition readDestination :: "('x, GoBackupDestination, BackupDestination) reader" where
  "readDestination = readStruct gdHostPath (\<lambda>_ p. \<lparr>bdHostPath = p\<rparr>) (readPointer unHostPath readPlain)"

definition readBackup :: "('x, GoBackupSpec, BackupSpec) reader" where
  "readBackup = readStruct (\<lambda>b. (gbDestination b, gbSuspend b))
     (\<lambda>b (d, s). \<lparr>bsSchedule = gbSchedule b, bsDestination = d, bsSuspend = s, bsRestorePolicy = gbRestorePolicy b\<rparr>)
     (readBoth readDestination (readPointer unBool readPlain))"

definition readSelection :: "'x meanings \<Rightarrow> ('x, GoNamespaceSelection, NamespaceSelection) reader" where
  "readSelection M = readStruct (\<lambda>n. (gnNames n, gnSelector n))
     (\<lambda>_ (ns, s). \<lparr>selNames = goList ns, selSelector = s\<rparr>)
     (readBoth (readSlice unStrings readPlain) (readPointer unExternal (rdLabelSelector M)))"

definition readSpec :: "'x meanings \<Rightarrow> ('x, 'x GoSharedVolumeSpec, SharedVolumeSpec) reader" where
  "readSpec M = readStruct (\<lambda>s. (gsCapacity s, gsStorageClassName s, gsNamespaces s, gsBackup s))
     (\<lambda>s (q, c, n, b). \<lparr>specCapacity = q, specStorageClassName = c, specNamespaces = n,
        specReclaimPolicy = gsReclaimPolicy s, specNetworkPolicy = gsNetworkPolicy s, specBackup = b\<rparr>)
     (readBoth (rdQuantity M) (readBoth (readPointer unString readPlain)
     (readBoth (readSelection M) (readPointer unBackup readBackup))))"

definition readStatus :: "'x meanings \<Rightarrow> ('x, GoSharedVolumeStatus, SharedVolumeStatus) reader" where
  "readStatus M = readStruct (\<lambda>s. (gtBindings s, gtLastBackupTime s, gtConditions s))
     (\<lambda>s (bs, t, cs). \<lparr>stPhase = gtPhase s, stServerEndpoint = gtServerEndpoint s, stBackingPVC = gtBackingPVC s,
        stBoundSummary = gtBoundSummary s, stBindings = goList bs, stLastBackupTime = t,
        stObservedGeneration = gtObservedGeneration s, stConditions = goList cs\<rparr>)
     (readBoth (readSlice unBindings readPlain) (readBoth (readUnlessNil (rdTime M))
     (readSlice unExternals (rdCondition M))))"

definition readSharedVolume :: "'x meanings \<Rightarrow> ('x, 'x GoSharedVolume, SharedVolume) reader" where
  "readSharedVolume M = readStruct (\<lambda>v. (gvMeta v, gvSpec v, gvStatus v))
     (\<lambda>_ (m, s, t). \<lparr>svMeta = m, svSpec = s, svStatus = t\<rparr>)
     (readBoth (rdObjectMeta M) (readBoth (readSpec M) (readStatus M)))"

definition readVolumePointer :: "'x meanings \<Rightarrow> ('x, addr option, SharedVolume option) reader" where
  "readVolumePointer M = readPointer unVolume (readSharedVolume M)"

definition readListPointer :: "'x meanings \<Rightarrow> ('x, addr option, SharedVolumeList option) reader" where
  "readListPointer M = readPointer unList (readStruct (\<lambda>l. (glMeta l, glItems l)) (\<lambda>_ (v, vs). \<lparr>svlResourceVersion = v, svlItems = goList vs\<rparr>)
     (readBoth (rdListMeta M) (readSlice unVolumes (readSharedVolume M))))"

subsection \<open>Every generated function keeps the contract\<close>

lemma deep_copier_backup: "deep_copier BackupSpec_DeepCopyInto readBackup"
proof -
  have "deep_copier BackupDestination_DeepCopyInto readDestination"
    unfolding BackupDestination_DeepCopyInto_def readDestination_def
    by (intro deep_copier_struct deep_copier_rules) simp_all
  then show ?thesis unfolding BackupSpec_DeepCopyInto_def readBackup_def
    by (intro deep_copier_struct deep_copier_rules) (auto simp: fun_eq_iff)
qed

context library_copies
begin

lemma selection: "deep_copier (NamespaceSelection_DeepCopyInto L) (readSelection M)"
  unfolding NamespaceSelection_DeepCopyInto_def readSelection_def
  by (intro deep_copier_struct deep_copier_rules library) (auto simp: fun_eq_iff)

lemma spec: "deep_copier (SharedVolumeSpec_DeepCopyInto L) (readSpec M)"
  unfolding SharedVolumeSpec_DeepCopyInto_def readSpec_def
  by (intro deep_copier_struct deep_copier_rules library selection deep_copier_backup) (auto simp: fun_eq_iff)

lemma status: "deep_copier (SharedVolumeStatus_DeepCopyInto L) (readStatus M)"
  unfolding SharedVolumeStatus_DeepCopyInto_def readStatus_def
  by (intro deep_copier_struct deep_copier_rules library) (auto simp: fun_eq_iff)

lemma volume: "deep_copier (SharedVolume_DeepCopyInto L) (readSharedVolume M)"
  unfolding SharedVolume_DeepCopyInto_def readSharedVolume_def
  by (intro deep_copier_struct deep_copier_rules library spec status) (auto simp: fun_eq_iff)

end

sublocale library_copies \<subseteq> volumes: deep_copier "SharedVolume_DeepCopy L" "readVolumePointer M"
  unfolding SharedVolume_DeepCopy_def readVolumePointer_def
  by (intro deep_copier_rules volume) simp

sublocale library_copies \<subseteq> lists: deep_copier "SharedVolumeList_DeepCopy L" "readListPointer M"
  unfolding SharedVolumeList_DeepCopy_def SharedVolumeList_DeepCopyInto_def readListPointer_def
  by (intro deep_copier_struct deep_copier_rules library volume) (auto simp: fun_eq_iff)

text \<open>A pointer is nil exactly when its copy is.\<close>

lemma copyPointer_nil: "copyPointer un mk c p h = Some (q, h') \<Longrightarrow> q = None \<longleftrightarrow> p = None"
  by (auto simp: copyPointer_def split: option.splits prod.splits)

context library_copies
begin

lemma volume_copied:
  assumes "well_formed h" "readVolumePointer M (hpCells h) p = Some (v, as)"
  shows "\<exists>q h' bs. SharedVolume_DeepCopy L p h = Some (q, h') \<and> readVolumePointer M (hpCells h') q = Some (v, bs)
    \<and> readVolumePointer M (hpCells h') p = Some (v, as) \<and> set as \<inter> set bs = {} \<and> (q = None \<longleftrightarrow> p = None)"
proof -
  obtain q h' where copy: "SharedVolume_DeepCopy L p h = Some (q, h')" using volumes.copies [OF assms] by blast
  moreover have "q = None \<longleftrightarrow> p = None" using copy copyPointer_nil unfolding SharedVolume_DeepCopy_def by blast
  ultimately show ?thesis using volumes.apart [OF assms copy] by metis
qed

lemma list_copied:
  assumes "well_formed h" "readListPointer M (hpCells h) p = Some (v, as)"
  shows "\<exists>q h' bs. SharedVolumeList_DeepCopy L p h = Some (q, h') \<and> readListPointer M (hpCells h') q = Some (v, bs)
    \<and> readListPointer M (hpCells h') p = Some (v, as) \<and> set as \<inter> set bs = {} \<and> (q = None \<longleftrightarrow> p = None)"
proof -
  obtain q h' where copy: "SharedVolumeList_DeepCopy L p h = Some (q, h')" using lists.copies [OF assms] by blast
  moreover have "q = None \<longleftrightarrow> p = None" using copy copyPointer_nil unfolding SharedVolumeList_DeepCopy_def by blast
  ultimately show ?thesis using lists.apart [OF assms copy] by metis
qed

lemmas volume_independent = volumes.independent

end

subsection \<open>A reference library\<close>

text \<open>
  Library structs with memory of their own: the maps of an ObjectMeta or a LabelSelector are behind a pointer, a
  Condition, a ListMeta and a Quantity hold plain data.
\<close>

datatype refData = MetaData ObjectMeta | SelectorData LabelSelector | ConditionData Condition | TextData string
  | TimeData Time | NoData

record refStruct =
  rsPlain :: refData
  rsPointer :: "addr option"

definition refCell :: "refData \<Rightarrow> refStruct cell" where
  "refCell d = ExternalCell \<lparr>rsPlain = d, rsPointer = None\<rparr>"

definition unRef :: "(refData \<Rightarrow> 'a option) \<Rightarrow> refStruct cell \<Rightarrow> 'a option" where
  "unRef f c = Option.bind (unExternal c) (\<lambda>x. f (rsPlain x))"

definition metaOf :: "refData \<Rightarrow> ObjectMeta option" where
  "metaOf d = (case d of MetaData m \<Rightarrow> Some m | _ \<Rightarrow> None)"

definition selectorOf :: "refData \<Rightarrow> LabelSelector option" where
  "selectorOf d = (case d of SelectorData s \<Rightarrow> Some s | _ \<Rightarrow> None)"

definition conditionOf :: "refData \<Rightarrow> Condition option" where
  "conditionOf d = (case d of ConditionData c \<Rightarrow> Some c | _ \<Rightarrow> None)"

definition textOf :: "refData \<Rightarrow> string option" where
  "textOf d = (case d of TextData t \<Rightarrow> Some t | _ \<Rightarrow> None)"

definition timeOf :: "refData \<Rightarrow> Time option" where
  "timeOf d = (case d of TimeData t \<Rightarrow> Some t | _ \<Rightarrow> None)"

lemmas ref_data = refCell_def unRef_def metaOf_def selectorOf_def conditionOf_def textOf_def timeOf_def

definition refCopy :: "(refData \<Rightarrow> 'a option) \<Rightarrow> ('a \<Rightarrow> refData) \<Rightarrow> (refStruct, refStruct) copier" where
  "refCopy un mk = copyStruct rsPointer (\<lambda>p x. x\<lparr>rsPointer := p\<rparr>)
     (copyPointer (unRef un) (\<lambda>v. refCell (mk v)) copyPlain)"

definition refRead :: "(refData \<Rightarrow> 'a option) \<Rightarrow> 'a \<Rightarrow> (refStruct, refStruct, 'a) reader" where
  "refRead un zero = readStruct rsPointer (\<lambda>_ v. case v of None \<Rightarrow> zero | Some x \<Rightarrow> x) (readPointer (unRef un) readPlain)"

definition refPlain :: "(refData \<Rightarrow> 'a option) \<Rightarrow> (refStruct, refStruct, 'a) reader" where
  "refPlain un m x = (case un (rsPlain x) of None \<Rightarrow> None | Some v \<Rightarrow> Some (v, []))"

definition refTimeCopy :: "(refStruct, addr) copier" where
  "refTimeCopy a h = (case copyPointer (unRef timeOf) (\<lambda>t. refCell (TimeData t)) copyPlain (Some a) h of
     Some (Some b, h') \<Rightarrow> Some (b, h') | _ \<Rightarrow> None)"

definition refTimeRead :: "(refStruct, addr, Time) reader" where
  "refTimeRead m a = (case readPointer (unRef timeOf) readPlain m (Some a) of
     Some (Some t, as) \<Rightarrow> Some (t, as) | _ \<Rightarrow> None)"

definition refLibrary :: "refStruct library" where
  "refLibrary = \<lparr>libObjectMeta = refCopy metaOf MetaData, libListMeta = copyPlain,
     libLabelSelector = refCopy selectorOf SelectorData, libCondition = copyPlain, libQuantity = copyPlain,
     libTime = refTimeCopy\<rparr>"

definition refMeanings :: "refStruct meanings" where
  "refMeanings = \<lparr>rdObjectMeta = refRead metaOf zeroMeta, rdListMeta = refPlain textOf,
     rdLabelSelector = refRead selectorOf \<lparr>lsMatchLabels = Map.empty, lsMatchExpressions = []\<rparr>,
     rdCondition = refPlain conditionOf, rdQuantity = refPlain textOf, rdTime = refTimeRead\<rparr>"

lemma ref_copier:
  assumes "\<And>v. un (mk v) = Some v"
  shows "deep_copier (refCopy un mk) (refRead un zero)"
  unfolding refCopy_def refRead_def
  by (intro deep_copier_struct deep_copier_rules) (simp_all add: ref_data assms)

lemma ref_plain: "deep_copier copyPlain (refPlain un)"
  by unfold_locales (auto simp: refPlain_def copyPlain_def split: option.splits)

lemma ref_time: "deep_copier refTimeCopy refTimeRead"
proof -
  have p: "deep_copier (copyPointer (unRef timeOf) (\<lambda>t. refCell (TimeData t)) copyPlain) (readPointer (unRef timeOf) readPlain)"
    by (intro deep_copier_rules) (simp add: ref_data)
  have read: "refTimeRead m a = Some (t, as) \<longleftrightarrow> readPointer (unRef timeOf) readPlain m (Some a) = Some (Some t, as)" for m a t as
    by (auto simp: refTimeRead_def split: option.splits prod.splits)
  show ?thesis
  proof
    fix m m' a t as assume "refTimeRead m a = Some (t, as)" "\<And>b. b \<in> set as \<Longrightarrow> m' b = m b"
    then show "refTimeRead m' a = Some (t, as)" unfolding read by (rule deep_copier.reads_frame [OF p])
  next
    fix m a t as b assume "refTimeRead m a = Some (t, as)" "b \<in> set as"
    then show "m b \<noteq> None" unfolding read by (rule deep_copier.reads_dom [OF p])
  next
    fix h a t as assume h: "well_formed h" "refTimeRead (hpCells h) a = Some (t, as)"
    obtain q h' bs where q: "copyPointer (unRef timeOf) (\<lambda>t. refCell (TimeData t)) copyPlain (Some a) h = Some (q, h')"
      "extends h h'" "readPointer (unRef timeOf) readPlain (hpCells h') q = Some (Some t, bs)" "\<forall>b \<in> set bs. hpNext h \<le> b"
      using deep_copier.copies [OF p h(1) h(2) [unfolded read]] by blast
    then obtain b where "q = Some b" by (cases q) (auto simp: readPointer_iff)
    with q show "\<exists>b h' bs. refTimeCopy a h = Some (b, h') \<and> extends h h' \<and> refTimeRead (hpCells h') b = Some (t, bs)
        \<and> (\<forall>b \<in> set bs. hpNext h \<le> b)"
      by (auto simp: refTimeCopy_def read)
  qed
qed

interpretation copies: library_copies refLibrary refMeanings
  by (rule library_copies.intro) (simp_all add: refLibrary_def refMeanings_def ref_copier ref_plain ref_time metaOf_def selectorOf_def)

subsection \<open>Properties\<close>

text \<open>C36: a deep copy of a volume always succeeds, reads back as the same volume, and leaves the original as it was;
  the two share no cell, and only a nil pointer is copied to a nil pointer.\<close>

theorem SharedVolume_DeepCopy_correct:
  assumes "library_copies L M" "well_formed h" "readVolumePointer M (hpCells h) p = Some (v, as)"
  shows "\<exists>q h' bs. SharedVolume_DeepCopy L p h = Some (q, h') \<and> readVolumePointer M (hpCells h') q = Some (v, bs)
    \<and> readVolumePointer M (hpCells h') p = Some (v, as) \<and> set as \<inter> set bs = {} \<and> (q = None \<longleftrightarrow> p = None)"
  by (rule library_copies.volume_copied [OF assms])

text \<open>The same of a list of volumes, whose items are copied one by one.\<close>

theorem SharedVolumeList_DeepCopy_correct:
  assumes "library_copies L M" "well_formed h" "readListPointer M (hpCells h) p = Some (v, as)"
  shows "\<exists>q h' bs. SharedVolumeList_DeepCopy L p h = Some (q, h') \<and> readListPointer M (hpCells h') q = Some (v, bs)
    \<and> readListPointer M (hpCells h') p = Some (v, as) \<and> set as \<inter> set bs = {} \<and> (q = None \<longleftrightarrow> p = None)"
  by (rule library_copies.list_copied [OF assms])

text \<open>C37: a copy can be changed freely: whatever is written into the memory that the copy brought along, the
  original still reads as before, and whatever is written into the memory that was there, the copy does.\<close>

theorem SharedVolume_DeepCopy_independent:
  assumes "library_copies L M" "well_formed h" "readVolumePointer M (hpCells h) p = Some (v, as)"
    and "SharedVolume_DeepCopy L p h = Some (q, h')"
  shows "((\<forall>a. hpCells h a \<noteq> None \<longrightarrow> m a = hpCells h' a) \<longrightarrow> readVolumePointer M m p = Some (v, as))
    \<and> ((\<forall>a. hpCells h a = None \<longrightarrow> m a = hpCells h' a) \<longrightarrow> (\<exists>bs. readVolumePointer M m q = Some (v, bs)))"
  using library_copies.volume_independent [OF assms] by blast

text \<open>\<^verbatim>\<open>DeepCopyObject\<close> never wraps a nil pointer into an object: it returns the nil interface exactly for a nil
  receiver.\<close>

theorem DeepCopyObject_nil:
  "SharedVolume_DeepCopyObject L None h = Some (NilObject, h)
   \<and> SharedVolumeList_DeepCopyObject L None h = Some (NilObject, h)
   \<and> (\<forall>x h'. SharedVolume_DeepCopyObject L (Some a) h = Some (x, h') \<longrightarrow> (\<exists>b. x = VolumeObject (Some b)))
   \<and> (\<forall>x h'. SharedVolumeList_DeepCopyObject L (Some a) h = Some (x, h') \<longrightarrow> (\<exists>b. x = ListObject (Some b)))"
  by (auto simp: SharedVolume_DeepCopyObject_def SharedVolumeList_DeepCopyObject_def SharedVolume_DeepCopy_def
      SharedVolumeList_DeepCopy_def copyPointer_def split: option.splits prod.splits)

subsection \<open>A volume in memory\<close>

text \<open>A volume with every pointer and slice set: a selector, a storage class, a backup, bindings and a condition.\<close>

definition memoryVolume :: "refStruct GoSharedVolume" where
  "memoryVolume = \<lparr>gvTypeMeta = (''SharedVolume'', ''nfsz.dev/v1alpha1''), gvMeta = \<lparr>rsPlain = NoData, rsPointer = Some 1\<rparr>,
     gvSpec = \<lparr>gsCapacity = \<lparr>rsPlain = TextData ''10Gi'', rsPointer = None\<rparr>, gsStorageClassName = Some 2,
       gsNamespaces = \<lparr>gnNames = Some \<lparr>slArray = 3, slOffset = 1, slLen = 1\<rparr>, gnSelector = None\<rparr>,
       gsReclaimPolicy = ReclaimRetain, gsNetworkPolicy = NetworkPolicyUnset, gsBackup = Some 4\<rparr>,
     gvStatus = \<lparr>gtPhase = PhaseReady, gtServerEndpoint = ''10.96.0.9'', gtBackingPVC = '''', gtBoundSummary = ''1/1'',
       gtBindings = Some \<lparr>slArray = 6, slOffset = 0, slLen = 1\<rparr>, gtLastBackupTime = Some 7, gtObservedGeneration = 1,
       gtConditions = None\<rparr>\<rparr>"

definition memory :: "refStruct heap" where
  "memory = \<lparr>hpCells = [0 \<mapsto> VolumeCell memoryVolume, 1 \<mapsto> refCell (MetaData (zeroMeta\<lparr>omName := ''data''\<rparr>)),
     2 \<mapsto> StringCell ''fast'', 3 \<mapsto> StringArray [''team-x'', ''team-a''],
     4 \<mapsto> BackupCell \<lparr>gbSchedule = ''@daily'', gbDestination = \<lparr>gdHostPath = Some 5\<rparr>, gbSuspend = None, gbRestorePolicy = RestoreAuto\<rparr>,
     5 \<mapsto> HostPathCell \<lparr>hpdPath = ''/srv''\<rparr>,
     6 \<mapsto> BindingArray [\<lparr>nbNamespace = ''team-a'', nbPVCName = ''data'', nbPhase = BindingBound\<rparr>],
     7 \<mapsto> refCell (TimeData 5), 8 \<mapsto> ListCell \<lparr>glTypeMeta = (''SharedVolumeList'', ''nfsz.dev/v1alpha1''),
        glMeta = \<lparr>rsPlain = TextData ''42'', rsPointer = None\<rparr>, glItems = Some \<lparr>slArray = 9, slOffset = 0, slLen = 1\<rparr>\<rparr>,
     9 \<mapsto> VolumeArray [memoryVolume]], hpNext = 10\<rparr>"

lemma memory_formed: "well_formed memory"
  by (auto simp: well_formed_def memory_def split: if_splits)
text \<open>What the structs of this memory stand for.\<close>

definition storedVolume :: SharedVolume where
  "storedVolume = \<lparr>svMeta = zeroMeta\<lparr>omName := ''data''\<rparr>,
     svSpec = \<lparr>specCapacity = ''10Gi'', specStorageClassName = Some ''fast'',
       specNamespaces = \<lparr>selNames = [''team-a''], selSelector = None\<rparr>, specReclaimPolicy = ReclaimRetain,
       specNetworkPolicy = NetworkPolicyUnset, specBackup = Some \<lparr>bsSchedule = ''@daily'',
         bsDestination = \<lparr>bdHostPath = Some \<lparr>hpdPath = ''/srv''\<rparr>\<rparr>, bsSuspend = None, bsRestorePolicy = RestoreAuto\<rparr>\<rparr>,
     svStatus = \<lparr>stPhase = PhaseReady, stServerEndpoint = ''10.96.0.9'', stBackingPVC = '''', stBoundSummary = ''1/1'',
       stBindings = [\<lparr>nbNamespace = ''team-a'', nbPVCName = ''data'', nbPhase = BindingBound\<rparr>],
       stLastBackupTime = Some 5, stObservedGeneration = 1, stConditions = []\<rparr>\<rparr>"

lemmas reading = readStruct_def readBoth_def readPointer_def readSlice_def readUnlessNil_def readPlain_def elements_def
  readDestination_def readBackup_def readSelection_def readSpec_def readStatus_def readSharedVolume_def goList_def
  refMeanings_def refRead_def refPlain_def refTimeRead_def ref_data

lemma memory_reads:
  "readVolumePointer refMeanings (hpCells memory) (Some 0) = Some (Some storedVolume, [0, 1, 2, 3, 4, 5, 6, 7])"
  "readListPointer refMeanings (hpCells memory) (Some 8) = Some (Some \<lparr>svlResourceVersion = ''42'', svlItems = [storedVolume]\<rparr>, [8, 9, 1, 2, 3, 4, 5, 6, 7])"
  by (simp_all add: readVolumePointer_def readListPointer_def reading memory_def memoryVolume_def storedVolume_def)

theorem SharedVolume_DeepCopy_correct_witness:
  "\<exists>q h' bs. SharedVolume_DeepCopy refLibrary (Some 0) memory = Some (q, h')
     \<and> readVolumePointer refMeanings (hpCells h') q = Some (Some storedVolume, bs)
     \<and> readVolumePointer refMeanings (hpCells h') (Some 0) = Some (Some storedVolume, [0, 1, 2, 3, 4, 5, 6, 7])
     \<and> set [0, 1, 2, 3, 4, 5, 6, 7] \<inter> set bs = {} \<and> (q = None \<longleftrightarrow> Some (0 :: addr) = None)"
  by (rule SharedVolume_DeepCopy_correct [OF copies.library_copies_axioms memory_formed memory_reads(1)])

theorem SharedVolumeList_DeepCopy_correct_witness:
  "\<exists>q h' bs. SharedVolumeList_DeepCopy refLibrary (Some 8) memory = Some (q, h')
     \<and> readListPointer refMeanings (hpCells h') q = Some (Some \<lparr>svlResourceVersion = ''42'', svlItems = [storedVolume]\<rparr>, bs)
     \<and> readListPointer refMeanings (hpCells h') (Some 8) = Some (Some \<lparr>svlResourceVersion = ''42'', svlItems = [storedVolume]\<rparr>, [8, 9, 1, 2, 3, 4, 5, 6, 7])
     \<and> set [8, 9, 1, 2, 3, 4, 5, 6, 7] \<inter> set bs = {} \<and> (q = None \<longleftrightarrow> Some (8 :: addr) = None)"
  by (rule SharedVolumeList_DeepCopy_correct [OF copies.library_copies_axioms memory_formed memory_reads(2)])

text \<open>Emptying every cell that the copy brought along leaves the original readable.\<close>

theorem SharedVolume_DeepCopy_independent_witness:
  "\<exists>q h'. SharedVolume_DeepCopy refLibrary (Some 0) memory = Some (q, h')
     \<and> readVolumePointer refMeanings (hpCells h' |` {..<10}) (Some 0) = Some (Some storedVolume, [0, 1, 2, 3, 4, 5, 6, 7])"
proof -
  obtain q h' where copy: "SharedVolume_DeepCopy refLibrary (Some 0) memory = Some (q, h')"
    using copies.volumes.copies [OF memory_formed memory_reads(1)] by blast
  have "hpNext memory = 10" by (simp add: memory_def)
  then have "\<forall>a. hpCells memory a \<noteq> None \<longrightarrow> (hpCells h' |` {..<10}) a = hpCells h' a"
    using memory_formed by (auto simp: well_formed_def)
  with SharedVolume_DeepCopy_independent [OF copies.library_copies_axioms memory_formed memory_reads(1) copy] copy
  show ?thesis by blast
qed

theorem DeepCopyObject_nil_witness:
  "\<exists>b h'. SharedVolume_DeepCopyObject refLibrary (Some 0) memory = Some (VolumeObject (Some b), h')"
proof -
  obtain q h' where copy: "SharedVolume_DeepCopy refLibrary (Some 0) memory = Some (q, h')"
    using copies.volumes.copies [OF memory_formed memory_reads(1)] by blast
  then obtain x where x: "SharedVolume_DeepCopyObject refLibrary (Some 0) memory = Some (x, h')"
    by (simp add: SharedVolume_DeepCopyObject_def)
  with DeepCopyObject_nil [of refLibrary memory 0] show ?thesis by blast
qed

end
