(* ===== verification/Startup.thy ===== *)
theory Startup
  imports Manager
begin

text \<open>
  \<^verbatim>\<open>main\<close> of \<^verbatim>\<open>cmd/main.go\<close> around the reconciler's configuration: the flags, the TLS, webhook, metrics and
  manager options computed from them, and the startup sequence with its exits; the controller that
  \<^verbatim>\<open>SetupWithManager\<close> builds, with the events it listens to; the group and version under which \<^verbatim>\<open>api/v1alpha1\<close>
  registers its types. Parsing of the command line, the servers and controller-runtime are parameters.
\<close>

subsection \<open>Group and version\<close>

record GroupVersion =
  gvGroup :: string
  gvVersion :: string

definition SchemeGroupVersion :: GroupVersion where
  "SchemeGroupVersion = \<lparr>gvGroup = ''nfsz.dev'', gvVersion = ''v1alpha1''\<rparr>"

definition GroupVersionAlias :: GroupVersion where
  "GroupVersionAlias = SchemeGroupVersion"

text \<open>
  \<^verbatim>\<open>scheme.Builder\<close> of controller-runtime: the group version that this package sets, and what the builder keeps of
  its own (\<open>'m\<close>). Its \<^verbatim>\<open>Register\<close> and \<^verbatim>\<open>AddToScheme\<close> are parameters.
\<close>

record 'm Builder =
  bGroupVersion :: GroupVersion
  bSchemeBuilder :: 'm

definition SchemeBuilder :: "'m \<Rightarrow> 'm Builder" where
  "SchemeBuilder fresh = \<lparr>bGroupVersion = SchemeGroupVersion, bSchemeBuilder = fresh\<rparr>"

text \<open>The types that \<^verbatim>\<open>init\<close> registers, and the builder afterwards, which \<^verbatim>\<open>AddToScheme\<close> applies to a scheme.\<close>

definition registeredTypes :: "string list" where
  "registeredTypes = [''SharedVolume'', ''SharedVolumeList'']"

definition initTypes :: "('m Builder \<Rightarrow> string list \<Rightarrow> 'm Builder) \<Rightarrow> 'm \<Rightarrow> 'm Builder" where
  "initTypes register fresh = register (SchemeBuilder fresh) registeredTypes"

definition addToScheme ::
  "('m Builder \<Rightarrow> string list \<Rightarrow> 'm Builder) \<Rightarrow> ('m Builder \<Rightarrow> 's \<Rightarrow> bool \<times> 's) \<Rightarrow> 'm \<Rightarrow> 's \<Rightarrow> bool \<times> 's" where
  "addToScheme register add fresh sch = add (initTypes register fresh) sch"

subsection \<open>Flags\<close>

record MainFlags =
  mfMetricsAddr :: string
  mfProbeAddr :: string
  mfEnableLeaderElection :: bool
  mfSecureMetrics :: bool
  mfWebhookCertPath :: string
  mfWebhookCertName :: string
  mfWebhookCertKey :: string
  mfMetricsCertPath :: string
  mfMetricsCertName :: string
  mfMetricsCertKey :: string
  mfEnableHTTP2 :: bool

definition boolVar :: "(string \<Rightarrow> bool option) \<Rightarrow> string \<Rightarrow> bool \<Rightarrow> bool" where
  "boolVar flag name dflt = (case flag name of None \<Rightarrow> dflt | Some v \<Rightarrow> v)"

text \<open>\<open>flag\<close> and \<open>bflag\<close> are the string and boolean flags given on the command line.\<close>

definition mainFlags :: "(string \<Rightarrow> string option) \<Rightarrow> (string \<Rightarrow> bool option) \<Rightarrow> MainFlags" where
  "mainFlags flag bflag = \<lparr>
     mfMetricsAddr = stringVar flag ''metrics-bind-address'' ''0'',
     mfProbeAddr = stringVar flag ''health-probe-bind-address'' '':8081'',
     mfEnableLeaderElection = boolVar bflag ''leader-elect'' False,
     mfSecureMetrics = boolVar bflag ''metrics-secure'' True,
     mfWebhookCertPath = stringVar flag ''webhook-cert-path'' '''',
     mfWebhookCertName = stringVar flag ''webhook-cert-name'' ''tls.crt'',
     mfWebhookCertKey = stringVar flag ''webhook-cert-key'' ''tls.key'',
     mfMetricsCertPath = stringVar flag ''metrics-cert-path'' '''',
     mfMetricsCertName = stringVar flag ''metrics-cert-name'' ''tls.crt'',
     mfMetricsCertKey = stringVar flag ''metrics-cert-key'' ''tls.key'',
     mfEnableHTTP2 = boolVar bflag ''enable-http2'' False\<rparr>"

subsection \<open>Server options\<close>

text \<open>The field of \<^verbatim>\<open>tls.Config\<close> that the code sets; the rest is the server's default and is left alone.\<close>

record TLSConfig =
  tlsNextProtos :: "string list"

definition disableHTTP2 :: "'a TLSConfig_scheme \<Rightarrow> 'a TLSConfig_scheme" where
  "disableHTTP2 c = c\<lparr>tlsNextProtos := [''http/1.1'']\<rparr>"

definition tlsOptions :: "MainFlags \<Rightarrow> ('a TLSConfig_scheme \<Rightarrow> 'a TLSConfig_scheme) list" where
  "tlsOptions mf = (if \<not> mfEnableHTTP2 mf then [] @ [disableHTTP2] else [])"

text \<open>A server applies its options to its TLS configuration in order.\<close>

definition applyTLS :: "('c \<Rightarrow> 'c) list \<Rightarrow> 'c \<Rightarrow> 'c" where
  "applyTLS fs c = fold (\<lambda>f. f) fs c"

record 'c WebhookOptions =
  whTLSOpts :: "('c \<Rightarrow> 'c) list"
  whCertDir :: string
  whCertName :: string
  whKeyName :: string

definition webhookOptions :: "MainFlags \<Rightarrow> 'a TLSConfig_scheme WebhookOptions" where
  "webhookOptions mf =
     (let o1 = \<lparr>whTLSOpts = tlsOptions mf, whCertDir = '''', whCertName = '''', whKeyName = ''''\<rparr>
      in if 0 < length (mfWebhookCertPath mf)
         then o1\<lparr>whCertDir := mfWebhookCertPath mf, whCertName := mfWebhookCertName mf, whKeyName := mfWebhookCertKey mf\<rparr>
         else o1)"

text \<open>A filter in front of the metrics endpoint; the one the code installs authenticates and authorizes.\<close>

datatype FilterProvider = WithAuthenticationAndAuthorization

record 'c MetricsOptions =
  msBindAddress :: string
  msSecureServing :: bool
  msTLSOpts :: "('c \<Rightarrow> 'c) list"
  msFilterProvider :: "FilterProvider option"
  msCertDir :: string
  msCertName :: string
  msKeyName :: string

definition metricsOptions :: "MainFlags \<Rightarrow> 'a TLSConfig_scheme MetricsOptions" where
  "metricsOptions mf =
     (let o1 = \<lparr>msBindAddress = mfMetricsAddr mf, msSecureServing = mfSecureMetrics mf, msTLSOpts = tlsOptions mf,
             msFilterProvider = None, msCertDir = '''', msCertName = '''', msKeyName = ''''\<rparr>;
          o2 = (if mfSecureMetrics mf then o1\<lparr>msFilterProvider := Some WithAuthenticationAndAuthorization\<rparr> else o1)
      in if 0 < length (mfMetricsCertPath mf)
         then o2\<lparr>msCertDir := mfMetricsCertPath mf, msCertName := mfMetricsCertName mf, msKeyName := mfMetricsCertKey mf\<rparr>
         else o2)"

record 'c ManagerOptions =
  moMetrics :: "'c MetricsOptions"
  moWebhookServer :: "'c WebhookOptions"
  moHealthProbeBindAddress :: string
  moLeaderElection :: bool
  moLeaderElectionID :: string

definition managerOptions :: "MainFlags \<Rightarrow> 'a TLSConfig_scheme ManagerOptions" where
  "managerOptions mf = \<lparr>moMetrics = metricsOptions mf, moWebhookServer = webhookOptions mf,
     moHealthProbeBindAddress = mfProbeAddr mf, moLeaderElection = mfEnableLeaderElection mf,
     moLeaderElectionID = ''8d61f1dc.nfsz.dev''\<rparr>"

subsection \<open>The controller\<close>

text \<open>
  What an event of an object requeues, as the builder chain of \<^verbatim>\<open>SetupWithManager\<close> asks for: a SharedVolume
  itself, the owner of an owned kind (\<open>ownerRequests\<close> is \<^verbatim>\<open>EnqueueRequestForOwner\<close>), and the map functions
  for namespaces and nodes. No other kind is listened to.
\<close>

definition eventRequests ::
  "('w, 'b) SharedVolumeReconciler_scheme \<Rightarrow> (obj \<Rightarrow> NamespacedName list) \<Rightarrow> obj \<Rightarrow> ('w, NamespacedName list) prog" where
  "eventRequests r ownerRequests x =
     (if objKind x = KSharedVolume then returnE [ObjectKeyFromObject x]
      else if objKind x \<in> set ownedKinds then returnE (ownerRequests x)
      else if objKind x = KNamespace then mapNamespace r (objMeta x)
      else if objKind x = KNode then mapNode r
      else returnE [])"

subsection \<open>The startup sequence\<close>

datatype 'c startCall = AddToScheme string | GetConfig | NewManager "'c ManagerOptions" | SetupController ManagerConfig
  | AddHealthzCheck string | AddReadyzCheck string | StartManager

text \<open>The calls of \<^verbatim>\<open>init\<close> and \<^verbatim>\<open>main\<close> in order, each of which may fail.\<close>

definition schemeCalls :: "'c startCall list" where
  "schemeCalls = [AddToScheme ''client-go'', AddToScheme (gvGroup SchemeGroupVersion)]"

definition managerCalls ::
  "(string \<Rightarrow> string) \<Rightarrow> (string \<Rightarrow> string option) \<Rightarrow> (string \<Rightarrow> bool option) \<Rightarrow> 'a TLSConfig_scheme startCall list" where
  "managerCalls getenv flag bflag =
     [GetConfig, NewManager (managerOptions (mainFlags flag bflag)), SetupController (managerConfig getenv flag),
      AddHealthzCheck ''healthz'', AddReadyzCheck ''readyz'', StartManager]"

definition startCalls ::
  "(string \<Rightarrow> string) \<Rightarrow> (string \<Rightarrow> string option) \<Rightarrow> (string \<Rightarrow> bool option) \<Rightarrow> 'a TLSConfig_scheme startCall list" where
  "startCalls getenv flag bflag = schemeCalls @ managerCalls getenv flag bflag"

lemmas start_defs = startCalls_def schemeCalls_def managerCalls_def SchemeGroupVersion_def

text \<open>A failed \<^verbatim>\<open>utilruntime.Must\<close> panics, which exits with 2; every other failure is \<^verbatim>\<open>os.Exit(1)\<close>.\<close>

fun exitCode :: "'c startCall \<Rightarrow> nat" where
  "exitCode (AddToScheme g) = 2"
| "exitCode _ = 1"

text \<open>
  \<open>env\<close> says whether a call succeeds and how the world goes on. The result is the exit code, the calls made
  with their outcome, and the world.
\<close>

fun runCalls :: "('w \<Rightarrow> 'c startCall \<Rightarrow> bool \<times> 'w) \<Rightarrow> 'c startCall list \<Rightarrow> 'w \<Rightarrow> nat \<times> ('c startCall \<times> bool) list \<times> 'w" where
  "runCalls env [] w = (0, [], w)"
| "runCalls env (c # cs) w = (case env w c of
     (False, w') \<Rightarrow> (exitCode c, [(c, False)], w')
   | (True, w') \<Rightarrow> (case runCalls env cs w' of (code, tr, w'') \<Rightarrow> (code, (c, True) # tr, w'')))"

definition main ::
  "('w \<Rightarrow> 'a TLSConfig_scheme startCall \<Rightarrow> bool \<times> 'w) \<Rightarrow> (string \<Rightarrow> string) \<Rightarrow> (string \<Rightarrow> string option)
   \<Rightarrow> (string \<Rightarrow> bool option) \<Rightarrow> 'w \<Rightarrow> nat \<times> ('a TLSConfig_scheme startCall \<times> bool) list \<times> 'w" where
  "main env getenv flag bflag w = runCalls env (startCalls getenv flag bflag) w"

subsection \<open>Startup fails closed\<close>

lemma exitCode_nonzero [simp]: "0 < exitCode c"
  by (cases c) simp_all

text \<open>The calls made are the first ones of the list, and only the last can have failed.\<close>

lemma runCalls_prefix:
  "runCalls env cs w = (code, tr, w') \<Longrightarrow>
     map fst tr = take (length tr) cs \<and> list_all snd (butlast tr) \<and> (code = 0 \<longleftrightarrow> tr = map (\<lambda>c. (c, True)) cs)"
  by (induction cs arbitrary: w code tr w') (auto split: prod.splits bool.splits)



subsection \<open>Servers\<close>

text \<open>Unless HTTP/2 is asked for, both servers offer HTTP/1.1 only, whatever their TLS configuration was; metrics
  served securely are always behind authentication and authorization, and by default metrics are not served
  and would be secure; a certificate directory is set exactly when a path is given.\<close>

theorem server_options:
  "applyTLS (whTLSOpts (webhookOptions mf)) c = (if mfEnableHTTP2 mf then c else c\<lparr>tlsNextProtos := [''http/1.1'']\<rparr>)
   \<and> applyTLS (msTLSOpts (metricsOptions mf)) c = (if mfEnableHTTP2 mf then c else c\<lparr>tlsNextProtos := [''http/1.1'']\<rparr>)
   \<and> (msFilterProvider (metricsOptions mf) = Some WithAuthenticationAndAuthorization \<longleftrightarrow> msSecureServing (metricsOptions mf))
   \<and> msBindAddress (metricsOptions (mainFlags Map.empty Map.empty)) = ''0''
   \<and> msSecureServing (metricsOptions (mainFlags Map.empty Map.empty))
   \<and> whCertDir (webhookOptions mf) = mfWebhookCertPath mf \<and> msCertDir (metricsOptions mf) = mfMetricsCertPath mf"
  by (simp add: webhookOptions_def metricsOptions_def tlsOptions_def applyTLS_def disableHTTP2_def mainFlags_def
      stringVar_def boolVar_def Let_def)

subsection \<open>Watched kinds\<close>


end
