(* ===== verification/Spec2Isabelle.thy ===== *)
theory Spec2Isabelle
  imports Witnesses DeepCopies Startup
begin

text \<open>
  A model and proof of the nfsZ operator, a Kubernetes controller that serves one backing volume over NFS to
  many namespaces. A user writes a cluster-scoped \<^verbatim>\<open>SharedVolume\<close>; the operator keeps an NFS server
  stack for it in its own namespace (backing claim, ConfigMap, Deployment, Service, NetworkPolicy, backup
  CronJob, seed Job) and a pre-bound PV and claim in every target namespace, and it takes all of that down
  behind a finalizer. The Go code is modelled function by function, as executable definitions.

  \<^bold>\<open>Theories.\<close> \<open>Prelude\<close>: Go strings, string maps, decimal numerals, the set-then-sort idiom. \<open>KubeTypes\<close>: the
  API objects with the fields the operator sets or reads. \<open>SharedVolumeTypes\<close>: \<^verbatim>\<open>api/v1alpha1\<close>. \<open>Ganesha\<close> and
  \<open>Sha256\<close>: \<^verbatim>\<open>internal/ganesha/config.go\<close> and the standard library's SHA-256 and hex encoding, used by
  \<^verbatim>\<open>confHash\<close>. \<open>Resources\<close>: the names, labels and builders of \<^verbatim>\<open>internal/controller/resources.go\<close>. \<open>Client\<close>: the
  boundary, calls and replies of the API client, the reconciler record, \<^verbatim>\<open>createOwned\<close>, \<^verbatim>\<open>createIfMissing\<close>.
  \<open>Traces\<close>: how programs of the operator are reasoned about. \<open>Netip\<close>: what \<^verbatim>\<open>nodeIPs\<close> uses of \<^verbatim>\<open>net/netip\<close>.
  \<open>Server\<close>, \<open>Backup\<close>, \<open>Policy\<close>, \<open>Bindings\<close>, \<open>Teardown\<close>, \<open>Status\<close>: the parts of
  \<^verbatim>\<open>internal/controller/sharedvolume_controller.go\<close>, composed into \<^verbatim>\<open>Reconcile\<close> by \<open>Reconcile\<close>. \<open>Manager\<close>: event
  mapping and the reconciler's configuration of \<^verbatim>\<open>cmd/main.go\<close>; \<open>Startup\<close>: the rest of \<^verbatim>\<open>main\<close>, the controller that
  \<^verbatim>\<open>SetupWithManager\<close> builds and the registered group and version. \<open>Effects\<close>: the permissions each part uses
  against the RBAC markers. \<open>Contract\<close>: the abstract specification of the operator's effects and its interfaces;
  \<open>Compliance\<close>: every component keeps it. \<open>Schedule\<close>: passes over time. \<open>Typed\<close>: type safety of a pass.
  \<open>ApiServer\<close>: the API server as a typed object store; on it \<open>LiveServer\<close> and \<open>LivePass\<close> show what a pass over a live
  volume achieves and \<open>TeardownPass\<close> what the passes over a deleted one do, with \<open>Departing\<close> for what both share;
  \<open>SteadyPass\<close> shows that a settled volume is left alone and \<open>Settling\<close> that one pass settles a volume.
  \<open>Store\<close>: a reference API server. \<open>GoHeap\<close> and \<open>DeepCopies\<close>: Go structs in memory and the functions of
  \<^verbatim>\<open>zz_generated.deepcopy.go\<close>. \<open>Witnesses\<close>: the properties with hypotheses at concrete inputs. This theory: the
  properties that span components.

  \<^bold>\<open>State and effects.\<close> A program of the operator is a function on a run: the outside world, of an arbitrary type,
  and the trace of all calls made so far with their replies. An error return is an \<open>Inl\<close> value; a nil
  dereference or an index out of range is the error \<open>Panic\<close>. A method that mutates the SharedVolume it was
  passed returns it. The client is a function from world and call to reply and world, so it may answer
  anything and the cluster may change between any two calls: what is proved of traces holds under every
  interference of other actors. Long Go functions are split along their blocks (for instance
  \<^verbatim>\<open>reconcileServer\<close> into \<open>ensureConfigMap\<close>, \<open>ensureDeployment\<close> and \<open>ensureService\<close>), each naming its lines.

  \<^bold>\<open>Parameters.\<close> Code outside the repository is never modelled but is a field of the reconciler: the API client,
  the event recorder, \<^verbatim>\<open>controllerutil\<close>'s owner and finalizer helpers, \<^verbatim>\<open>meta\<close>'s condition helpers,
  \<^verbatim>\<open>LabelSelectorAsSelector\<close> and semantic equality. What is relied on of them are the assumptions of
  locales: \<open>operator_env\<close> (a reply concerns the object asked for; setting an owner keeps name, namespace and
  labels), \<open>condition_api\<close> (a set condition can be read back), \<open>typed_api\<close> (a reply has the shape the call asks for
  and its objects passed validation) and its extensions \<open>api_server\<close> (what every call does to the stored objects:
  namespaces gate creation, stale writes conflict, finalizers hold objects, and the fields that the operator sets
  and compares are stored as sent) and \<open>settling_server\<close> (besides, equal specs compare as equal). All are interpreted on the
  environment of \<open>Store\<close>. Safety rests on the first two alone, which say nothing about the state of the cluster;
  \<open>api_server\<close> is used only for what a pass achieves when nobody interferes. \<open>library_copies\<close> states that the
  library's own deep copies are \<open>deep_copier\<close>s; it is interpreted on a library whose metadata lives behind a
  pointer. The locale \<open>volume_object\<close> is the interface between the builders and the reconcile loop; it is
  interpreted on each of the eight builders of objects that live under a name of the volume.

  \<^bold>\<open>What is proved.\<close> Whole passes: every call of every pass of every schedule is allowed by the contract when it
  is issued, and what follows from that (foreign claims are spared, PVs are deleted only when free, the
  Service is stable, the finalizer goes last, creation only after NotFound); every call is covered by the
  RBAC markers. No pass over a typed API server fails to decode a reply or panics. Without interference one
  pass over a live volume ends with everything the spec asks for in place and stale pairs withdrawn, and a
  deleted volume is taken down in at most two passes; one pass also repairs whatever drifted, unless another
  party holds on to it, and over the settled volume it leaves any number of passes only read
  and update the status. Deep copies read back as the original and share no
  memory with it, which is why the model may treat objects as values. \<^verbatim>\<open>main\<close> starts the manager only when
  everything before it succeeded. Components: the seed gate, the steady state and the drift of the server; exactness of the
  target set and of the admitted addresses; the phases of bindings; the pre-bound pair; selectors; the
  backup pods; the reclaim policy and the waiting teardown; status and conditions; names and their one
  collision; parsing and printing of IPv4 prefixes; event mapping and configuration.

  \<^bold>\<open>Bounds.\<close> No fuel is used: every loop of the code is a recursion over a finite list or shrinks its input
  (\<open>groupLoop\<close> reads at most eight groups, \<open>trimLeft\<close> shortens the string). Addresses are 32-bit and 128-bit
  words that wrap as \<^verbatim>\<open>Addr.Next\<close> does; counts are natural numbers, times and replica counts integers.

  \<^bold>\<open>Not modelled.\<close> Contexts, logging and the error texts. Parsing of the command line, the manager, its queue and
  caches, the TLS and metrics servers are libraries: \<^verbatim>\<open>main\<close> is modelled up to the calls it makes of them, whose
  success is a parameter. A quantity is its text, and of a list's metadata only the resource version is kept.
  Defaulting by the API server is not assumed; admission, garbage collection and optimistic concurrency only
  in \<open>api_server\<close>. What a pass achieves while others write to the cluster is not stated, only what it may do.
\<close>

section \<open>Safety of whole passes\<close>

text \<open>C1: every call of a pass over a volume is allowed by the contract at the moment it is issued, whatever the API
  server replies and however the cluster changes in between.\<close>

theorem Reconcile_obeys_contract:
  assumes "operator_env r" "svName sv = snd req"
  shows "obeys (contract r sv) (trace (snd (Reconcile r req (freshRun w))))"
  using operator_env.Reconcile_keeps_contract [OF assms(1) _ assms(2)] by simp

theorem Reconcile_obeys_contract_witness:
  "obeys (contract refReconciler demoVolume)
     (trace (snd (Reconcile refReconciler ('''', ''data'') (freshRun demoCluster))))"
  by (rule Reconcile_obeys_contract [OF ref.operator_env_axioms]) simp



lemma pass_obeys:
  assumes "operator_env r" "svName sv = snd req" "\<And>h c. contract r sv h c \<Longrightarrow> pol h c"
  shows "obeys pol (trace (snd (Reconcile r req (freshRun w))))"
  using operator_env.Reconcile_keeps_contract [OF assms(1) _ assms(2), of "freshRun w"] assms(3)
  by (auto intro: obeys_mono)

text \<open>C8: a claim of a user is never deleted: a pass deletes a claim only right after reading, with no write in
  between, that it is not being deleted yet and carries the volume's label, or that it is the volume's own
  backing claim.\<close>

theorem Reconcile_spares_foreign_claims:
  assumes "operator_env r" "svName sv = snd req"
  shows "obeys (\<lambda>h c. \<forall>key p. c = Delete KPVC key p \<longrightarrow>
      (\<exists>pvc. lastGet h KPVC key = Some (Returned (OPVC pvc)) \<and> IsZero (omDeletionTimestamp (pvcMeta pvc))
        \<and> (mapGet (omLabels (pvcMeta pvc)) LabelSharedVolume = svName sv \<or> key = backingKey r sv)))
    (trace (snd (Reconcile r req (freshRun w))))"
  by (rule pass_obeys [OF assms]) auto

theorem Reconcile_spares_foreign_claims_witness:
  "obeys (\<lambda>h c. \<forall>key p. c = Delete KPVC key p \<longrightarrow>
      (\<exists>pvc. lastGet h KPVC key = Some (Returned (OPVC pvc)) \<and> IsZero (omDeletionTimestamp (pvcMeta pvc))
        \<and> (mapGet (omLabels (pvcMeta pvc)) LabelSharedVolume = ''data''
           \<or> key = backingKey refReconciler deletedVolume)))
    (trace (snd (Reconcile refReconciler ('''', ''data'') (freshRun drainingCluster))))"
  using Reconcile_spares_foreign_claims [OF ref.operator_env_axioms, of deletedVolume "('''', ''data'')" drainingCluster]
  by simp

text \<open>C9: a PV is deleted only if it was listed as the volume's and the latest read of its claim, with no write in
  between, found the claim gone or not the volume's.\<close>

theorem Reconcile_deletes_free_volumes:
  assumes "operator_env r" "svName sv = snd req"
  shows "obeys (\<lambda>h c. \<forall>key p. c = Delete KPV key p \<longrightarrow>
      (\<exists>pv. listedPV sv h pv \<and> key = ObjectKeyFromObject (OPV pv) \<and> claimFree sv h pv))
    (trace (snd (Reconcile r req (freshRun w))))"
  by (rule pass_obeys [OF assms]) (auto simp: mayDelete.simps(2))

theorem Reconcile_deletes_free_volumes_witness:
  "obeys (\<lambda>h c. \<forall>key p. c = Delete KPV key p \<longrightarrow>
      (\<exists>pv. listedPV deletedVolume h pv \<and> key = ObjectKeyFromObject (OPV pv) \<and> claimFree deletedVolume h pv))
    (trace (snd (Reconcile refReconciler ('''', ''data'') (freshRun drainingCluster))))"
  using Reconcile_deletes_free_volumes [OF ref.operator_env_axioms, of deletedVolume "('''', ''data'')"]
  by simp

text \<open>C11: the Service, whose address is stamped into immutable PV specs, is never updated, and like the Deployment
  and the ConfigMap it is deleted only after all of the volume's PVs were listed and none of their claims
  was found to hold the volume any more.\<close>

theorem Reconcile_keeps_service:
  assumes "operator_env r" "svName sv = snd req"
  shows "obeys (\<lambda>h c. (\<forall>x. c \<noteq> Update (OService x))
      \<and> (\<forall>k key p. c = Delete k key p \<and> k \<in> {KService, KDeployment, KConfigMap} \<longrightarrow> drained sv h))
    (trace (snd (Reconcile r req (freshRun w))))"
  by (rule pass_obeys [OF assms]) auto

theorem Reconcile_keeps_service_witness:
  "obeys (\<lambda>h c. (\<forall>x. c \<noteq> Update (OService x))
      \<and> (\<forall>k key p. c = Delete k key p \<and> k \<in> {KService, KDeployment, KConfigMap} \<longrightarrow> drained deletedVolume h))
    (trace (snd (Reconcile refReconciler ('''', ''data'') (freshRun drainingCluster))))"
  by (rule Reconcile_keeps_service [OF ref.operator_env_axioms]) simp

text \<open>C10: the finalizer goes last: an update that leaves the volume without it is issued only after the claims were
  drained, every object of the server stack was deleted or found missing, and the backing claim was seen to
  be gone, going, or retained.\<close>

theorem Reconcile_finalizer_last:
  assumes "operator_env r" "svName sv = snd req"
    and "\<And>fs. finalizerName \<in> set (snd (addFinalizer r fs finalizerName))"
  shows "obeys (\<lambda>h c. \<forall>y. c = Update (OSharedVolume y) \<and> finalizerName \<notin> set (omFinalizers (svMeta y)) \<longrightarrow>
      drained sv h \<and> stackDeleted r sv h \<and> backingSettled r sv h)
    (trace (snd (Reconcile r req (freshRun w))))"
  by (rule pass_obeys [OF assms(1,2)]) (auto simp: setFinalizers_def assms(3))

theorem Reconcile_finalizer_last_witness:
  "obeys (\<lambda>h c. \<forall>y. c = Update (OSharedVolume y) \<and> finalizerName \<notin> set (omFinalizers (svMeta y)) \<longrightarrow>
      drained deletedVolume h \<and> stackDeleted refReconciler deletedVolume h
      \<and> backingSettled refReconciler deletedVolume h)
    (trace (snd (Reconcile refReconciler ('''', ''data'') (freshRun drainingCluster))))"
  by (rule Reconcile_finalizer_last [OF ref.operator_env_axioms]) (simp_all add: refAddFinalizer_def)

text \<open>C12: an object is created only right after a read found it missing, and it carries the volume's label, so a
  later pass recognises it as the volume's.\<close>

theorem Reconcile_creates_missing:
  assumes "operator_env r" "svName sv = snd req"
  shows "obeys (\<lambda>h c. \<forall>x. c = Create x \<longrightarrow>
      lastGet h (objKind x) (ObjectKeyFromObject x) = Some (Failed NotFound)
      \<and> mapGet (omLabels (objMeta x)) LabelSharedVolume = svName sv)
    (trace (snd (Reconcile r req (freshRun w))))"
  by (rule pass_obeys [OF assms]) (auto simp: mayCreate_def)

theorem Reconcile_creates_missing_witness:
  "obeys (\<lambda>h c. \<forall>x. c = Create x \<longrightarrow>
      lastGet h (objKind x) (ObjectKeyFromObject x) = Some (Failed NotFound)
      \<and> mapGet (omLabels (objMeta x)) LabelSharedVolume = svName demoVolume)
    (trace (snd (Reconcile refReconciler ('''', ''data'') (freshRun demoCluster))))"
  by (rule Reconcile_creates_missing [OF ref.operator_env_axioms]) simp

section \<open>Components in their environment\<close>



text \<open>C19: the conditions agree with the facts of the pass: ServerReady is true exactly when the server is ready,
  AllBound exactly when there is a target and every target is bound, and Restored is left as it was.\<close>

theorem status_conditions:
  assumes "condition_api r"
  shows "isStatusConditionTrue r (svConditions (newStatus r w sv ip ready bs)) ConditionServerReady = ready
    \<and> isStatusConditionTrue r (svConditions (newStatus r w sv ip ready bs)) ConditionAllBound = allBound bs
    \<and> isStatusConditionTrue r (svConditions (newStatus r w sv ip ready bs)) ConditionRestored
        = isStatusConditionTrue r (svConditions sv) ConditionRestored"
  using allBound_count [of bs] condition_api.set_lookup [OF assms]
  by (auto simp: svConditions_newStatus serverReadyCondition_def allBoundCondition_def boolToCondition_def
      condition_names)

theorem status_conditions_witness:
  "isStatusConditionTrue refReconciler
     (svConditions (newStatus refReconciler demoCluster demoVolume ''10.96.0.9'' True [])) ConditionServerReady"
  using status_conditions [OF ref.condition_api_axioms] by simp

text \<open>C31: volumes of different names share nothing in the operator's namespace: no object of one server stack is an
  object of the other, and their backing claims differ.\<close>

theorem stacks_disjoint:
  assumes "svName a \<noteq> svName b"
  shows "set (serverStack r a) \<inter> set (serverStack r b) = {} \<and> backingKey r a \<noteq> backingKey r b"
  using assms service.name_inj [of a b] conf.name_inj [of a b] cron.name_inj [of a b] seed.name_inj [of a b]
    backing.name_inj [of a b]
  by (auto simp: serverStack_def backingKey_def)

theorem stacks_disjoint_witness:
  "set (serverStack refReconciler demoVolume) \<inter> set (serverStack refReconciler (namedVolume ''data-2'')) = {}"
  using stacks_disjoint [of demoVolume "namedVolume ''data-2''" refReconciler] by simp

text \<open>C21: cleaning up spares the targets: every claim deleted lies outside the target namespaces, and every PV
  deleted was listed as the volume's and is reserved for a claim outside them.\<close>

theorem cleanup_spares_targets:
  assumes "operator_env r"
  shows "obeys (sparesTargets sv targets) (trace (snd (cleanupStaleBindings r sv targets (freshRun w))))"
  by (rule wp_invariant [OF operator_env.wp_cleanupStaleBindings_spares [OF assms]]) simp

theorem cleanup_spares_targets_witness:
  "obeys (sparesTargets demoVolume [''team-b''])
     (trace (snd (cleanupStaleBindings refReconciler demoVolume [''team-b''] (freshRun drainingCluster))))"
  by (rule cleanup_spares_targets [OF ref.operator_env_axioms])

text \<open>A server stack in its desired state is left alone: when the backing claim, the Service, a ConfigMap with the
  current configuration and a Deployment without drift are there and seeding is settled, the pass only
  reads and reports the Service's address and the Deployment's readiness.\<close>

theorem server_steady:
  assumes "client r w (Get KPVC (OperatorNamespace r, BackingPVCName sv)) = (Returned (OPVC p), w)"
    and "client r w (Get KConfigMap (OperatorNamespace r, ConfigMapName sv)) = (Returned (OConfigMap c), w)"
    and "mapGet (cmData c) ''ganesha.conf'' = Config" "seedSettled r sv"
    and "client r w (Get KDeployment (OperatorNamespace r, ServerName sv)) = (Returned (ODeployment d), w)"
    and "deploymentDrifted (depTemplate (depSpec d)) (depTemplate (depSpec (BuildServerDeployment sv
           (OperatorNamespace r) (GaneshaImage r) (BuildConfigMap sv (OperatorNamespace r))))) = Inr False"
    and "client r w (Get KService (OperatorNamespace r, ServerName sv)) = (Returned (OService v), w)"
  shows "\<exists>h. reconcileServer r sv (freshRun w)
        = (Inr (svcClusterIP v, 0 < depReadyReplicas d, sv), \<lparr>world = w, trace = h\<rparr>)
      \<and> list_all (\<lambda>(c, _). fst (requirement c) = VGet) h"
  using assms
  by (simp add: reconcileServer_def createIfMissing_def ensureConfigMap_def ensureDeployment_def ensureService_def
      reconcileSeed_settled built_keys conf_data prog_defs freshRun_def Let_def)

theorem server_steady_witness:
  "\<exists>h. reconcileServer refReconciler demoVolume (freshRun steadyCluster)
      = (Inr (''10.96.0.9'', True, demoVolume), \<lparr>world = steadyCluster, trace = h\<rparr>)
    \<and> list_all (\<lambda>(c, _). fst (requirement c) = VGet) h"
  using server_steady [of refReconciler steadyCluster demoVolume steadyBacking steadyConf steadyServer steadyService]
    steady_replies by simp

section \<open>Where the code does less than it says\<close>

text \<open>C32: a missing Service is created again without a look at the PVs: when the read finds no Service and the creation
  succeeds, the three calls are the read, the creation and a second read, and the new address is returned
  whatever PVs carry the old one.\<close>

theorem service_recreated:
  assumes "client r w (Get KService (OperatorNamespace r, ServerName sv)) = (Failed NotFound, w1)"
    and "setControllerReference r sv (svcMeta (BuildService sv (OperatorNamespace r))) = Inr m"
    and "client r w1 (Create (OService ((BuildService sv (OperatorNamespace r))\<lparr>svcMeta := m\<rparr>))) = (Returned (OService x), w2)"
    and "client r w2 (Get KService (ObjectKeyFromObject (OService x))) = (Returned (OService v), w3)"
  shows "fst (ensureService r sv (freshRun w)) = Inr (svcClusterIP v)
    \<and> map (requirement \<circ> fst) (rev (trace (snd (ensureService r sv (freshRun w)))))
      = [(VGet, Resource KService), (VCreate, Resource KService), (VGet, Resource KService)]"
  using assms by (simp add: ensureService_def createOwned_def built_keys prog_defs freshRun_def Let_def)

text \<open>In a cluster whose PV carries the address of a Service that is gone, the new Service gets another one.\<close>

theorem service_recreated_witness:
  "fst (ensureService refReconciler demoVolume (freshRun boundCluster)) = Inr ''10.96.0.4''
   \<and> map_option nfsServer (pvNFS (pvSpec (BuildPV demoVolume ''team-a'' ''10.96.0.9''))) = Some ''10.96.0.9''"
  using service_recreated [OF recreate_replies] by (simp add: BuildPV_def)

text \<open>C33: in a conflict the PV is made before the claim is looked at: for a namespace with a foreign claim of the
  volume's name and no PV yet, a PV reserved for that foreign claim is created, and only then is the
  conflict reported.\<close>

theorem conflict_reserves_volume:
  assumes "client r w (Get KPV ('''', PVName sv ns)) = (Failed NotFound, w1)"
    and "setControllerReference r sv (pvMeta (BuildPV sv ns ip)) = Inr m"
    and "client r w1 (Create (OPV ((BuildPV sv ns ip)\<lparr>pvMeta := m\<rparr>))) = (Returned (OPV x), w2)"
    and "client r w2 (Get KPVC (ns, ConsumerPVCName sv)) = (Returned (OPVC p), w3)"
    and "mapGet (omLabels (pvcMeta p)) LabelSharedVolume \<noteq> svName sv"
  shows "\<exists>pv. fst (reconcileBinding r sv ns ip (freshRun w)) = Inr BindingConflict
    \<and> (Create (OPV pv), Returned (OPV x)) \<in> set (trace (snd (reconcileBinding r sv ns ip (freshRun w))))
    \<and> map_option (\<lambda>ref. (refNamespace ref, refName ref)) (pvClaimRef (pvSpec pv)) = Some (ns, ConsumerPVCName sv)"
proof -
  have key: "ObjectKeyFromObject (OPV (BuildPV sv ns ip)) = ('''', PVName sv ns)"
    by (simp add: BuildPV_def ObjectKeyFromObject_def)
  have ref: "map_option (\<lambda>ref. (refNamespace ref, refName ref)) (pvClaimRef (pvSpec (BuildPV sv ns ip)))
      = Some (ns, ConsumerPVCName sv)" by (simp add: BuildPV_def)
  show ?thesis
    using assms ref by (intro exI [of _ "(BuildPV sv ns ip)\<lparr>pvMeta := m\<rparr>"])
      (simp add: reconcileBinding_def ensurePV_def createOwned_def key built_keys prog_defs freshRun_def Let_def)
qed

theorem conflict_reserves_volume_witness:
  "fst (reconcileBinding refReconciler demoVolume ''team-a'' ''10.96.0.9'' (freshRun conflictCluster)) = Inr BindingConflict"
  using conflict_reserves_volume [OF conflict_replies] by blast

section \<open>What a pass achieves\<close>

lemma wp_total: "wp m Q (\<lambda>_ _. False) s \<longleftrightarrow> (\<exists>x s'. m s = (Inr x, s') \<and> Q x s')"
  by (auto simp: wp_def split: prod.splits sum.splits)





text \<open>C4: the operator comes to rest after one pass: when nobody interferes, the pass over a live volume creates what
  is missing and repairs what has drifted (configuration, server image, released PVs, policy, backup), so that
  it ends without error and leaves the volume settled with its spec unchanged, and every later pass
  only reads and updates the status. The volume has to be one that a pass can settle: nobody else's PV, claim
  or finalizer stands in the way, no pair waits to be withdrawn, and seeding is decided, that is not asked for,
  recorded as done, skipped because a server exists, or completed by the seed job.\<close>

theorem one_pass_settles:
  assumes "settling_server r I objs" "I w" "objs w KSharedVolume req = Some (OSharedVolume sv)"
    and "IsZero (omDeletionTimestamp (svMeta sv))" "undisputed r sv (objs w)" "seedDecided r sv (objs w)"
  shows "\<exists>s y. Reconcile r req (freshRun w) = (Inr doneResult, s)
    \<and> objs (world s) KSharedVolume req = Some (OSharedVolume y) \<and> svSpec y = svSpec sv \<and> settled r y (objs (world s))
    \<and> (\<forall>n. list_all (\<lambda>(res, h). res = Inr doneResult \<and> statusOnly sv h) (fst (passes r req n (world s))))"
  by (rule settling_server.settle_passes [OF assms])

theorem one_pass_settles_witness:
  "\<exists>s y. Reconcile refReconciler ('''', ''data'') (freshRun driftedCluster) = (Inr doneResult, s)
     \<and> storeLookup (world s) KSharedVolume ('''', ''data'') = Some (OSharedVolume y) \<and> svSpec y = svSpec demoVolume
     \<and> settled refReconciler y (storeLookup (world s))
     \<and> (\<forall>n. list_all (\<lambda>(res, h). res = Inr doneResult \<and> statusOnly demoVolume h)
          (fst (passes refReconciler ('''', ''data'') n (world s))))"
  by (rule one_pass_settles [OF live.settling_server_axioms drifted_volume(1-3) drifted_undisputed])



text \<open>C6: the operator comes to rest: when a volume is settled (the cluster holds what the spec asks for and nothing
  has drifted) and nobody interferes, every one of any number of passes ends without error and without a
  requeue, only reads, and at the end updates the status of the volume, so that nothing but the status
  ever changes.\<close>

theorem settled_stays_quiet:
  assumes "api_server r I objs" "condition_api r" "I w" "objs w KSharedVolume req = Some (OSharedVolume sv)"
    and "settled r sv (objs w)"
  shows "(\<forall>(res, h) \<in> set (fst (passes r req n w)). res = Inr doneResult \<and> statusOnly sv h)
    \<and> (\<forall>k. k \<noteq> KSharedVolume \<longrightarrow> objs (snd (passes r req n w)) k = objs w k)"
  by (rule api_server.rest_passes [OF assms(1,2,3,5,4)])

theorem settled_stays_quiet_witness:
  "list_all (\<lambda>(res, h). res = Inr doneResult \<and> statusOnly restedVolume h)
     (fst (passes refReconciler ('''', ''data'') 3 settledCluster))"
  using settled_stays_quiet [OF live.api_server_axioms ref.condition_api_axioms settled_volume(2) settled_parts(1)
      settled_volume(1), of 3] unfolding list_all_iff by (rule conjunct1)

section \<open>Watched kinds\<close>


end
